(* ===== verification/Smpp_Prelude.thy ===== *)
theory Smpp_Prelude
  imports Main "HOL-Library.Word" "HOL-Library.Char_ord"
begin

text \<open>
  Shared vocabulary of the development: the C++ integer and buffer types, byte strings,
  the raw-memory idioms of the sources (element writes into a vector, memcpy), big-endian
  32-bit access, hexadecimal stream output, and a small theory of reachable states with
  the contract that an inductive invariant has to meet.
\<close>

unbundle bit_operations_syntax

section \<open>Types and collections\<close>

type_synonym byte = "8 word"
type_synonym u16 = "16 word"
type_synonym u32 = "32 word"
type_synonym u64 = "64 word"

named_theorems wire_simps \<open>rewrite rules for buffers, offsets and big-endian fields\<close>
named_theorems frame_simps \<open>fields that an operation leaves unchanged\<close>

section \<open>Definitions\<close>

subsection \<open>Characters and bytes\<close>

text \<open>
  A C++ \<open>std::string\<close> is a sequence of 8-bit units; Isabelle's \<open>char\<close> has exactly 256
  values, so the two static casts between \<open>char\<close> and \<open>uint8_t\<close> are bijections.
\<close>

definition byte_of_char :: "char \<Rightarrow> byte" where
  "byte_of_char c = of_char c"

definition char_of_byte :: "byte \<Rightarrow> char" where
  "char_of_byte b = char_of (unat b)"

definition bytes_of :: "string \<Rightarrow> byte list" where
  "bytes_of s = map byte_of_char s"

definition string_of :: "byte list \<Rightarrow> string" where
  "string_of bs = map char_of_byte bs"

definition no_nul :: "string \<Rightarrow> bool" where
  "no_nul s = list_all (\<lambda>c. byte_of_char c \<noteq> 0) s"

subsection \<open>Raw memory\<close>

text \<open>
  memcpy into a vector, byte by byte. A byte past the end of the vector is dropped by the
  model; the bounds lemmas of the components show that no caller reaches that case.
\<close>

primrec memcpy :: "byte list \<Rightarrow> nat \<Rightarrow> byte list \<Rightarrow> byte list" where
  "memcpy p off [] = p"
| "memcpy p off (b # bs) = memcpy (p[off := b]) (Suc off) bs"

definition be_join :: "byte \<Rightarrow> byte \<Rightarrow> byte \<Rightarrow> byte \<Rightarrow> u32" where
  "be_join b0 b1 b2 b3 =
     push_bit 24 (ucast b0) OR push_bit 16 (ucast b1) OR push_bit 8 (ucast b2) OR ucast b3"

definition be_split :: "u32 \<Rightarrow> byte list" where
  "be_split v = [ucast (drop_bit 24 v AND 0xff), ucast (drop_bit 16 v AND 0xff),
                 ucast (drop_bit 8 v AND 0xff), ucast (v AND 0xff)]"

subsection \<open>Hexadecimal stream output\<close>

text \<open>
  \<open>oss << std::hex << n\<close> writes lower-case digits without leading zeros;
  \<open>std::setw(w)\<close> with \<open>std::setfill('0')\<close> pads on the left and never truncates.
\<close>

definition hex_digit :: "nat \<Rightarrow> char" where
  "hex_digit d = ''0123456789abcdef'' ! d"

definition is_hex_char :: "char \<Rightarrow> bool" where
  "is_hex_char c \<longleftrightarrow> c \<in> set ''0123456789abcdef''"

fun hex_stream :: "nat \<Rightarrow> string" where
  "hex_stream n = (if n < 16 then [hex_digit n] else hex_stream (n div 16) @ [hex_digit (n mod 16)])"

declare hex_stream.simps [simp del]

definition setw_fill0 :: "nat \<Rightarrow> string \<Rightarrow> string" where
  "setw_fill0 w s = replicate (w - length s) (CHR ''0'') @ s"

text \<open>The fixed-width reading used in the proofs: exactly \<open>w\<close> digits, most significant first.\<close>

primrec hex_fixed :: "nat \<Rightarrow> nat \<Rightarrow> string" where
  "hex_fixed 0 n = []"
| "hex_fixed (Suc w) n = hex_fixed w (n div 16) @ [hex_digit (n mod 16)]"

subsection \<open>Decimal output\<close>

text \<open>\<open>std::to_string\<close> of an unsigned number.\<close>

fun to_string :: "nat \<Rightarrow> string" where
  "to_string n = (if n < 10 then [hex_digit n] else to_string (n div 10) @ [hex_digit (n mod 10)])"

declare to_string.simps [simp del]

subsection \<open>Reachable states\<close>

inductive reachable :: "('s \<Rightarrow> bool) \<Rightarrow> ('s \<Rightarrow> 's \<Rightarrow> bool) \<Rightarrow> 's \<Rightarrow> bool"
  for start :: "'s \<Rightarrow> bool" and step :: "'s \<Rightarrow> 's \<Rightarrow> bool" where
  reach_start: "start s \<Longrightarrow> reachable start step s"
| reach_step: "reachable start step s \<Longrightarrow> step s t \<Longrightarrow> reachable start step t"

section \<open>Lemmas\<close>

subsection \<open>Characters and bytes\<close>

lemma unat_byte_of_char: "unat (byte_of_char c) = of_char c"
proof -
  have "byte_of_char c = of_nat (of_char c)"
    by (simp only: byte_of_char_def of_nat_of_char)
  then have "unat (byte_of_char c) = of_char c mod 256"
    by (simp only: unsigned_of_nat) (simp add: take_bit_eq_mod)
  then show ?thesis by simp
qed

lemma char_of_byte_of_char [simp]: "char_of_byte (byte_of_char c) = c"
  by (simp add: char_of_byte_def unat_byte_of_char)

lemma byte_of_char_of_byte [simp]: "byte_of_char (char_of_byte b) = b"
proof -
  have "unat (byte_of_char (char_of_byte b)) = unat b mod 256"
    by (simp add: unat_byte_of_char char_of_byte_def)
  moreover have "unat b < 256" using unsigned_less [of b, where ?'a = nat] by simp
  ultimately show ?thesis by (simp add: word_unat_eq_iff)
qed

lemma length_bytes_of [simp]: "length (bytes_of s) = length s"
  by (simp add: bytes_of_def)

lemma length_string_of [simp]: "length (string_of bs) = length bs"
  by (simp add: string_of_def)

lemma bytes_of_Nil [simp]: "bytes_of [] = []"
  by (simp add: bytes_of_def)

lemma bytes_of_Cons [simp]: "bytes_of (c # s) = byte_of_char c # bytes_of s"
  by (simp add: bytes_of_def)

lemma string_of_bytes_of [simp]: "string_of (bytes_of s) = s"
  by (simp add: string_of_def bytes_of_def comp_def)

lemma bytes_of_string_of [simp]: "bytes_of (string_of bs) = bs"
  by (simp add: string_of_def bytes_of_def comp_def)

lemma no_nul_simps [simp]:
  "no_nul []"
  "no_nul (c # s) \<longleftrightarrow> byte_of_char c \<noteq> 0 \<and> no_nul s"
  by (simp_all add: no_nul_def)

subsection \<open>Raw memory\<close>

lemma length_memcpy [simp]: "length (memcpy p off bs) = length p"
  by (induction bs arbitrary: p off) auto

lemma memcpy_eq:
  "off + length bs \<le> length p \<Longrightarrow> memcpy p off bs = take off p @ bs @ drop (off + length bs) p"
proof (induction bs arbitrary: p off)
  case (Cons b bs)
  then have "memcpy p off (b # bs) =
      take (Suc off) (p[off := b]) @ bs @ drop (Suc off + length bs) (p[off := b])"
    by simp
  with Cons.prems show ?case by (simp add: take_Suc_conv_app_nth)
qed simp

lemma length_be_split [simp]: "length (be_split v) = 4"
  by (simp add: be_split_def)

lemma low_byte: "(ucast (v AND 0xff) :: byte) = ucast (v :: u32)"
proof -
  have "v AND 0xff = take_bit 8 v"
    by (simp add: take_bit_eq_mask mask_eq_exp_minus_1)
  then show ?thesis by (auto intro!: bit_word_eqI simp: bit_simps)
qed

lemma be_split_simps:
  "be_split v = [ucast (drop_bit 24 v), ucast (drop_bit 16 v), ucast (drop_bit 8 v), ucast v]"
  by (simp add: be_split_def low_byte)

lemma be_join_be_split:
  "be_join (ucast (drop_bit 24 v)) (ucast (drop_bit 16 v)) (ucast (drop_bit 8 v)) (ucast v) = v"
proof (rule bit_word_eqI)
  fix n assume "n < LENGTH(32)"
  then consider "n < 8" | "8 \<le> n" "n < 16" | "16 \<le> n" "n < 24" | "24 \<le> n" "n < 32"
    by force
  then show "bit (be_join (ucast (drop_bit 24 v)) (ucast (drop_bit 16 v))
      (ucast (drop_bit 8 v)) (ucast v)) n = bit v n"
    unfolding be_join_def by cases (auto simp: bit_simps)
qed

lemma bit_byte_beyond: "8 \<le> n \<Longrightarrow> \<not> bit (b :: byte) n"
  using bit_imp_le_length [of b n] by auto

lemma be_split_be_join: "be_split (be_join b0 b1 b2 b3) = [b0, b1, b2, b3]"
  unfolding be_split_simps be_join_def
  by (auto intro!: bit_word_eqI simp: bit_simps bit_byte_beyond)

subsection \<open>Hexadecimal output\<close>

lemma length_hex_fixed [simp]: "length (hex_fixed w n) = w"
  by (induction w arbitrary: n) auto

lemma hex_digit_simps [simp]: "hex_digit 0 = CHR ''0''"
  by (simp add: hex_digit_def)

lemma hex_fixed_0: "hex_fixed w 0 = replicate w (CHR ''0'')"
  by (induction w) (simp_all add: replicate_append_same)

lemma hex_stream_fixed:
  "n < 16 ^ w \<Longrightarrow> 0 < w \<Longrightarrow> length (hex_stream n) \<le> w \<and> setw_fill0 w (hex_stream n) = hex_fixed w n"
proof (induction n arbitrary: w rule: hex_stream.induct)
  case (1 n)
  then obtain v where w: "w = Suc v" by (cases w) auto
  show ?case
  proof (cases "n < 16")
    case True
    then show ?thesis
      by (simp add: w hex_stream.simps [of n] setw_fill0_def hex_fixed_0)
  next
    case False
    with "1.prems" w have v: "0 < v" "n div 16 < 16 ^ v"
      by (auto intro: gr0I simp: less_mult_imp_div_less mult.commute)
    with "1.IH" False have "length (hex_stream (n div 16)) \<le> v"
        "setw_fill0 v (hex_stream (n div 16)) = hex_fixed v (n div 16)"
      by auto
    with False show ?thesis
      by (simp add: w hex_stream.simps [of n] setw_fill0_def)
  qed
qed

lemma setw_hex: "n < 16 ^ w \<Longrightarrow> 0 < w \<Longrightarrow> setw_fill0 w (hex_stream n) = hex_fixed w n"
  by (simp add: hex_stream_fixed)

lemma hex_digit_inj: "a < 16 \<Longrightarrow> b < 16 \<Longrightarrow> hex_digit a = hex_digit b \<longleftrightarrow> a = b"
  unfolding hex_digit_def by (rule nth_eq_iff_index_eq) simp_all

lemma hex_fixed_inj:
  "m < 16 ^ w \<Longrightarrow> n < 16 ^ w \<Longrightarrow> hex_fixed w m = hex_fixed w n \<longleftrightarrow> m = n"
proof (induction w arbitrary: m n)
  case (Suc w)
  then have "m div 16 < 16 ^ w" "n div 16 < 16 ^ w"
    by (auto simp: less_mult_imp_div_less mult.commute)
  with Suc.IH have "hex_fixed (Suc w) m = hex_fixed (Suc w) n \<longleftrightarrow>
      m div 16 = n div 16 \<and> m mod 16 = n mod 16"
    by (auto simp: hex_digit_inj)
  then show ?case by (metis div_mult_mod_eq)
qed simp

lemma take_hex_fixed: "take k (hex_fixed (k + m) n) = hex_fixed k (n div 16 ^ m)"
proof (induction m arbitrary: n)
  case (Suc m)
  have "take k (hex_fixed (k + Suc m) n) = take k (hex_fixed (k + m) (n div 16))"
    by simp
  then show ?case by (simp add: Suc div_mult2_eq)
qed simp

lemma is_hex_digit: "d < 16 \<Longrightarrow> is_hex_char (hex_digit d)"
  unfolding is_hex_char_def hex_digit_def by (rule nth_mem) simp

lemma hex_fixed_hex: "list_all is_hex_char (hex_fixed w n)"
  by (induction w arbitrary: n) (auto simp: is_hex_digit)

subsection \<open>Invariants\<close>

text \<open>
  What a component has to show for a predicate to hold in all its reachable states: the
  start states satisfy it and every step keeps it.
\<close>

locale inductive_invariant =
  fixes start :: "'s \<Rightarrow> bool"
    and step :: "'s \<Rightarrow> 's \<Rightarrow> bool"
    and inv :: "'s \<Rightarrow> bool"
  assumes inv_start: "start s \<Longrightarrow> inv s"
    and inv_step: "inv s \<Longrightarrow> step s t \<Longrightarrow> inv t"
begin

lemma holds: "reachable start step s \<Longrightarrow> inv s"
  by (induction rule: reachable.induct) (auto intro: inv_start inv_step)

lemma holds_from: "step\<^sup>*\<^sup>* s t \<Longrightarrow> inv s \<Longrightarrow> inv t"
  by (induction rule: rtranclp.induct) (auto intro: inv_step)

end

lemma reachable_steps: "step\<^sup>*\<^sup>* s t \<Longrightarrow> reachable start step s \<Longrightarrow> reachable start step t"
  by (induction rule: rtranclp.induct) (auto intro: reachable.intros)

lemma reachable_rtranclp: "step\<^sup>*\<^sup>* s t \<Longrightarrow> start s \<Longrightarrow> reachable start step t"
  by (induction rule: rtranclp.induct) (auto intro: reachable.intros)

end
