(* ===== verification/Smpp_Pdu.thy ===== *)
theory Smpp_Pdu
  imports Smpp_Prelude "HOL-Library.Sublist"
begin

text \<open>
  The wire format of SmppClientHandler/include/smpp_pdu.hpp: command and status codes, the
  16-byte header, C-octet strings, the submit_sm parser and the two PDU builders. Offsets
  are \<open>size_t\<close> values that never pass the buffer length, so they are natural numbers; every
  \<open>uint32_t\<close> is a 32-bit word. The parser is shown to agree with a stream reading of the
  same layout, and the layout to be inverted by the parser.
\<close>

section \<open>Definitions\<close>

subsection \<open>Command identifiers and status codes\<close>

abbreviation (input) BIND_TRANSMITTER :: u32 where "BIND_TRANSMITTER \<equiv> 0x00000002"
abbreviation (input) BIND_TRANSMITTER_RESP :: u32 where "BIND_TRANSMITTER_RESP \<equiv> 0x80000002"
abbreviation (input) BIND_RECEIVER :: u32 where "BIND_RECEIVER \<equiv> 0x00000003"
abbreviation (input) BIND_RECEIVER_RESP :: u32 where "BIND_RECEIVER_RESP \<equiv> 0x80000003"
abbreviation (input) BIND_TRANSCEIVER :: u32 where "BIND_TRANSCEIVER \<equiv> 0x00000009"
abbreviation (input) BIND_TRANSCEIVER_RESP :: u32 where "BIND_TRANSCEIVER_RESP \<equiv> 0x80000009"
abbreviation (input) UNBIND :: u32 where "UNBIND \<equiv> 0x00000006"
abbreviation (input) UNBIND_RESP :: u32 where "UNBIND_RESP \<equiv> 0x80000006"
abbreviation (input) ENQUIRE_LINK :: u32 where "ENQUIRE_LINK \<equiv> 0x00000015"
abbreviation (input) ENQUIRE_LINK_RESP :: u32 where "ENQUIRE_LINK_RESP \<equiv> 0x80000015"
abbreviation (input) SUBMIT_SM :: u32 where "SUBMIT_SM \<equiv> 0x00000004"
abbreviation (input) SUBMIT_SM_RESP :: u32 where "SUBMIT_SM_RESP \<equiv> 0x80000004"
abbreviation (input) DELIVER_SM :: u32 where "DELIVER_SM \<equiv> 0x00000005"
abbreviation (input) DELIVER_SM_RESP :: u32 where "DELIVER_SM_RESP \<equiv> 0x80000005"
abbreviation (input) GENERIC_NACK :: u32 where "GENERIC_NACK \<equiv> 0x80000000"

abbreviation (input) ESME_ROK :: u32 where "ESME_ROK \<equiv> 0x00000000"
abbreviation (input) ESME_RINVBNDSTS :: u32 where "ESME_RINVBNDSTS \<equiv> 0x00000004"
abbreviation (input) ESME_RALYBND :: u32 where "ESME_RALYBND \<equiv> 0x00000005"
abbreviation (input) ESME_RINVPASWD :: u32 where "ESME_RINVPASWD \<equiv> 0x0000000E"
abbreviation (input) ESME_RINVSYSID :: u32 where "ESME_RINVSYSID \<equiv> 0x0000000F"
abbreviation (input) ESME_RINVCMDID :: u32 where "ESME_RINVCMDID \<equiv> 0x00000003"
abbreviation (input) ESME_RTHROTTLED :: u32 where "ESME_RTHROTTLED \<equiv> 0x00000058"

subsection \<open>Header\<close>

record header =
  command_length :: u32
  command_id :: u32
  command_status :: u32
  sequence_number :: u32

definition read_u32 :: "byte list \<Rightarrow> nat \<Rightarrow> u32" where
  "read_u32 p off = be_join (p ! off) (p ! (off + 1)) (p ! (off + 2)) (p ! (off + 3))"

definition write_u32 :: "byte list \<Rightarrow> nat \<Rightarrow> u32 \<Rightarrow> byte list" where
  "write_u32 p off v =
     p[off := ucast (drop_bit 24 v AND 0xff),
       off + 1 := ucast (drop_bit 16 v AND 0xff),
       off + 2 := ucast (drop_bit 8 v AND 0xff),
       off + 3 := ucast (v AND 0xff)]"

definition decode_header :: "byte list \<Rightarrow> header" where
  "decode_header buf =
     \<lparr>command_length = read_u32 buf 0, command_id = read_u32 buf 4,
      command_status = read_u32 buf 8, sequence_number = read_u32 buf 12\<rparr>"

subsection \<open>C-octet strings\<close>

text \<open>
  The loop of read_cstr with its accumulator \<open>s\<close>; the reference parameter \<open>off\<close> is
  returned. Both conditions of the loop guard are kept: the string is cut at \<open>max_len\<close>
  characters and the terminator is then not consumed.
\<close>

function read_cstr_loop :: "nat \<Rightarrow> byte list \<Rightarrow> nat \<Rightarrow> string \<Rightarrow> string \<times> nat" where
  "read_cstr_loop max_len buf off s =
     (if off < length buf \<and> length s < max_len then
        (let c = buf ! off in
         if c = 0 then (s, off + 1)
         else read_cstr_loop max_len buf (off + 1) (s @ [char_of_byte c]))
      else (s, off))"
  by pat_completeness auto
termination
  by (relation "measure (\<lambda>(max_len, buf, off, s). length buf - off)") auto

declare read_cstr_loop.simps [simp del]

definition read_cstr :: "byte list \<Rightarrow> nat \<Rightarrow> string \<times> nat" where
  "read_cstr buf off = read_cstr_loop 65 buf off []"

subsection \<open>submit_sm\<close>

record submit_sm =
  service_type :: string
  src_ton :: byte
  src_npi :: byte
  src_addr :: string
  dst_ton :: byte
  dst_npi :: byte
  dst_addr :: string
  esm_class :: byte
  protocol_id :: byte
  priority_flag :: byte
  schedule_delivery_time :: string
  validity_period :: string
  registered_delivery :: byte
  replace_if_present :: byte
  data_coding :: byte
  sm_default_msg_id :: byte
  short_message :: string

definition empty_submit_sm :: submit_sm where
  "empty_submit_sm =
     \<lparr>service_type = [], src_ton = 0, src_npi = 0, src_addr = [], dst_ton = 0, dst_npi = 0,
      dst_addr = [], esm_class = 0, protocol_id = 0, priority_flag = 0,
      schedule_delivery_time = [], validity_period = [], registered_delivery = 0,
      replace_if_present = 0, data_coding = 0, sm_default_msg_id = 0, short_message = []\<rparr>"

text \<open>\<open>if (off < body.size()) field = body[off++];\<close> on a field that starts at 0.\<close>

definition read_octet :: "byte list \<Rightarrow> nat \<Rightarrow> byte \<times> nat" where
  "read_octet body off = (if off < length body then (body ! off, off + 1) else (0, off))"

text \<open>The final block of the parser: the length octet and at most that many raw bytes.\<close>

definition read_short_message :: "byte list \<Rightarrow> nat \<Rightarrow> string \<times> nat" where
  "read_short_message body off =
     (if off < length body then
        (let sm_len = unat (body ! off); off = off + 1;
             avail = min sm_len (length body - off)
         in (string_of (take avail (drop off body)), off + avail))
      else ([], off))"

definition parse_submit_sm :: "byte list \<Rightarrow> submit_sm" where
  "parse_submit_sm body =
     (if body = [] then empty_submit_sm
      else
        let off = 0;
            (service_type', off) = read_cstr body off;
            (src_ton', off) = read_octet body off;
            (src_npi', off) = read_octet body off;
            (src_addr', off) = read_cstr body off;
            (dst_ton', off) = read_octet body off;
            (dst_npi', off) = read_octet body off;
            (dst_addr', off) = read_cstr body off;
            (esm_class', off) = read_octet body off;
            (protocol_id', off) = read_octet body off;
            (priority_flag', off) = read_octet body off;
            (schedule', off) = read_cstr body off;
            (validity', off) = read_cstr body off;
            (registered', off) = read_octet body off;
            (replace', off) = read_octet body off;
            (coding', off) = read_octet body off;
            (default', off) = read_octet body off;
            (short', off) = read_short_message body off
        in \<lparr>service_type = service_type', src_ton = src_ton', src_npi = src_npi',
            src_addr = src_addr', dst_ton = dst_ton', dst_npi = dst_npi', dst_addr = dst_addr',
            esm_class = esm_class', protocol_id = protocol_id', priority_flag = priority_flag',
            schedule_delivery_time = schedule', validity_period = validity',
            registered_delivery = registered', replace_if_present = replace',
            data_coding = coding', sm_default_msg_id = default', short_message = short'\<rparr>)"

subsection \<open>PDU builders\<close>

text \<open>\<open>system_id.c_str()\<close> is NUL-terminated: memcpy of \<open>size() + 1\<close> bytes copies the NUL.\<close>

definition make_response :: "u32 \<Rightarrow> u32 \<Rightarrow> u32 \<Rightarrow> string \<Rightarrow> byte list" where
  "make_response cmd status seq system_id =
     (let body_len = (if system_id = [] then 0 else length system_id + 1);
          total = 16 + (of_nat body_len :: u32);
          pdu = replicate (unat total) 0;
          pdu = write_u32 pdu 0 total;
          pdu = write_u32 pdu 4 cmd;
          pdu = write_u32 pdu 8 status;
          pdu = write_u32 pdu 12 seq
      in if system_id \<noteq> [] then memcpy pdu 16 (bytes_of system_id @ [0]) else pdu)"

definition make_deliver_sm_body ::
    "string \<Rightarrow> string \<Rightarrow> string \<Rightarrow> byte \<Rightarrow> byte \<Rightarrow> byte \<Rightarrow> byte \<Rightarrow> byte list" where
  "make_deliver_sm_body src dst msg src_ton' src_npi' dst_ton' dst_npi' =
     [0] @ [src_ton', src_npi'] @ bytes_of src @ [0]
     @ [dst_ton', dst_npi'] @ bytes_of dst @ [0]
     @ [0, 0, 0] @ [0, 0] @ [0, 0, 0, 0]
     @ [of_nat (length msg)] @ bytes_of msg"

definition make_deliver_sm ::
    "u32 \<Rightarrow> string \<Rightarrow> string \<Rightarrow> string \<Rightarrow> byte \<Rightarrow> byte \<Rightarrow> byte \<Rightarrow> byte \<Rightarrow> byte list" where
  "make_deliver_sm seq src dst msg src_ton' src_npi' dst_ton' dst_npi' =
     (let body = make_deliver_sm_body src dst msg src_ton' src_npi' dst_ton' dst_npi';
          total = 16 + (of_nat (length body) :: u32);
          pdu = replicate (unat total) 0;
          pdu = write_u32 pdu 0 total;
          pdu = write_u32 pdu 4 DELIVER_SM;
          pdu = write_u32 pdu 8 ESME_ROK;
          pdu = write_u32 pdu 12 seq
      in memcpy pdu 16 body)"

definition bind_resp_id :: "u32 \<Rightarrow> u32" where
  "bind_resp_id req_id = req_id OR 0x80000000"

subsection \<open>Reference layout\<close>

text \<open>
  The same wire format read and written as a stream, without offsets: what each reader
  returns together with the bytes it leaves, and the mandatory-parameter layout of a
  submit_sm or deliver_sm body.
\<close>

fun cstr_stream :: "nat \<Rightarrow> byte list \<Rightarrow> string \<times> byte list" where
  "cstr_stream 0 bs = ([], bs)"
| "cstr_stream (Suc n) [] = ([], [])"
| "cstr_stream (Suc n) (b # bs) =
     (if b = 0 then ([], bs)
      else let (s, rest) = cstr_stream n bs in (char_of_byte b # s, rest))"

fun octet_stream :: "byte list \<Rightarrow> byte \<times> byte list" where
  "octet_stream [] = (0, [])"
| "octet_stream (b # bs) = (b, bs)"

fun short_message_stream :: "byte list \<Rightarrow> string \<times> byte list" where
  "short_message_stream [] = ([], [])"
| "short_message_stream (b # bs) = (string_of (take (unat b) bs), drop (unat b) bs)"

definition submit_sm_stream :: "byte list \<Rightarrow> submit_sm" where
  "submit_sm_stream bs =
     (let (service_type', bs) = cstr_stream 65 bs;
          (src_ton', bs) = octet_stream bs;
          (src_npi', bs) = octet_stream bs;
          (src_addr', bs) = cstr_stream 65 bs;
          (dst_ton', bs) = octet_stream bs;
          (dst_npi', bs) = octet_stream bs;
          (dst_addr', bs) = cstr_stream 65 bs;
          (esm_class', bs) = octet_stream bs;
          (protocol_id', bs) = octet_stream bs;
          (priority_flag', bs) = octet_stream bs;
          (schedule', bs) = cstr_stream 65 bs;
          (validity', bs) = cstr_stream 65 bs;
          (registered', bs) = octet_stream bs;
          (replace', bs) = octet_stream bs;
          (coding', bs) = octet_stream bs;
          (default', bs) = octet_stream bs;
          (short', bs) = short_message_stream bs
      in \<lparr>service_type = service_type', src_ton = src_ton', src_npi = src_npi',
          src_addr = src_addr', dst_ton = dst_ton', dst_npi = dst_npi', dst_addr = dst_addr',
          esm_class = esm_class', protocol_id = protocol_id', priority_flag = priority_flag',
          schedule_delivery_time = schedule', validity_period = validity',
          registered_delivery = registered', replace_if_present = replace',
          data_coding = coding', sm_default_msg_id = default', short_message = short'\<rparr>)"

definition cstr_layout :: "string \<Rightarrow> byte list" where
  "cstr_layout s = bytes_of s @ [0]"

definition submit_sm_layout :: "submit_sm \<Rightarrow> byte list" where
  "submit_sm_layout sm =
     cstr_layout (service_type sm)
     @ [src_ton sm, src_npi sm] @ cstr_layout (src_addr sm)
     @ [dst_ton sm, dst_npi sm] @ cstr_layout (dst_addr sm)
     @ [esm_class sm, protocol_id sm, priority_flag sm]
     @ cstr_layout (schedule_delivery_time sm) @ cstr_layout (validity_period sm)
     @ [registered_delivery sm, replace_if_present sm, data_coding sm, sm_default_msg_id sm]
     @ [of_nat (length (short_message sm))] @ bytes_of (short_message sm)"

definition response_body :: "string \<Rightarrow> byte list" where
  "response_body system_id = (if system_id = [] then [] else cstr_layout system_id)"

definition wf_cstr :: "string \<Rightarrow> bool" where
  "wf_cstr s \<longleftrightarrow> no_nul s \<and> length s < 65"

definition wf_submit_sm :: "submit_sm \<Rightarrow> bool" where
  "wf_submit_sm sm \<longleftrightarrow>
     wf_cstr (service_type sm) \<and> wf_cstr (src_addr sm) \<and> wf_cstr (dst_addr sm)
     \<and> wf_cstr (schedule_delivery_time sm) \<and> wf_cstr (validity_period sm)
     \<and> length (short_message sm) < 256"

definition header_layout :: "header \<Rightarrow> byte list" where
  "header_layout h =
     be_split (command_length h) @ be_split (command_id h)
     @ be_split (command_status h) @ be_split (sequence_number h)"

section \<open>Lemmas\<close>

subsection \<open>Header\<close>

lemma length_header_layout [simp]: "length (header_layout h) = 16"
  by (simp add: header_layout_def)

lemma decode_header_layout [simp]: "decode_header (header_layout h @ rest) = h"
  by (simp add: decode_header_def header_layout_def be_split_simps read_u32_def
      be_join_be_split)

lemma decode_header_inverse: "length buf = 16 \<Longrightarrow> header_layout (decode_header buf) = buf"
proof -
  assume "length buf = 16"
  then obtain b0 b1 b2 b3 b4 b5 b6 b7 b8 b9 b10 b11 b12 b13 b14 b15 where
    "buf = [b0, b1, b2, b3, b4, b5, b6, b7, b8, b9, b10, b11, b12, b13, b14, b15]"
    by (auto simp: length_Suc_conv numeral_eq_Suc)
  then show ?thesis
    by (simp add: header_layout_def decode_header_def read_u32_def be_split_be_join)
qed

lemma write_u32_memcpy: "write_u32 p off v = memcpy p off (be_split v)"
  by (simp add: write_u32_def be_split_def numeral_eq_Suc)

lemma length_write_u32 [simp]: "length (write_u32 p off v) = length p"
  by (simp add: write_u32_memcpy)

lemma write_header:
  assumes "16 \<le> length p"
  shows "write_u32 (write_u32 (write_u32 (write_u32 p 0 a) 4 b) 8 c) 12 d =
    header_layout \<lparr>command_length = a, command_id = b, command_status = c, sequence_number = d\<rparr>
      @ drop 16 p"
  using assms by (simp add: write_u32_memcpy memcpy_eq header_layout_def)

subsection \<open>Builders in closed form\<close>

lemma unat_total:
  "16 + n < 2 ^ 32 \<Longrightarrow> unat (16 + of_nat n :: u32) = 16 + n"
  by (simp add: unat_word_ariths unsigned_of_nat take_bit_eq_mod)

lemma make_response_eq:
  assumes "length system_id + 17 < 2 ^ 32"
  shows "make_response cmd status seq system_id =
    header_layout \<lparr>command_length = of_nat (16 + length (response_body system_id)),
      command_id = cmd, command_status = status, sequence_number = seq\<rparr>
    @ response_body system_id"
proof (cases "system_id = []")
  case True
  then show ?thesis
    by (simp add: make_response_def response_body_def write_header)
next
  case False
  have "unat (17 + of_nat (length system_id) :: u32) = 17 + length system_id"
    using unat_total [of "length system_id + 1"] assms by (simp add: add.commute)
  with False show ?thesis
    by (simp add: make_response_def Let_def write_header memcpy_eq response_body_def
        cstr_layout_def)
qed

lemma make_deliver_sm_eq:
  fixes src dst msg :: string and a b c d :: byte
  defines "body \<equiv> make_deliver_sm_body src dst msg a b c d"
  assumes "16 + length body < 2 ^ 32"
  shows "make_deliver_sm seq src dst msg a b c d =
    header_layout \<lparr>command_length = of_nat (16 + length body), command_id = DELIVER_SM,
      command_status = ESME_ROK, sequence_number = seq\<rparr> @ body"
  using assms by (simp add: make_deliver_sm_def Let_def write_header unat_total memcpy_eq)

subsection \<open>The offset parser reads the stream\<close>

text \<open>
  An offset that stands for the unread suffix \<open>bs\<close> of \<open>body\<close> is
  \<open>length body - length bs\<close>. Each reader maps such an offset to the next one.
\<close>

lemma suffix_cstr_stream: "suffix (snd (cstr_stream n bs)) bs"
  by (induction n bs rule: cstr_stream.induct)
    (auto simp: split_beta suffix_Cons)

lemma suffix_octet_stream: "suffix (snd (octet_stream bs)) bs"
  by (cases bs) (auto simp: suffix_Cons)

lemma suffix_streams [wire_simps]:
  "suffix bs body \<Longrightarrow> suffix (snd (cstr_stream n bs)) body"
  "suffix bs body \<Longrightarrow> suffix (snd (octet_stream bs)) body"
  using suffix_cstr_stream suffix_octet_stream suffix_order.trans by blast+

lemma read_cstr_loop_stream:
  assumes "suffix bs buf" and "length s \<le> m"
  shows "read_cstr_loop m buf (length buf - length bs) s =
    (s @ fst (cstr_stream (m - length s) bs),
     length buf - length (snd (cstr_stream (m - length s) bs)))"
  using assms
proof (induction bs arbitrary: s)
  case Nil
  then show ?case
    by (cases "m - length s") (auto simp: read_cstr_loop.simps)
next
  case (Cons b bs)
  from Cons.prems(1) obtain pre where buf: "buf = pre @ b # bs"
    by (auto simp: suffix_def)
  then have off: "length buf - length (b # bs) = length pre" "length buf - length bs = Suc (length pre)"
    by auto
  have "suffix bs buf" by (simp add: buf suffix_def)
  show ?case
  proof (cases "length s < m")
    case False
    with Cons.prems(2) show ?thesis by (simp add: read_cstr_loop.simps)
  next
    case True
    then obtain k where k: "m - length s = Suc k" by (metis Suc_diff_Suc)
    then have k': "m - length (s @ [char_of_byte b]) = k" by simp
    have "read_cstr_loop m buf (length pre) s =
        (if b = 0 then (s, Suc (length pre))
         else read_cstr_loop m buf (Suc (length pre)) (s @ [char_of_byte b]))"
      using True by (subst read_cstr_loop.simps) (simp add: buf)
    with True \<open>suffix bs buf\<close> Cons.IH [of "s @ [char_of_byte b]"] show ?thesis
      unfolding off k k' by (auto simp: split_beta off)
  qed
qed

lemma read_cstr_stream [wire_simps]:
  "suffix bs body \<Longrightarrow> read_cstr body (length body - length bs) =
    (fst (cstr_stream 65 bs), length body - length (snd (cstr_stream 65 bs)))"
  using read_cstr_loop_stream [of bs body "[]" 65] by (simp add: read_cstr_def)

lemma suffix_nth:
  assumes "suffix (b # bs) body"
  shows "body ! (length body - Suc (length bs)) = b"
    and "drop (length body - length bs) body = bs"
    and "length body - Suc (length bs) < length body"
    and "Suc (length body - Suc (length bs)) = length body - length bs"
  using assms by (auto simp: suffix_def)

lemma read_octet_stream [wire_simps]:
  "suffix bs body \<Longrightarrow> read_octet body (length body - length bs) =
    (fst (octet_stream bs), length body - length (snd (octet_stream bs)))"
  by (cases bs) (auto simp: read_octet_def suffix_nth)

lemma read_short_message_stream [wire_simps]:
  "suffix bs body \<Longrightarrow> fst (read_short_message body (length body - length bs)) =
    fst (short_message_stream bs)"
proof (cases bs)
  case (Cons b cs)
  assume "suffix bs body"
  with Cons have "length body - (length body - length cs) = length cs"
    by (auto simp: suffix_def)
  moreover have "take (min (unat b) (length cs)) cs = take (unat b) cs"
    by (simp add: min_def)
  ultimately show ?thesis
    using \<open>suffix bs body\<close> Cons
    by (simp add: read_short_message_def Let_def suffix_nth)
qed (simp add: read_short_message_def)

lemma parse_is_stream: "parse_submit_sm body = submit_sm_stream body"
proof (cases "body = []")
  case True
  then show ?thesis
    by (simp add: parse_submit_sm_def submit_sm_stream_def empty_submit_sm_def numeral_eq_Suc)
next
  case False
  have start: "read_cstr body 0 =
      (fst (cstr_stream 65 body), length body - length (snd (cstr_stream 65 body)))"
    using read_cstr_stream [of body body] by simp
  show ?thesis
    using False
    by (simp add: parse_submit_sm_def submit_sm_stream_def Let_def split_beta start wire_simps
        suffix_cstr_stream)
qed

subsection \<open>Round trips\<close>

lemma cstr_stream_layout:
  "no_nul s \<Longrightarrow> length s < n \<Longrightarrow> cstr_stream n (cstr_layout s @ rest) = (s, rest)"
proof (induction s arbitrary: n)
  case Nil
  then show ?case by (cases n) (auto simp: cstr_layout_def)
next
  case (Cons c s)
  then show ?case by (cases n) (auto simp: cstr_layout_def)
qed

text \<open>A string of \<open>n\<close> or more characters is cut, and its tail is left in the stream.\<close>

lemma cstr_stream_cut:
  "no_nul s \<Longrightarrow> n \<le> length s \<Longrightarrow>
    cstr_stream n (cstr_layout s @ rest) = (take n s, cstr_layout (drop n s) @ rest)"
proof (induction s arbitrary: n)
  case (Cons c s)
  then show ?case by (cases n) (auto simp: cstr_layout_def)
qed simp

lemma length_cstr_stream: "length (fst (cstr_stream n bs)) \<le> n"
  by (induction n bs rule: cstr_stream.induct) (auto simp: split_beta)

lemma no_nul_cstr_stream: "no_nul (fst (cstr_stream n bs))"
  by (induction n bs rule: cstr_stream.induct) (auto simp: split_beta)

lemma unat_length_octet: "unat (of_nat n :: byte) = n mod 256"
  by (simp add: unsigned_of_nat take_bit_eq_mod)

lemma submit_sm_stream_layout:
  assumes "wf_submit_sm sm"
  shows "submit_sm_stream (submit_sm_layout sm @ rest) = sm"
  using assms
  by (simp add: wf_submit_sm_def wf_cstr_def submit_sm_stream_def submit_sm_layout_def
      cstr_stream_layout unat_length_octet)

lemma deliver_sm_body_layout:
  "make_deliver_sm_body src dst msg a b c d =
    submit_sm_layout (empty_submit_sm\<lparr>src_ton := a, src_npi := b, src_addr := src,
      dst_ton := c, dst_npi := d, dst_addr := dst, short_message := msg\<rparr>)"
  by (simp add: make_deliver_sm_body_def submit_sm_layout_def empty_submit_sm_def cstr_layout_def)

lemma length_deliver_sm_body [simp]:
  "length (make_deliver_sm_body src dst msg a b c d) = length src + length dst + length msg + 17"
  by (simp add: make_deliver_sm_body_def)

lemma deliver_sm_stream_cut:
  assumes "wf_cstr src" and "wf_cstr dst"
  shows "submit_sm_stream (make_deliver_sm_body src dst msg a b c d) =
    empty_submit_sm\<lparr>src_ton := a, src_npi := b, src_addr := src, dst_ton := c, dst_npi := d,
      dst_addr := dst, short_message := take (length msg mod 256) msg\<rparr>"
proof -
  have *: "cstr_stream 65 (0 # bs) = ([], bs)"
      "cstr_stream 65 (bytes_of src @ 0 # bs) = (src, bs)"
      "cstr_stream 65 (bytes_of dst @ 0 # bs) = (dst, bs)" for bs
    using assms cstr_stream_layout [of "[]" 65 bs] cstr_stream_layout [of src 65 bs]
      cstr_stream_layout [of dst 65 bs]
    by (simp_all add: wf_cstr_def cstr_layout_def)
  have "string_of (take n (bytes_of msg)) = take n msg" for n
    by (simp add: string_of_def bytes_of_def take_map comp_def)
  then show ?thesis
    by (simp add: make_deliver_sm_body_def submit_sm_stream_def empty_submit_sm_def *
        unat_length_octet)
qed

section \<open>Properties\<close>

text \<open>
  C28: a response PDU is well formed: its length field is the number of bytes that are sent,
  a receiver decodes the command, status and sequence number that the handler chose, and
  the body is the NUL-terminated system or message id (nothing when the id is empty).
\<close>

theorem make_response_roundtrip:
  assumes "length system_id + 17 < 2 ^ 32"
  shows "decode_header (make_response cmd status seq system_id) =
      \<lparr>command_length = of_nat (length (make_response cmd status seq system_id)),
       command_id = cmd, command_status = status, sequence_number = seq\<rparr>
    \<and> length (make_response cmd status seq system_id) =
      16 + (if system_id = [] then 0 else length system_id + 1)
    \<and> drop 16 (make_response cmd status seq system_id) =
      (if system_id = [] then [] else bytes_of system_id @ [0])"
  using assms by (simp add: make_response_eq response_body_def cstr_layout_def)

theorem make_response_roundtrip_witness:
  "decode_header (make_response BIND_TRANSMITTER_RESP ESME_ROK 7 ''smsc'') =
      \<lparr>command_length = 21, command_id = 0x80000002, command_status = 0, sequence_number = 7\<rparr>
    \<and> length (make_response BIND_TRANSMITTER_RESP ESME_ROK 7 ''smsc'') = 21"
  using make_response_roundtrip [of "''smsc''" BIND_TRANSMITTER_RESP ESME_ROK 7] by simp

text \<open>
  C12: the offset-based submit_sm parser, with its fifteen guarded reads, computes exactly
  the stream reading of the layout on every body, truncated and empty ones included.
\<close>

theorem parse_submit_sm_equivalence: "parse_submit_sm body = submit_sm_stream body"
  by (rule parse_is_stream)

text \<open>
  C26: every submit_sm whose strings are NUL-free, of at most 64 characters, and whose
  message has at most 255 octets is recovered from its wire layout, whatever optional
  parameters follow it.
\<close>

theorem submit_sm_roundtrip:
  assumes "wf_submit_sm sm"
  shows "parse_submit_sm (submit_sm_layout sm @ tlvs) = sm"
  using assms by (simp add: parse_is_stream submit_sm_stream_layout)

theorem submit_sm_roundtrip_witness:
  "parse_submit_sm (submit_sm_layout (empty_submit_sm\<lparr>src_ton := 1, src_addr := ''441234'',
      dst_addr := ''esme1'', short_message := ''Hello''\<rparr>) @ [2, 4, 0, 2, 1, 1]) =
    empty_submit_sm\<lparr>src_ton := 1, src_addr := ''441234'', dst_addr := ''esme1'',
      short_message := ''Hello''\<rparr>"
  by (rule submit_sm_roundtrip)
    (simp add: wf_submit_sm_def wf_cstr_def empty_submit_sm_def byte_of_char_def)

text \<open>
  C27: a deliver_sm PDU carries the message it was built from: the peer decodes the
  DELIVER_SM header with the given sequence number and the exact length, and reading the
  body returns both addresses and, for a message of any length, its first
  \<open>length msg mod 256\<close> octets: all of it up to 255 octets, because the length octet wraps.
\<close>

theorem make_deliver_sm_roundtrip:
  assumes "wf_cstr src" and "wf_cstr dst" and "length msg < 2 ^ 31"
  shows "decode_header (make_deliver_sm seq src dst msg a b c d) =
      \<lparr>command_length = of_nat (length (make_deliver_sm seq src dst msg a b c d)),
       command_id = DELIVER_SM, command_status = ESME_ROK, sequence_number = seq\<rparr>
    \<and> parse_submit_sm (drop 16 (make_deliver_sm seq src dst msg a b c d)) =
      empty_submit_sm\<lparr>src_ton := a, src_npi := b, src_addr := src, dst_ton := c, dst_npi := d,
        dst_addr := dst, short_message := take (length msg mod 256) msg\<rparr>"
proof -
  have "16 + length (make_deliver_sm_body src dst msg a b c d) < 2 ^ 32"
    using assms by (simp add: wf_cstr_def)
  from make_deliver_sm_eq [OF this] show ?thesis
    using assms by (simp add: parse_is_stream deliver_sm_stream_cut)
qed

theorem make_deliver_sm_roundtrip_witness:
  "parse_submit_sm (drop 16 (make_deliver_sm 0x20000000 ''441234'' ''esme1'' ''Hi'' 0 0 0 0)) =
    empty_submit_sm\<lparr>src_ton := 0, src_npi := 0, src_addr := ''441234'', dst_ton := 0,
      dst_npi := 0, dst_addr := ''esme1'', short_message := ''Hi''\<rparr>"
  using make_deliver_sm_roundtrip [of "''441234''" "''esme1''" "''Hi''" "0x20000000" 0 0 0 0]
  by (simp add: wf_cstr_def byte_of_char_def)

text \<open>
  Reading a C-octet string never leaves the buffer, moves the offset forward by at most
  65 octets, and returns a NUL-free string of at most 65 characters.
\<close>

theorem read_cstr_bounds:
  assumes "off \<le> length buf"
  shows "length (fst (read_cstr buf off)) \<le> 65 \<and> no_nul (fst (read_cstr buf off))
    \<and> off \<le> snd (read_cstr buf off) \<and> snd (read_cstr buf off) \<le> length buf"
proof -
  have "suffix (drop off buf) buf" by (rule suffix_drop)
  from read_cstr_stream [OF this] assms have
    "read_cstr buf off = (fst (cstr_stream 65 (drop off buf)),
      length buf - length (snd (cstr_stream 65 (drop off buf))))" by simp
  moreover have "length (snd (cstr_stream 65 (drop off buf))) \<le> length (drop off buf)"
    by (rule suffix_length_le) (rule suffix_cstr_stream)
  ultimately show ?thesis
    using assms by (auto simp: length_cstr_stream no_nul_cstr_stream)
qed

theorem read_cstr_bounds_witness:
  "read_cstr [101, 115, 0, 112] 0 = (''es'', 3) \<and> snd (read_cstr [101, 115, 0, 112] 0) \<le> 4"
  using read_cstr_bounds [of 0 "[101, 115, 0, 112]"]
  by (simp add: read_cstr_def read_cstr_loop.simps char_of_byte_def) code_simp

end
