(* ===== verification/Double_Rounding.thy ===== *)
theory Double_Rounding
  imports Smpp_Prelude Complex_Main
begin

text \<open>
  The \<open>double\<close> arithmetic of the rate limiter. A finite double is a rational number; each
  operation returns the exact result rounded to a 53-bit significand, ties to even. The
  limiter's values stay between \<open>10 ^ -9\<close> and \<open>2 ^ 96\<close> or are 0, so the model leaves the
  exponent range unbounded: neither subnormal numbers nor infinities can arise there.
\<close>

section \<open>Definitions\<close>

fun ilog2 :: "nat \<Rightarrow> nat" where
  "ilog2 n = (if n \<le> 1 then 0 else Suc (ilog2 (n div 2)))"

declare ilog2.simps [simp del]

text \<open>The binary exponent of a positive rational: \<open>2 ^ expo x \<le> x < 2 ^ (expo x + 1)\<close>.\<close>

definition expo :: "rat \<Rightarrow> int" where
  "expo x = (if 1 \<le> x then int (ilog2 (nat \<lfloor>x\<rfloor>))
             else - int (Suc (ilog2 (nat (\<lceil>1 / x\<rceil> - 1)))))"

definition round_even :: "rat \<Rightarrow> int" where
  "round_even y =
     (let f = \<lfloor>y\<rfloor>; d = y - of_int f in
      if d < 1 / 2 then f else if 1 / 2 < d then f + 1 else if even f then f else f + 1)"

definition round_double :: "rat \<Rightarrow> rat" where
  "round_double x =
     (if x = 0 then 0
      else let u = 2 powi (expo \<bar>x\<bar> - 52) in of_int (round_even (x / u)) * u)"

section \<open>The contract of rounding\<close>

text \<open>What the clients of floating point rely on, for non-negative values.\<close>

locale rounding =
  fixes rnd :: "rat \<Rightarrow> rat"
  assumes rnd_mono: "0 \<le> x \<Longrightarrow> x \<le> y \<Longrightarrow> rnd x \<le> rnd y"
    and rnd_nat: "n < 2 ^ 53 \<Longrightarrow> rnd (of_nat n) = of_nat n"
    and rnd_error: "0 \<le> x \<Longrightarrow> \<bar>rnd x - x\<bar> \<le> x / 2 ^ 53"
begin

lemma rnd_0: "rnd 0 = 0"
  using rnd_nat [of 0] by simp

lemma rnd_nonneg: "0 \<le> x \<Longrightarrow> 0 \<le> rnd x"
  using rnd_mono [of 0 x] by (simp add: rnd_0)

lemma rnd_ge_nat: "n < 2 ^ 53 \<Longrightarrow> of_nat n \<le> x \<Longrightarrow> of_nat n \<le> rnd x"
  using rnd_mono [of "of_nat n" x] by (simp add: rnd_nat)

lemma rnd_le_nat: "n < 2 ^ 53 \<Longrightarrow> 0 \<le> x \<Longrightarrow> x \<le> of_nat n \<Longrightarrow> rnd x \<le> of_nat n"
  using rnd_mono [of x "of_nat n"] by (simp add: rnd_nat)

lemma rnd_upper: "0 \<le> x \<Longrightarrow> rnd x \<le> x * (1 + 1 / 2 ^ 53)"
proof -
  assume "0 \<le> x"
  from rnd_error [OF this] have "rnd x - x \<le> x / 2 ^ 53" by linarith
  then show ?thesis by (simp add: distrib_left)
qed

end

section \<open>The rounding function meets it\<close>

lemma ilog2_bounds: "0 < n \<Longrightarrow> 2 ^ ilog2 n \<le> n \<and> n < 2 ^ Suc (ilog2 n)"
proof (induction n rule: ilog2.induct)
  case (1 n)
  show ?case
  proof (cases "n \<le> 1")
    case True
    with "1.prems" show ?thesis by (simp add: ilog2.simps)
  next
    case False
    with "1.IH" have "2 ^ ilog2 (n div 2) \<le> n div 2" "n div 2 < 2 ^ Suc (ilog2 (n div 2))"
      by auto
    with False show ?thesis by (subst (1 2) ilog2.simps) auto
  qed
qed

lemma expo_bounds:
  assumes "0 < x"
  shows "2 powi expo x \<le> x" and "x < 2 powi (expo x + 1)"
proof -
  have "2 powi expo x \<le> x \<and> x < 2 powi (expo x + 1)"
  proof (cases "1 \<le> x")
    case True
    define n where "n = nat \<lfloor>x\<rfloor>"
    with True have n: "0 < n" "of_nat n \<le> x" "x < of_nat n + 1"
      by (auto simp: le_floor_iff) linarith+
    have "(2 :: rat) ^ ilog2 n \<le> of_nat n" "of_nat (n + 1) \<le> (2 :: rat) ^ Suc (ilog2 n)"
      using ilog2_bounds [OF n(1)] by (auto simp del: power_Suc of_nat_Suc)
    with n have "2 ^ ilog2 n \<le> x" "x < 2 ^ Suc (ilog2 n)" by linarith+
    with True show ?thesis
      by (simp add: expo_def n_def [symmetric] power_int_def nat_add_distrib)
  next
    case False
    define m where "m = nat (\<lceil>1 / x\<rceil> - 1)"
    from False assms have "1 < 1 / x" by simp
    then have "2 \<le> \<lceil>1 / x\<rceil>" by linarith
    then have m: "0 < m" "of_nat m < 1 / x" "1 / x \<le> of_nat m + 1"
      unfolding m_def by (auto, linarith+)
    have "(2 :: rat) ^ ilog2 m \<le> of_nat m" "of_nat (m + 1) \<le> (2 :: rat) ^ Suc (ilog2 m)"
      using ilog2_bounds [OF m(1)] by (auto simp del: power_Suc of_nat_Suc)
    with m have "2 ^ ilog2 m < 1 / x" "1 / x \<le> 2 ^ Suc (ilog2 m)" by linarith+
    then have "x < 1 / 2 ^ ilog2 m" "1 / 2 ^ Suc (ilog2 m) \<le> x"
      using assms by (simp_all add: field_simps)
    moreover have e: "expo x = - int (Suc (ilog2 m))" "expo x + 1 = - int (ilog2 m)"
      using False by (simp_all add: expo_def m_def)
    have "2 powi expo x = 1 / (2 :: rat) ^ Suc (ilog2 m)"
      unfolding e(1) power_int_minus power_int_of_nat by (simp add: field_simps)
    moreover have "2 powi (expo x + 1) = 1 / (2 :: rat) ^ ilog2 m"
      unfolding e(2) power_int_minus power_int_of_nat by (simp add: field_simps)
    ultimately show ?thesis by simp
  qed
  then show "2 powi expo x \<le> x" and "x < 2 powi (expo x + 1)" by auto
qed

lemma expo_mono:
  assumes "0 < x" and "x \<le> y"
  shows "expo x \<le> expo y"
proof (rule ccontr)
  assume "\<not> expo x \<le> expo y"
  then have "(2 :: rat) powi (expo y + 1) \<le> 2 powi expo x"
    by (intro power_int_increasing) auto
  with expo_bounds [of x] expo_bounds [of y] assms show False by linarith
qed

lemma round_even_mono: "x \<le> y \<Longrightarrow> round_even x \<le> round_even y"
proof -
  assume xy: "x \<le> y"
  then have "\<lfloor>x\<rfloor> \<le> \<lfloor>y\<rfloor>" by (rule floor_mono)
  have "round_even x \<le> \<lfloor>x\<rfloor> + 1" "\<lfloor>y\<rfloor> \<le> round_even y"
    by (auto simp: round_even_def Let_def)
  with xy \<open>\<lfloor>x\<rfloor> \<le> \<lfloor>y\<rfloor>\<close> show ?thesis
    by (cases "\<lfloor>x\<rfloor> = \<lfloor>y\<rfloor>") (auto simp: round_even_def Let_def)
qed

lemma round_even_of_int [simp]: "round_even (of_int k) = k"
  by (simp add: round_even_def)

lemma round_even_error: "\<bar>of_int (round_even y) - y\<bar> \<le> 1 / 2"
proof -
  have "of_int \<lfloor>y\<rfloor> \<le> y" "y < of_int \<lfloor>y\<rfloor> + 1" by linarith+
  then show ?thesis by (auto simp: round_even_def Let_def)
qed

text \<open>Rounding in units of the last place: the significand lies between \<open>2 ^ 52\<close> and \<open>2 ^ 53\<close>.\<close>

lemma powi_split: "(2 :: rat) powi (a + b) = 2 powi a * 2 powi b"
  by (simp add: power_int_add)

lemma powi_nat: "(2 :: rat) powi (of_nat n) = 2 ^ n"
  by simp

lemma round_double_pos:
  "0 < x \<Longrightarrow> round_double x = of_int (round_even (x / 2 powi (expo x - 52))) * 2 powi (expo x - 52)"
  by (simp add: round_double_def Let_def)

lemma significand_bounds:
  assumes "0 < x"
  shows "2 ^ 52 \<le> x / 2 powi (expo x - 52)" and "x / 2 powi (expo x - 52) < 2 ^ 53"
proof -
  have "(2 :: rat) powi expo x = 2 powi (expo x - 52) * 2 ^ 52"
    "(2 :: rat) powi (expo x + 1) = 2 powi (expo x - 52) * 2 ^ 53"
    using powi_split [of "expo x - 52" 52] powi_split [of "expo x - 52" 53]
    by (simp_all add: add.commute)
  with expo_bounds [OF assms]
  show "2 ^ 52 \<le> x / 2 powi (expo x - 52)" and "x / 2 powi (expo x - 52) < 2 ^ 53"
    by (simp_all add: field_simps)
qed

lemma round_double_bounds:
  assumes "0 < x"
  shows "2 powi expo x \<le> round_double x" and "round_double x \<le> 2 powi (expo x + 1)"
proof -
  let ?u = "2 powi (expo x - 52) :: rat"
  have "round_even (of_int (2 ^ 52)) \<le> round_even (x / ?u)" "round_even (x / ?u) \<le> round_even (of_int (2 ^ 53))"
    using significand_bounds [OF assms] by (auto intro!: round_even_mono)
  then have "of_int (2 ^ 52) \<le> (of_int (round_even (x / ?u)) :: rat)"
    "of_int (round_even (x / ?u)) \<le> (of_int (2 ^ 53) :: rat)"
    unfolding round_even_of_int of_int_le_iff by auto
  then have "2 ^ 52 * ?u \<le> round_double x" "round_double x \<le> 2 ^ 53 * ?u"
    by (auto simp: round_double_pos [OF assms] intro!: mult_right_mono)
  moreover have "2 ^ 52 * ?u = 2 powi expo x" "2 ^ 53 * ?u = 2 powi (expo x + 1)"
    using powi_split [of "expo x - 52" 52] powi_split [of "expo x - 52" 53]
    by (simp_all add: mult.commute add.commute)
  ultimately show "2 powi expo x \<le> round_double x" and "round_double x \<le> 2 powi (expo x + 1)"
    by simp_all
qed

lemma round_double_mono_pos:
  assumes "0 < x" and "x \<le> y"
  shows "round_double x \<le> round_double y"
proof (cases "expo x = expo y")
  case True
  from assms have "x / 2 powi (expo x - 52) \<le> y / 2 powi (expo x - 52)"
    by (simp add: divide_right_mono)
  then have "round_even (x / 2 powi (expo x - 52)) \<le> round_even (y / 2 powi (expo x - 52))"
    by (rule round_even_mono)
  with True assms show ?thesis
    by (simp add: round_double_pos mult_right_mono)
next
  case False
  with expo_mono [OF assms] have "(2 :: rat) powi (expo x + 1) \<le> 2 powi expo y"
    by (intro power_int_increasing) auto
  with round_double_bounds [of x] round_double_bounds [of y] assms show ?thesis by linarith
qed

lemma round_double_mono:
  assumes "0 \<le> x" and "x \<le> y"
  shows "round_double x \<le> round_double y"
proof (cases "x = 0")
  case True
  have "0 \<le> round_double y"
  proof (cases "y = 0")
    case False
    with assms have "0 < y" by simp
    then have "0 \<le> (2 :: rat) powi expo y" "2 powi expo y \<le> round_double y"
      by (auto intro: round_double_bounds)
    then show ?thesis by linarith
  qed (simp add: round_double_def)
  with True show ?thesis by (simp add: round_double_def)
qed (use assms round_double_mono_pos in auto)

lemma round_double_nat:
  assumes "n < 2 ^ 53"
  shows "round_double (of_nat n) = of_nat n"
proof (cases "n = 0")
  case False
  define x where "x = (of_nat n :: rat)"
  have x: "0 < x" "1 \<le> x" using False by (auto simp: x_def)
  have "expo x = int (ilog2 n)" using x by (simp add: expo_def x_def)
  moreover have "ilog2 n \<le> 52"
  proof (rule ccontr)
    assume "\<not> ilog2 n \<le> 52"
    then have "(2 :: nat) ^ 53 \<le> 2 ^ ilog2 n" by (intro power_increasing) auto
    with ilog2_bounds [of n] False assms show False by simp
  qed
  ultimately have "(2 :: rat) powi (expo x - 52) = 1 / 2 ^ (52 - ilog2 n)"
    by (simp add: power_int_def nat_diff_distrib' field_simps)
  moreover have "x * 2 ^ (52 - ilog2 n) = of_int (int n * 2 ^ (52 - ilog2 n))"
    by (simp add: x_def)
  ultimately have "round_double x =
      of_int (round_even (of_int (int n * 2 ^ (52 - ilog2 n)))) / 2 ^ (52 - ilog2 n)"
    by (simp add: round_double_pos [OF x(1)] del: of_int_mult of_int_power)
  also have "\<dots> = x" unfolding round_even_of_int by (simp add: x_def)
  finally show ?thesis by (simp add: x_def)
qed (simp add: round_double_def)

lemma round_double_error:
  assumes "0 \<le> x"
  shows "\<bar>round_double x - x\<bar> \<le> x / 2 ^ 53"
proof (cases "x = 0")
  case False
  with assms have x: "0 < x" by simp
  let ?u = "2 powi (expo x - 52) :: rat"
  have "round_double x - x = (of_int (round_even (x / ?u)) - x / ?u) * ?u"
    by (simp add: round_double_pos [OF x] algebra_simps)
  then have "\<bar>round_double x - x\<bar> = \<bar>of_int (round_even (x / ?u)) - x / ?u\<bar> * ?u"
    by (simp add: abs_mult)
  also have "\<dots> \<le> 1 / 2 * ?u"
    by (intro mult_right_mono round_even_error) simp
  also have "\<dots> \<le> x / 2 ^ 53"
    using significand_bounds(1) [OF x] by (simp add: field_simps)
  finally show ?thesis .
qed (simp add: round_double_def)

interpretation double: rounding round_double
  by unfold_locales (fact round_double_mono round_double_nat round_double_error)+

end
