(* ===== verification/Token_Bucket.thy ===== *)
theory Token_Bucket
  imports Double_Rounding
begin

text \<open>
  The submit_sm rate limiter of SmppSession (SmppClientHandler/src/smpp_session.cpp,
  throttle_check): a token bucket in double arithmetic over the steady clock. Its three
  fields are the base of the session record. Clock readings are nanosecond counts; the
  steady clock never goes back, which the lemmas take as the order of successive readings.
\<close>

section \<open>Definitions\<close>

record token_bucket =
  max_submit_per_sec :: u32
  tb_tokens :: rat
  tb_last_refill :: int

text \<open>\<open>static_cast<double>(max_submit_per_sec)\<close>.\<close>

definition bucket_rate :: "('a) token_bucket_scheme \<Rightarrow> rat" where
  "bucket_rate b = round_double (of_nat (unat (max_submit_per_sec b)))"

text \<open>\<open>std::chrono::duration<double>(d).count()\<close> of a nanosecond difference.\<close>

definition duration_seconds :: "int \<Rightarrow> rat" where
  "duration_seconds d = round_double (round_double (of_int d) / 10 ^ 9)"

definition throttle_check :: "int \<Rightarrow> ('a) token_bucket_scheme \<Rightarrow> bool \<times> ('a) token_bucket_scheme" where
  "throttle_check now b =
     (if max_submit_per_sec b = 0 then (True, b)
      else
        let elapsed = duration_seconds (now - tb_last_refill b);
            b = b\<lparr>tb_last_refill := now\<rparr>;
            b = b\<lparr>tb_tokens := round_double (tb_tokens b + round_double (elapsed * bucket_rate b))\<rparr>;
            b = (if bucket_rate b < tb_tokens b then b\<lparr>tb_tokens := bucket_rate b\<rparr> else b)
        in if 1 \<le> tb_tokens b then (True, b\<lparr>tb_tokens := round_double (tb_tokens b - 1)\<rparr>)
           else (False, b))"

text \<open>A sequence of checks at the given clock readings, with their verdicts.\<close>

fun throttle_run :: "int list \<Rightarrow> ('a) token_bucket_scheme \<Rightarrow> bool list \<times> ('a) token_bucket_scheme" where
  "throttle_run [] b = ([], b)"
| "throttle_run (now # ts) b =
     (let (ok, b) = throttle_check now b; (oks, b) = throttle_run ts b in (ok # oks, b))"

text \<open>The bucket of a new session: full, refilled at its creation.\<close>

definition fresh_bucket :: "u32 \<Rightarrow> int \<Rightarrow> token_bucket" where
  "fresh_bucket max_rate now =
     \<lparr>max_submit_per_sec = max_rate, tb_tokens = round_double (of_nat (unat max_rate)),
      tb_last_refill = now\<rparr>"

definition bucket_ok :: "('a) token_bucket_scheme \<Rightarrow> bool" where
  "bucket_ok b \<longleftrightarrow> 0 \<le> tb_tokens b \<and> tb_tokens b \<le> of_nat (unat (max_submit_per_sec b))"

text \<open>The tokens after the refill and the cap, before one is taken.\<close>

definition refilled :: "int \<Rightarrow> ('a) token_bucket_scheme \<Rightarrow> rat" where
  "refilled now b =
     min (of_nat (unat (max_submit_per_sec b)))
       (round_double (tb_tokens b + round_double
         (duration_seconds (now - tb_last_refill b) * of_nat (unat (max_submit_per_sec b)))))"

section \<open>Lemmas\<close>

declare of_nat_unat [simp del]

subsection \<open>One refill, for any rounding\<close>

context rounding
begin

lemma refill_nonneg: "0 \<le> t \<Longrightarrow> 0 \<le> e \<Longrightarrow> 0 \<le> r \<Longrightarrow> 0 \<le> rnd (t + rnd (e * r))"
  by (intro rnd_nonneg add_nonneg_nonneg) simp_all

lemma seconds_nonneg: "0 \<le> d \<Longrightarrow> 0 \<le> rnd (rnd (of_int d) / 10 ^ 9)"
  by (intro rnd_nonneg divide_nonneg_nonneg) simp_all

lemma seconds_ge_1:
  assumes "10 ^ 9 \<le> d"
  shows "1 \<le> rnd (rnd (of_int d) / 10 ^ 9)"
proof -
  have "(of_int (10 ^ 9) :: rat) \<le> of_int d" using assms by (simp only: of_int_le_iff)
  then have "of_nat (10 ^ 9) \<le> rnd (of_int d)" by (intro rnd_ge_nat) simp_all
  then have "of_nat 1 \<le> rnd (of_int d) / 10 ^ 9" by simp
  then have "of_nat 1 \<le> rnd (rnd (of_int d) / 10 ^ 9)" by (intro rnd_ge_nat) auto
  then show ?thesis by simp
qed

lemma seconds_upper:
  assumes "0 \<le> d"
  shows "rnd (rnd (of_int d) / 10 ^ 9) \<le> of_int d / 10 ^ 9 * (1 + 1 / 2 ^ 53) ^ 2"
proof -
  let ?k = "1 + 1 / 2 ^ 53 :: rat"
  have "rnd (rnd (of_int d) / 10 ^ 9) \<le> rnd (of_int d) / 10 ^ 9 * ?k"
    using assms by (intro rnd_upper divide_nonneg_nonneg rnd_nonneg) simp_all
  also have "\<dots> \<le> (of_int d * ?k) / 10 ^ 9 * ?k"
    using assms by (intro mult_right_mono divide_right_mono rnd_upper) simp_all
  finally show ?thesis by (simp add: power2_eq_square)
qed

lemma refill_full:
  assumes "r < 2 ^ 53" and "0 \<le> t" and "1 \<le> e"
  shows "of_nat r \<le> rnd (t + rnd (e * of_nat r))"
proof -
  have "1 * of_nat r \<le> e * of_nat r" using assms by (intro mult_right_mono) simp_all
  then have "of_nat r \<le> rnd (e * of_nat r)" using assms by (intro rnd_ge_nat) simp_all
  with assms show ?thesis by (intro rnd_ge_nat) simp_all
qed

text \<open>A capped refill adds at most what it was given plus one rounding error of the cap.\<close>

lemma refill_upper:
  assumes "0 \<le> t" and "0 \<le> p" and "0 \<le> r"
  shows "min r (rnd (t + p)) \<le> t + p + r / 2 ^ 53"
proof (cases "t + p \<le> r")
  case True
  have "rnd (t + p) \<le> (t + p) * (1 + 1 / 2 ^ 53)" using assms by (intro rnd_upper) simp
  also have "\<dots> = t + p + (t + p) / 2 ^ 53" by (simp add: distrib_left add_divide_distrib)
  also have "\<dots> \<le> t + p + r / 2 ^ 53" using True by simp
  finally show ?thesis by (auto simp: min_def)
next
  case False
  have "0 \<le> r / 2 ^ 53" using assms by simp
  with False show ?thesis by (auto simp: min_def)
qed

end

subsection \<open>One check\<close>

lemma unat_rate: "unat (max_submit_per_sec b) < 2 ^ 53"
  using unsigned_less [of "max_submit_per_sec b", where ?'a = nat] by simp

lemma bucket_rate_eq [simp]: "bucket_rate b = of_nat (unat (max_submit_per_sec b))"
  unfolding bucket_rate_def by (rule double.rnd_nat [OF unat_rate])

lemma throttle_check_eq:
  assumes "max_submit_per_sec b \<noteq> 0"
  shows "throttle_check now b =
    (1 \<le> refilled now b,
     b\<lparr>tb_last_refill := now,
       tb_tokens := (if 1 \<le> refilled now b then round_double (refilled now b - 1) else refilled now b)\<rparr>)"
proof -
  define x where "x = round_double (tb_tokens b +
    round_double (duration_seconds (now - tb_last_refill b) * of_nat (unat (max_submit_per_sec b))))"
  have "refilled now b = (if of_nat (unat (max_submit_per_sec b)) < x
      then of_nat (unat (max_submit_per_sec b)) else x)"
    by (simp add: refilled_def x_def min_def)
  then show ?thesis
    using assms unfolding throttle_check_def Let_def by (simp add: x_def [symmetric])
qed

lemma throttle_check_unlimited: "max_submit_per_sec b = 0 \<Longrightarrow> throttle_check now b = (True, b)"
  by (simp only: throttle_check_def if_True simp_thms)

lemma throttle_check_frame [frame_simps]:
  "max_submit_per_sec (snd (throttle_check now b)) = max_submit_per_sec b"
  "token_bucket.more (snd (throttle_check now b)) = token_bucket.more b"
  by (cases "max_submit_per_sec b = 0"; simp add: throttle_check_eq throttle_check_unlimited)+

lemma throttle_check_time:
  "max_submit_per_sec b \<noteq> 0 \<Longrightarrow> tb_last_refill (snd (throttle_check now b)) = now"
  by (simp add: throttle_check_eq)

lemma refilled_bounds:
  assumes "bucket_ok b" and "tb_last_refill b \<le> now"
  shows "0 \<le> refilled now b" and "refilled now b \<le> of_nat (unat (max_submit_per_sec b))"
  using assms double.refill_nonneg double.seconds_nonneg [of "now - tb_last_refill b"]
  by (simp_all add: refilled_def bucket_ok_def duration_seconds_def)

lemma throttle_check_ok:
  assumes "bucket_ok b" and "tb_last_refill b \<le> now"
  shows "bucket_ok (snd (throttle_check now b))"
proof (cases "max_submit_per_sec b = 0")
  case True
  with assms show ?thesis by (simp add: throttle_check_unlimited)
next
  case False
  note r = refilled_bounds [OF assms]
  have "round_double (refilled now b - 1) \<le> of_nat (unat (max_submit_per_sec b))"
    if "1 \<le> refilled now b"
    using that r by (intro double.rnd_le_nat unat_rate) auto
  moreover have "0 \<le> round_double (refilled now b - 1)" if "1 \<le> refilled now b"
    using that by (intro double.rnd_nonneg) simp
  ultimately show ?thesis
    using r by (simp add: throttle_check_eq [OF False] bucket_ok_def)
qed

lemma refilled_after_second:
  assumes "bucket_ok b" and "tb_last_refill b + 10 ^ 9 \<le> now"
  shows "refilled now b = of_nat (unat (max_submit_per_sec b))"
proof -
  have "1 \<le> duration_seconds (now - tb_last_refill b)"
    unfolding duration_seconds_def using assms by (intro double.seconds_ge_1) simp
  then have "of_nat (unat (max_submit_per_sec b)) \<le>
      round_double (tb_tokens b + round_double
        (duration_seconds (now - tb_last_refill b) * of_nat (unat (max_submit_per_sec b))))"
    using assms by (intro double.refill_full unat_rate) (simp_all add: bucket_ok_def)
  then show ?thesis by (simp add: refilled_def)
qed

text \<open>With no time between two checks the bucket only loses the tokens it gives out.\<close>

lemma refilled_same_time:
  assumes "tb_tokens b = of_nat k" and "k \<le> unat (max_submit_per_sec b)"
  shows "refilled (tb_last_refill b) b = of_nat k"
proof -
  have "k < 2 ^ 53" using assms(2) unat_rate [of b] by simp
  then show ?thesis
    using assms by (simp add: refilled_def duration_seconds_def double.rnd_0 double.rnd_nat)
qed

lemma throttle_burst:
  assumes "max_submit_per_sec b \<noteq> 0" and "tb_tokens b = of_nat k"
    and "k \<le> unat (max_submit_per_sec b)"
  shows "fst (throttle_run (replicate n (tb_last_refill b)) b) =
    replicate (min n k) True @ replicate (n - k) False"
  using assms
proof (induction n arbitrary: b k)
  case (Suc n)
  define now where "now = tb_last_refill b"
  define b' where "b' = snd (throttle_check now b)"
  have r: "refilled now b = of_nat k"
    using refilled_same_time [of b k] Suc.prems by (simp add: now_def)
  have b': "max_submit_per_sec b' = max_submit_per_sec b" "tb_last_refill b' = now"
    using Suc.prems(1) by (simp_all add: b'_def frame_simps throttle_check_time)
  show ?case
  proof (cases k)
    case 0
    have "fst (throttle_check now b) = False" "tb_tokens b' = of_nat 0"
      using Suc.prems(1) by (simp_all add: throttle_check_eq r 0 b'_def)
    moreover from this have "fst (throttle_run (replicate n now) b') = replicate n False"
      using Suc.IH [of b' 0] Suc.prems b' by simp
    ultimately show ?thesis
      by (simp add: now_def [symmetric] split_beta b'_def [symmetric] 0)
  next
    case (Suc j)
    have "j < 2 ^ 53" using Suc Suc.prems(3) unat_rate [of b] by simp
    then have "round_double (of_nat (Suc j) - 1) = of_nat j" by (simp add: double.rnd_nat)
    then have "fst (throttle_check now b) = True" "tb_tokens b' = of_nat j"
      using Suc.prems(1) by (simp_all add: throttle_check_eq r Suc b'_def)
    moreover from this have "fst (throttle_run (replicate n now) b') =
        replicate (min n j) True @ replicate (n - j) False"
      using Suc.IH [of b' j] Suc.prems b' Suc by simp
    ultimately show ?thesis
      by (simp add: now_def [symmetric] split_beta b'_def [symmetric] Suc)
  qed
qed simp

subsection \<open>Sustained rate\<close>

abbreviation rate_of :: "('a) token_bucket_scheme \<Rightarrow> rat" where
  "rate_of b \<equiv> of_nat (unat (max_submit_per_sec b))"

lemma refill_amount:
  assumes "0 \<le> d"
  shows "round_double (duration_seconds d * rate_of b) \<le>
    rate_of b * (of_int d / 10 ^ 9) * (1 + 1 / 2 ^ 51)"
proof -
  let ?k = "1 + 1 / 2 ^ 53 :: rat"
  have "0 \<le> duration_seconds d"
    unfolding duration_seconds_def using assms by (rule double.seconds_nonneg)
  then have "round_double (duration_seconds d * rate_of b) \<le> duration_seconds d * rate_of b * ?k"
    by (intro double.rnd_upper) simp
  also have "\<dots> \<le> (of_int d / 10 ^ 9 * ?k ^ 2) * rate_of b * ?k"
    unfolding duration_seconds_def using double.seconds_upper [OF assms]
    by (intro mult_right_mono) simp_all
  also have "\<dots> = (rate_of b * (of_int d / 10 ^ 9)) * ?k ^ 3"
    by (simp only: power3_eq_cube power2_eq_square mult_ac)
  also have "\<dots> \<le> (rate_of b * (of_int d / 10 ^ 9)) * (1 + 1 / 2 ^ 51)"
    using assms by (intro mult_left_mono) (simp_all add: power3_eq_cube)
  finally show ?thesis by (simp only: mult_ac)
qed

lemma throttle_potential:
  assumes "bucket_ok b" and "tb_last_refill b \<le> now" and "max_submit_per_sec b \<noteq> 0"
  shows "tb_tokens (snd (throttle_check now b)) + of_bool (fst (throttle_check now b)) \<le>
    tb_tokens b + rate_of b * (of_int (now - tb_last_refill b) / 10 ^ 9) * (1 + 1 / 2 ^ 51)
      + rate_of b / 2 ^ 52"
proof -
  let ?p = "round_double (duration_seconds (now - tb_last_refill b) * rate_of b)"
  have "0 \<le> ?p"
    using assms(2) double.seconds_nonneg [of "now - tb_last_refill b"]
    by (intro double.rnd_nonneg) (simp add: duration_seconds_def)
  then have ref: "refilled now b \<le> tb_tokens b + ?p + rate_of b / 2 ^ 53"
    unfolding refilled_def using assms(1) by (intro double.refill_upper) (simp_all add: bucket_ok_def)
  have "round_double (refilled now b - 1) \<le> refilled now b - 1 + rate_of b / 2 ^ 53"
    if "1 \<le> refilled now b"
  proof -
    have "round_double (refilled now b - 1) \<le> (refilled now b - 1) * (1 + 1 / 2 ^ 53)"
      using that by (intro double.rnd_upper) simp
    moreover have "(refilled now b - 1) / 2 ^ 53 \<le> rate_of b / 2 ^ 53"
      using refilled_bounds(2) [OF assms(1,2)] by (intro divide_right_mono) simp_all
    ultimately show ?thesis by (simp only: distrib_left mult_1_right times_divide_eq_right)
  qed
  then have "tb_tokens (snd (throttle_check now b)) + of_bool (fst (throttle_check now b)) \<le>
      refilled now b + rate_of b / 2 ^ 53"
    using assms(3) by (auto simp: throttle_check_eq)
  also have "\<dots> \<le> tb_tokens b + ?p + rate_of b / 2 ^ 52" using ref by simp
  finally show ?thesis
    using refill_amount [of "now - tb_last_refill b" b] assms(2) by simp
qed

lemma potential_chain:
  fixes t :: rat
  assumes "n' \<le> t' + a + l" and "t' + k \<le> t + c + r" and "n = k + n'" and "a + c = d" and "m = r + l"
  shows "n \<le> t + d + m"
  using assms by linarith

lemma throttle_run_rate:
  assumes "bucket_ok b" and "max_submit_per_sec b \<noteq> 0" and "sorted (tb_last_refill b # ts)"
  shows "of_nat (count_list (fst (throttle_run ts b)) True) \<le>
    tb_tokens b
      + rate_of b * (of_int (last (tb_last_refill b # ts) - tb_last_refill b) / 10 ^ 9) * (1 + 1 / 2 ^ 51)
      + of_nat (length ts) * (rate_of b / 2 ^ 52)"
  using assms
proof (induction ts arbitrary: b)
  case Nil
  then show ?case by (simp add: bucket_ok_def)
next
  case (Cons now ts)
  define b' where "b' = snd (throttle_check now b)"
  have last': "tb_last_refill b' = now" and rate': "max_submit_per_sec b' = max_submit_per_sec b"
    using Cons.prems(2) by (simp_all add: b'_def throttle_check_time frame_simps)
  have "bucket_ok b'" using Cons.prems unfolding b'_def by (intro throttle_check_ok) simp_all
  with Cons.IH [of b'] Cons.prems last' rate' have
    "of_nat (count_list (fst (throttle_run ts b')) True) \<le> tb_tokens b'
      + rate_of b * (of_int (last (now # ts) - now) / 10 ^ 9) * (1 + 1 / 2 ^ 51)
      + of_nat (length ts) * (rate_of b / 2 ^ 52)"
    by simp
  moreover have "tb_tokens b' + of_bool (fst (throttle_check now b)) \<le> tb_tokens b
      + rate_of b * (of_int (now - tb_last_refill b) / 10 ^ 9) * (1 + 1 / 2 ^ 51)
      + rate_of b / 2 ^ 52"
    using throttle_potential [of b now] Cons.prems by (simp add: b'_def)
  moreover have "(of_nat (count_list (fst (throttle_run (now # ts) b)) True) :: rat) =
      of_bool (fst (throttle_check now b)) + of_nat (count_list (fst (throttle_run ts b')) True)"
    by (simp add: split_beta b'_def)
  moreover have "rate_of b * (of_int (last (now # ts) - now) / 10 ^ 9) * (1 + 1 / 2 ^ 51)
      + rate_of b * (of_int (now - tb_last_refill b) / 10 ^ 9) * (1 + 1 / 2 ^ 51)
      = rate_of b * (of_int (last (now # ts) - tb_last_refill b) / 10 ^ 9) * (1 + 1 / 2 ^ 51)"
    by (simp only: distrib_left [symmetric] distrib_right [symmetric] add_divide_distrib [symmetric]
        of_int_add [symmetric]) simp
  moreover have "(of_nat (length (now # ts)) :: rat) * (rate_of b / 2 ^ 52) =
      rate_of b / 2 ^ 52 + of_nat (length ts) * (rate_of b / 2 ^ 52)"
    by (simp only: length_Cons of_nat_Suc distrib_right mult_1_left)
  ultimately show ?case
    by (subst last_ConsR [OF list.distinct(2)]) (rule potential_chain)
qed

lemma throttle_run_ok:
  assumes "bucket_ok b" and "sorted (tb_last_refill b # ts)"
  shows "bucket_ok (snd (throttle_run ts b))"
  using assms
proof (induction ts arbitrary: b)
  case (Cons now ts)
  have "bucket_ok (snd (throttle_check now b))" using Cons.prems by (intro throttle_check_ok) simp_all
  moreover have "tb_last_refill (snd (throttle_check now b)) \<le> now"
    using Cons.prems
    by (cases "max_submit_per_sec b = 0") (simp_all add: throttle_check_unlimited throttle_check_time)
  then have "sorted (tb_last_refill (snd (throttle_check now b)) # ts)"
    using Cons.prems(2) by (auto intro: order_trans)
  ultimately have "bucket_ok (snd (throttle_run ts (snd (throttle_check now b))))"
    by (intro Cons.IH)
  then show ?case by (simp add: split_beta)
qed simp

lemma bucket_ok_fresh: "bucket_ok (fresh_bucket m now)"
  using double.rnd_nat [of "unat m"] unat_rate [of "fresh_bucket m now"]
  by (simp add: bucket_ok_def fresh_bucket_def)

section \<open>Properties\<close>



text \<open>
  The bucket never holds a negative number of tokens nor more than the configured rate,
  whatever the rounding of the refills, along every run of checks at non-decreasing readings.
\<close>

theorem throttle_run_invariant:
  assumes "sorted (now # ts)"
  shows "bucket_ok (snd (throttle_run ts (fresh_bucket m now)))"
  using assms by (intro throttle_run_ok bucket_ok_fresh) (simp add: fresh_bucket_def)

theorem throttle_run_invariant_witness:
  "sorted [0, 10, 2000000000 :: int] \<and>
   bucket_ok (snd (throttle_run [10, 2000000000] (fresh_bucket 5 0)))"
  using throttle_run_invariant [of 0 "[10, 2000000000]" 5] by simp

text \<open>
  C34: a burst at one instant on a new session is accepted exactly up to the configured rate;
  every further submit of that instant is refused.
\<close>

theorem throttle_burst_exact:
  assumes "m \<noteq> 0"
  shows "fst (throttle_run (replicate n now) (fresh_bucket m now)) =
    replicate (min n (unat m)) True @ replicate (n - unat m) False"
  using throttle_burst [of "fresh_bucket m now" "unat m" n] assms
    double.rnd_nat [of "unat m"] unat_rate [of "fresh_bucket m now"]
  by (simp add: fresh_bucket_def)

theorem throttle_burst_exact_witness:
  "(3 :: u32) \<noteq> 0 \<and>
   fst (throttle_run (replicate 5 7) (fresh_bucket 3 7)) =
     replicate 3 True @ replicate 2 False"
  using throttle_burst_exact [of 3 5 7] by simp

text \<open>
  After a second without a check the bucket is full again, so the check succeeds and leaves
  all but one of its tokens, despite the rounding of the elapsed time and of the refill.
\<close>

theorem throttle_idle_second:
  assumes "bucket_ok b" and "max_submit_per_sec b \<noteq> 0" and "tb_last_refill b + 10 ^ 9 \<le> now"
  shows "throttle_check now b =
    (True, b\<lparr>tb_tokens := of_nat (unat (max_submit_per_sec b) - 1), tb_last_refill := now\<rparr>)"
proof -
  define k where "k = unat (max_submit_per_sec b) - 1"
  have k: "unat (max_submit_per_sec b) = Suc k"
    using assms(2) by (simp add: k_def unat_gt_0)
  have "k < 2 ^ 53" using k unat_rate [of b] by simp
  then show ?thesis
    using refilled_after_second [OF assms(1,3)] double.rnd_nat [of k] assms(2)
    by (simp add: throttle_check_eq k)
qed

theorem throttle_idle_second_witness:
  "bucket_ok \<lparr>max_submit_per_sec = 4, tb_tokens = 0, tb_last_refill = 5\<rparr> \<and>
   throttle_check 1000000005 \<lparr>max_submit_per_sec = 4, tb_tokens = 0, tb_last_refill = 5\<rparr> =
     (True, \<lparr>max_submit_per_sec = 4, tb_tokens = 3, tb_last_refill = 1000000005\<rparr>)"
  using throttle_idle_second [of "\<lparr>max_submit_per_sec = 4, tb_tokens = 0, tb_last_refill = 5\<rparr>" 1000000005]
  by (simp add: bucket_ok_def)

end
