(* ===== verification/Client_Session.thy ===== *)
theory Client_Session
  imports Smpp_Pdu Token_Bucket
begin

text \<open>
  One bound or unbound SMPP client: SmppSession of SmppClientHandler/src/smpp_session.cpp and
  SmppClientHandler/include/smpp_session.hpp, with what its handlers use of asio. The object is
  the record \<open>session\<close>; each member function is a function on it. An asynchronous operation
  in progress is a field (\<open>pending_read\<close>, the two timer waits, the number of writes), a
  completion whose handler is queued on the io_context is an element of \<open>ready\<close>, and what the
  session does to the outside (writes, D-Bus calls and signals, the close) is appended to
  \<open>out\<close>. The authentication service, the clocks and the texts of error codes are the record
  \<open>env\<close>.
\<close>

section \<open>Definitions\<close>

subsection \<open>Data\<close>

datatype session_state = OPEN | BOUND_TX | BOUND_RX | BOUND_TRX | UNBOUND

fun state_name :: "session_state \<Rightarrow> string" where
  "state_name OPEN = ''OPEN''"
| "state_name BOUND_TX = ''BOUND_TX''"
| "state_name BOUND_RX = ''BOUND_RX''"
| "state_name BOUND_TRX = ''BOUND_TRX''"
| "state_name UNBOUND = ''UNBOUND''"

datatype error_code = Operation_aborted | Bad_descriptor | Io_error nat

datatype read_op = Read_header | Read_body header

datatype completion =
    On_header "error_code + byte list"
  | On_body header "error_code + byte list"
  | On_enquire_link_timer "error_code option"
  | On_enquire_link_timeout "error_code option"
  | On_disconnect string

datatype action =
    AsyncWrite "byte list"
  | WriteFailed "byte list"
  | CloseSocket
  | SessionExited string string
  | CallAuthenticate string string string string "(bool \<times> u32) option"
  | CallUpdateSessionDetails string string string
  | CallRouteMessage string string string string

text \<open>
  The services a handler calls: \<open>authenticate\<close> is the IAuth method, with None for a call that
  throws; the steady clock is in nanoseconds, the system clock in nanoseconds after the epoch.
\<close>

record env =
  authenticate :: "string \<Rightarrow> string \<Rightarrow> string \<Rightarrow> string \<Rightarrow> (bool \<times> u32) option"
  steady_now :: int
  system_now :: nat
  message :: "error_code \<Rightarrow> string"

record session = token_bucket +
  socket_open :: bool
  uuid :: string
  client_ip :: string
  system_id :: string
  state :: session_state
  bind_time :: u64
  el_interval_sec :: u32
  el_timeout_sec :: u32
  el_seq :: u32
  el_pending :: bool
  el_timer_wait :: bool
  el_timeout_wait :: bool
  msg_seq :: u32
  deliver_seq :: u32
  msg_id_prefix :: string
  pending_read :: "read_op option"
  writes :: nat
  delivering :: "(string \<times> string \<times> string) option"
  ready :: "completion list"
  out :: "action list"

definition new_session :: "string \<Rightarrow> string \<Rightarrow> u32 \<Rightarrow> u32 \<Rightarrow> u32 \<Rightarrow> int \<Rightarrow> session" where
  "new_session uid ip interval tmo max_rate now =
     \<lparr>max_submit_per_sec = max_rate,
      tb_tokens = round_double (of_nat (unat max_rate)),
      tb_last_refill = now,
      socket_open = True, uuid = uid, client_ip = ip, system_id = [], state = OPEN,
      bind_time = 0, el_interval_sec = interval, el_timeout_sec = tmo, el_seq = 0,
      el_pending = False, el_timer_wait = False, el_timeout_wait = False,
      msg_seq = 0, deliver_seq = 0x20000000,
      msg_id_prefix = (if 8 \<le> length uid then take 8 uid else uid),
      pending_read = None, writes = 0, delivering = None, ready = [], out = []\<rparr>"

subsection \<open>Effects\<close>

definition emit :: "action \<Rightarrow> session \<Rightarrow> session" where
  "emit a s = s\<lparr>out := out s @ [a]\<rparr>"

definition post :: "completion \<Rightarrow> session \<Rightarrow> session" where
  "post c s = s\<lparr>ready := ready s @ [c]\<rparr>"

text \<open>An asynchronous write on a closed descriptor only completes with an error.\<close>

definition send_pdu :: "byte list \<Rightarrow> session \<Rightarrow> session" where
  "send_pdu pdu s =
     (if socket_open s then emit (AsyncWrite pdu) (s\<lparr>writes := Suc (writes s)\<rparr>)
      else emit (WriteFailed pdu) s)"

text \<open>Closing the descriptor aborts the operations that are in progress on it.\<close>

definition socket_close :: "session \<Rightarrow> session" where
  "socket_close s =
     (let aborted = (case pending_read s of
            None \<Rightarrow> []
          | Some Read_header \<Rightarrow> [On_header (Inl Operation_aborted)]
          | Some (Read_body hdr) \<Rightarrow> [On_body hdr (Inl Operation_aborted)])
      in emit CloseSocket
           (s\<lparr>socket_open := False, pending_read := None, writes := 0,
              ready := ready s @ aborted\<rparr>))"

definition do_disconnect :: "string \<Rightarrow> session \<Rightarrow> session" where
  "do_disconnect reason s =
     (if state s = UNBOUND then s
      else
        let s = s\<lparr>state := UNBOUND\<rparr>;
            s = socket_close s
        in emit (SessionExited (uuid s) reason) s)"

definition update_session_details :: "session \<Rightarrow> session" where
  "update_session_details s =
     emit (CallUpdateSessionDetails (uuid s) (system_id s) (state_name (state s))) s"

definition read_header :: "session \<Rightarrow> session" where
  "read_header s =
     (if socket_open s then s\<lparr>pending_read := Some Read_header\<rparr>
      else post (On_header (Inl Bad_descriptor)) s)"

subsection \<open>Keepalive timers\<close>

text \<open>
  Setting an expiry or cancelling completes an outstanding wait with \<open>operation_aborted\<close>;
  a wait whose completion is already queued is not affected.
\<close>

definition schedule_enquire_link :: "session \<Rightarrow> session" where
  "schedule_enquire_link s =
     (let s = (if el_timer_wait s
               then post (On_enquire_link_timer (Some Operation_aborted)) s else s)
      in s\<lparr>el_timer_wait := True\<rparr>)"

definition cancel_enquire_link_timeout :: "session \<Rightarrow> session" where
  "cancel_enquire_link_timeout s =
     (if el_timeout_wait s
      then post (On_enquire_link_timeout (Some Operation_aborted)) (s\<lparr>el_timeout_wait := False\<rparr>)
      else s)"

definition arm_enquire_link_timeout :: "session \<Rightarrow> session" where
  "arm_enquire_link_timeout s = (cancel_enquire_link_timeout s)\<lparr>el_timeout_wait := True\<rparr>"

definition on_enquire_link_timer :: "error_code option \<Rightarrow> session \<Rightarrow> session" where
  "on_enquire_link_timer ec s =
     (if ec \<noteq> None \<or> el_pending s then s
      else if state s = UNBOUND then s
      else
        let s = s\<lparr>el_seq := (if el_seq s = 0 then 0x10000000 else el_seq s + 1)\<rparr>;
            s = s\<lparr>el_pending := True\<rparr>;
            s = send_pdu (make_response ENQUIRE_LINK ESME_ROK (el_seq s) []) s
        in arm_enquire_link_timeout s)"

definition handle_enquire_link_resp :: "header \<Rightarrow> session \<Rightarrow> session" where
  "handle_enquire_link_resp hdr s =
     (if sequence_number hdr = el_seq s \<and> el_pending s then
        let s = s\<lparr>el_pending := False\<rparr>;
            s = cancel_enquire_link_timeout s
        in schedule_enquire_link s
      else s)"

definition on_enquire_link_timeout :: "error_code option \<Rightarrow> session \<Rightarrow> session" where
  "on_enquire_link_timeout ec s =
     (if ec \<noteq> None then s
      else if \<not> el_pending s then s
      else do_disconnect ''enquire_link timeout'' s)"

subsection \<open>PDU handlers\<close>

definition bind_state :: "u32 \<Rightarrow> session_state \<Rightarrow> session_state" where
  "bind_state cmd st =
     (if cmd = BIND_TRANSMITTER then BOUND_TX
      else if cmd = BIND_RECEIVER then BOUND_RX
      else if cmd = BIND_TRANSCEIVER then BOUND_TRX
      else st)"

definition handle_bind :: "env \<Rightarrow> header \<Rightarrow> byte list \<Rightarrow> session \<Rightarrow> session" where
  "handle_bind e hdr body s =
     (if state s \<noteq> OPEN then
        send_pdu (make_response (bind_resp_id (command_id hdr)) ESME_RALYBND
          (sequence_number hdr) []) s
      else
        let (sid, off) = read_cstr body 0;
            (pass, off) = read_cstr body off;
            result = authenticate e (uuid s) sid pass (client_ip s);
            s = emit (CallAuthenticate (uuid s) sid pass (client_ip s) result) s;
            (auth_ok, err_code) = (case result of Some r \<Rightarrow> r | None \<Rightarrow> (False, ESME_RINVSYSID))
        in if \<not> auth_ok then
             do_disconnect ''auth failed''
               (send_pdu (make_response (bind_resp_id (command_id hdr)) err_code
                 (sequence_number hdr) []) s)
           else
             let s = s\<lparr>system_id := sid, state := bind_state (command_id hdr) (state s),
                       bind_time := of_nat (system_now e div 10 ^ 9)\<rparr>;
                 s = send_pdu (make_response (bind_resp_id (command_id hdr)) ESME_ROK
                       (sequence_number hdr) ''smpp-server'') s
             in update_session_details s)"

definition handle_unbind :: "header \<Rightarrow> session \<Rightarrow> session" where
  "handle_unbind hdr s =
     do_disconnect ''unbind''
       (send_pdu (make_response UNBIND_RESP ESME_ROK (sequence_number hdr) []) s)"

definition handle_enquire_link :: "header \<Rightarrow> session \<Rightarrow> session" where
  "handle_enquire_link hdr s =
     send_pdu (make_response ENQUIRE_LINK_RESP ESME_ROK (sequence_number hdr) []) s"

definition next_message_id :: "session \<Rightarrow> string \<times> session" where
  "next_message_id s =
     (let seq = msg_seq s + 1
      in (msg_id_prefix s @ setw_fill0 8 (hex_stream (unat seq)), s\<lparr>msg_seq := msg_seq s + 1\<rparr>))"

definition handle_submit_sm :: "env \<Rightarrow> header \<Rightarrow> byte list \<Rightarrow> session \<Rightarrow> session" where
  "handle_submit_sm e hdr body s =
     (let status = (if state s = BOUND_TX \<or> state s = BOUND_TRX then ESME_ROK
                    else ESME_RINVBNDSTS);
          (status, s) =
            (if status = ESME_ROK then
               let (ok, s) = throttle_check (steady_now e) s
               in (if \<not> ok then ESME_RTHROTTLED else status, s)
             else (status, s));
          (sm, msg_id, s) =
            (if status = ESME_ROK then
               let sm = parse_submit_sm body; (msg_id, s) = next_message_id s in (sm, msg_id, s)
             else (empty_submit_sm, [], s));
          s = send_pdu (make_response SUBMIT_SM_RESP status (sequence_number hdr) msg_id) s
      in if msg_id \<noteq> [] then
           emit (CallRouteMessage (src_addr sm) (dst_addr sm) (short_message sm) msg_id) s
         else s)"

text \<open>The handler of deliver_sm_resp only writes log lines.\<close>

definition handle_deliver_sm_resp :: "header \<Rightarrow> session \<Rightarrow> session" where
  "handle_deliver_sm_resp hdr s = s"

definition dispatch :: "env \<Rightarrow> header \<Rightarrow> byte list \<Rightarrow> session \<Rightarrow> session" where
  "dispatch e hdr body s =
     (let cmd = command_id hdr in
      if cmd = BIND_TRANSMITTER \<or> cmd = BIND_RECEIVER \<or> cmd = BIND_TRANSCEIVER then
        handle_bind e hdr body s
      else if cmd = UNBIND then handle_unbind hdr s
      else if cmd = ENQUIRE_LINK then handle_enquire_link hdr s
      else if cmd = SUBMIT_SM then handle_submit_sm e hdr body s
      else if cmd = ENQUIRE_LINK_RESP then handle_enquire_link_resp hdr s
      else if cmd = DELIVER_SM_RESP then handle_deliver_sm_resp hdr s
      else send_pdu (make_response GENERIC_NACK ESME_RINVCMDID (sequence_number hdr) []) s)"

subsection \<open>Read loop\<close>

definition read_body :: "env \<Rightarrow> header \<Rightarrow> session \<Rightarrow> session" where
  "read_body e hdr s =
     (let body_len = command_length hdr - 16
      in if body_len = 0 then read_header (dispatch e hdr [] s)
         else if socket_open s then s\<lparr>pending_read := Some (Read_body hdr)\<rparr>
         else post (On_body hdr (Inl Bad_descriptor)) s)"

definition on_header :: "env \<Rightarrow> error_code + byte list \<Rightarrow> session \<Rightarrow> session" where
  "on_header e result s =
     (case result of
        Inl ec \<Rightarrow> do_disconnect (''socket closed: '' @ message e ec) s
      | Inr header_buf \<Rightarrow>
          let hdr = decode_header header_buf
          in if command_length hdr < 16 then do_disconnect ''invalid PDU length'' s
             else read_body e hdr s)"

definition on_body :: "env \<Rightarrow> header \<Rightarrow> error_code + byte list \<Rightarrow> session \<Rightarrow> session" where
  "on_body e hdr result s =
     (case result of
        Inl ec \<Rightarrow> do_disconnect (''body read: '' @ message e ec) s
      | Inr body \<Rightarrow> read_header (dispatch e hdr body s))"

fun run_completion :: "env \<Rightarrow> completion \<Rightarrow> session \<Rightarrow> session" where
  "run_completion e (On_header r) s = on_header e r s"
| "run_completion e (On_body hdr r) s = on_body e hdr r s"
| "run_completion e (On_enquire_link_timer ec) s = on_enquire_link_timer ec s"
| "run_completion e (On_enquire_link_timeout ec) s = on_enquire_link_timeout ec s"
| "run_completion e (On_disconnect reason) s = do_disconnect reason s"

definition start :: "session \<Rightarrow> session" where
  "start s =
     (let s = read_header s
      in if 0 < el_interval_sec s then schedule_enquire_link s else s)"

subsection \<open>IClientHandler methods, called on the D-Bus thread\<close>

definition GetSessionInfo :: "session \<Rightarrow> string \<times> string \<times> string \<times> string \<times> u64" where
  "GetSessionInfo s =
     (uuid s, client_ip s, system_id s, state_name (state s), bind_time s)"

definition Disconnect :: "string \<Rightarrow> session \<Rightarrow> session" where
  "Disconnect reason s = post (On_disconnect reason) s"

datatype dbus_error = InvalidBindState

definition next_deliver_seq :: "session \<Rightarrow> u32 \<times> session" where
  "next_deliver_seq s = (deliver_seq s, s\<lparr>deliver_seq := deliver_seq s + 1\<rparr>)"

text \<open>
  DeliverSm releases the state mutex between its check and its write, and the io thread may run
  handlers there, so the two halves are two functions; \<open>DeliverSm\<close> is the call without an
  interruption.
\<close>

definition deliver_check :: "string \<Rightarrow> string \<Rightarrow> string \<Rightarrow> session \<Rightarrow> dbus_error + session" where
  "deliver_check src dst msg s =
     (if state s \<noteq> BOUND_RX \<and> state s \<noteq> BOUND_TRX then Inl InvalidBindState
      else Inr (s\<lparr>delivering := Some (src, dst, msg)\<rparr>))"

definition deliver_send :: "string \<Rightarrow> string \<Rightarrow> string \<Rightarrow> session \<Rightarrow> u32 \<times> session" where
  "deliver_send src dst msg s =
     (let (seq, s) = next_deliver_seq (s\<lparr>delivering := None\<rparr>)
      in (seq, send_pdu (make_deliver_sm seq src dst msg 0 0 0 0) s))"

definition DeliverSm :: "string \<Rightarrow> string \<Rightarrow> string \<Rightarrow> session \<Rightarrow> (dbus_error + u32) \<times> session" where
  "DeliverSm src dst msg s =
     (case deliver_check src dst msg s of
        Inl err \<Rightarrow> (Inl err, s)
      | Inr s \<Rightarrow> let (seq, s) = deliver_send src dst msg s in (Inr seq, s))"

subsection \<open>Observations\<close>

definition sent_pdus :: "action list \<Rightarrow> byte list list" where
  "sent_pdus acts = concat (map (\<lambda>a. case a of AsyncWrite p \<Rightarrow> [p] | _ \<Rightarrow> []) acts)"

definition routed_ids :: "action list \<Rightarrow> string list" where
  "routed_ids acts = concat (map (\<lambda>a. case a of CallRouteMessage src dst msg i \<Rightarrow> [i] | _ \<Rightarrow> []) acts)"

definition exits :: "action list \<Rightarrow> (string \<times> string) list" where
  "exits acts = concat (map (\<lambda>a. case a of SessionExited i r \<Rightarrow> [(i, r)] | _ \<Rightarrow> []) acts)"

definition is_request :: "u32 \<Rightarrow> bool" where
  "is_request cmd \<longleftrightarrow> cmd \<in> {BIND_TRANSMITTER, BIND_RECEIVER, BIND_TRANSCEIVER, UNBIND,
     ENQUIRE_LINK, SUBMIT_SM}"

definition message_id :: "string \<Rightarrow> u32 \<Rightarrow> string" where
  "message_id pfx seq = pfx @ hex_fixed 8 (unat seq)"

text \<open>The command id of the answer the protocol asks for, if any.\<close>

definition response_id :: "u32 \<Rightarrow> u32 option" where
  "response_id cmd =
     (if is_request cmd then Some (cmd OR 0x80000000)
      else if cmd = ENQUIRE_LINK_RESP \<or> cmd = DELIVER_SM_RESP then None
      else Some GENERIC_NACK)"

definition pdu_ids :: "byte list \<Rightarrow> u32 \<times> u32 \<times> bool" where
  "pdu_ids p =
     (let h = decode_header p
      in (command_id h, sequence_number h, unat (command_length h) = length p))"

definition answered :: "header \<Rightarrow> session \<Rightarrow> session \<Rightarrow> bool" where
  "answered hdr s s' \<longleftrightarrow>
     (\<exists>ps. sent_pdus (out s') = sent_pdus (out s) @ ps
        \<and> map pdu_ids ps = (case response_id (command_id hdr) of None \<Rightarrow> []
            | Some c \<Rightarrow> [(c, sequence_number hdr, True)]))"

text \<open>The credentials of a bind body and the verdict of the authentication service on them.\<close>

definition bind_credentials :: "byte list \<Rightarrow> string \<times> string" where
  "bind_credentials body =
     (let (sid, off) = read_cstr body 0; (pass, off) = read_cstr body off in (sid, pass))"

definition auth_verdict :: "(bool \<times> u32) option \<Rightarrow> bool \<times> u32" where
  "auth_verdict result = (case result of Some r \<Rightarrow> r | None \<Rightarrow> (False, ESME_RINVSYSID))"

section \<open>Lemmas\<close>

named_theorems session_defs \<open>the primitive effects of a session\<close>

lemmas primitive_defs [session_defs] = emit_def post_def send_pdu_def socket_close_def do_disconnect_def
  update_session_details_def read_header_def schedule_enquire_link_def
  cancel_enquire_link_timeout_def arm_enquire_link_timeout_def

lemma observe_append [simp]:
  "sent_pdus (xs @ ys) = sent_pdus xs @ sent_pdus ys"
  "routed_ids (xs @ ys) = routed_ids xs @ routed_ids ys"
  "exits (xs @ ys) = exits xs @ exits ys"
  by (simp_all add: sent_pdus_def routed_ids_def exits_def)

lemma observe_Nil [simp]: "sent_pdus [] = []" "routed_ids [] = []" "exits [] = []"
  by (simp_all add: sent_pdus_def routed_ids_def exits_def)

lemma observe_Cons [simp]:
  "sent_pdus (a # xs) = (case a of AsyncWrite p \<Rightarrow> [p] | _ \<Rightarrow> []) @ sent_pdus xs"
  "routed_ids (a # xs) = (case a of CallRouteMessage src dst msg i \<Rightarrow> [i] | _ \<Rightarrow> []) @ routed_ids xs"
  "exits (a # xs) = (case a of SessionExited i r \<Rightarrow> [(i, r)] | _ \<Rightarrow> []) @ exits xs"
  by (simp_all add: sent_pdus_def routed_ids_def exits_def)

subsection \<open>The handlers, branch by branch\<close>

lemma throttle_check_session:
  obtains ok t k where "throttle_check now s = (ok, s\<lparr>tb_last_refill := t, tb_tokens := k\<rparr>)"
proof (cases "max_submit_per_sec s = 0")
  case True
  then have "throttle_check now s = (True, s\<lparr>tb_last_refill := tb_last_refill s, tb_tokens := tb_tokens s\<rparr>)"
    by (simp add: throttle_check_unlimited)
  then show thesis by (rule that)
next
  case False
  then show thesis by (rule throttle_check_eq [THEN that])
qed

lemma throttle_check_sessionD:
  "throttle_check now s = (ok, s') \<Longrightarrow> \<exists>t k. s' = s\<lparr>tb_last_refill := t, tb_tokens := k\<rparr>"
  by (rule throttle_check_session [of now s]) auto

lemma next_message_id_eq:
  "next_message_id s = (message_id (msg_id_prefix s) (msg_seq s + 1), s\<lparr>msg_seq := msg_seq s + 1\<rparr>)"
  using unsigned_less [of "msg_seq s + 1", where ?'a = nat]
  by (simp add: next_message_id_def message_id_def setw_hex)

lemma message_id_nonempty [simp]: "message_id pfx seq \<noteq> []"
  by (simp add: message_id_def flip: length_0_conv)

lemma message_id_inj [simp]: "message_id pfx a = message_id pfx b \<longleftrightarrow> a = b"
  using unsigned_less [of a, where ?'a = nat] unsigned_less [of b, where ?'a = nat]
  by (simp add: message_id_def hex_fixed_inj word_unat_eq_iff)

lemma submit_not_bound:
  assumes "state s \<noteq> BOUND_TX" and "state s \<noteq> BOUND_TRX"
  shows "handle_submit_sm e hdr body s =
    send_pdu (make_response SUBMIT_SM_RESP ESME_RINVBNDSTS (sequence_number hdr) []) s"
  using assms by (simp add: handle_submit_sm_def)

lemma submit_throttled:
  assumes "state s = BOUND_TX \<or> state s = BOUND_TRX"
    and "throttle_check (steady_now e) s = (False, s')"
  shows "handle_submit_sm e hdr body s =
    send_pdu (make_response SUBMIT_SM_RESP ESME_RTHROTTLED (sequence_number hdr) []) s'"
  using assms by (simp add: handle_submit_sm_def)

lemma submit_accepted:
  fixes s' :: session
  assumes "state s = BOUND_TX \<or> state s = BOUND_TRX"
    and "throttle_check (steady_now e) s = (True, s')"
  defines "i \<equiv> message_id (msg_id_prefix s') (msg_seq s' + 1)"
  shows "handle_submit_sm e hdr body s =
    emit (CallRouteMessage (src_addr (parse_submit_sm body)) (dst_addr (parse_submit_sm body))
        (short_message (parse_submit_sm body)) i)
      (send_pdu (make_response SUBMIT_SM_RESP ESME_ROK (sequence_number hdr) i)
        (s'\<lparr>msg_seq := msg_seq s' + 1\<rparr>))"
  using assms by (simp add: handle_submit_sm_def next_message_id_eq)

lemma submit_cases [consumes 0, case_names not_bound throttled accepted]:
  fixes s :: session
  obtains
    "state s \<noteq> BOUND_TX" "state s \<noteq> BOUND_TRX" "handle_submit_sm e hdr body s =
      send_pdu (make_response SUBMIT_SM_RESP ESME_RINVBNDSTS (sequence_number hdr) []) s"
  | t k where "state s = BOUND_TX \<or> state s = BOUND_TRX"
      "throttle_check (steady_now e) s = (False, s\<lparr>tb_last_refill := t, tb_tokens := k\<rparr>)"
      "handle_submit_sm e hdr body s =
        send_pdu (make_response SUBMIT_SM_RESP ESME_RTHROTTLED (sequence_number hdr) [])
          (s\<lparr>tb_last_refill := t, tb_tokens := k\<rparr>)"
  | t k i where "state s = BOUND_TX \<or> state s = BOUND_TRX"
      "throttle_check (steady_now e) s = (True, s\<lparr>tb_last_refill := t, tb_tokens := k\<rparr>)"
      "i = message_id (msg_id_prefix s) (msg_seq s + 1)"
      "handle_submit_sm e hdr body s =
        emit (CallRouteMessage (src_addr (parse_submit_sm body)) (dst_addr (parse_submit_sm body))
            (short_message (parse_submit_sm body)) i)
          (send_pdu (make_response SUBMIT_SM_RESP ESME_ROK (sequence_number hdr) i)
            (s\<lparr>tb_last_refill := t, tb_tokens := k, msg_seq := msg_seq s + 1\<rparr>))"
proof -
  obtain ok t k where t: "throttle_check (steady_now e) s = (ok, s\<lparr>tb_last_refill := t, tb_tokens := k\<rparr>)"
    by (rule throttle_check_session)
  consider "state s \<noteq> BOUND_TX" "state s \<noteq> BOUND_TRX" | "state s = BOUND_TX \<or> state s = BOUND_TRX" "\<not> ok"
    | "state s = BOUND_TX \<or> state s = BOUND_TRX" ok
    by blast
  then show thesis
  proof cases
    case 1
    then show thesis by (intro that(1) submit_not_bound)
  next
    case 2
    with t show thesis by (intro that(2) submit_throttled) simp_all
  next
    case 3
    with t submit_accepted [of s e _ hdr body] show thesis by (intro that(3) [OF _ _ refl]) simp_all
  qed
qed

lemma bind_refused:
  "state s \<noteq> OPEN \<Longrightarrow> handle_bind e hdr body s =
    send_pdu (make_response (bind_resp_id (command_id hdr)) ESME_RALYBND (sequence_number hdr) []) s"
  by (simp add: handle_bind_def)

lemma bind_granted:
  assumes "state s = OPEN" and "bind_credentials body = (sid, pass)"
    and "authenticate e (uuid s) sid pass (client_ip s) = Some (True, code)"
  shows "handle_bind e hdr body s =
    update_session_details
      (send_pdu (make_response (bind_resp_id (command_id hdr)) ESME_ROK (sequence_number hdr) ''smpp-server'')
        ((emit (CallAuthenticate (uuid s) sid pass (client_ip s) (Some (True, code))) s)
          \<lparr>system_id := sid, state := bind_state (command_id hdr) OPEN,
           bind_time := of_nat (system_now e div 10 ^ 9)\<rparr>))"
  using assms by (auto simp: handle_bind_def bind_credentials_def emit_def split: prod.splits)

lemma bind_cases [consumes 0, case_names refused failed bound]:
  fixes s :: session
  obtains
    "state s \<noteq> OPEN" "handle_bind e hdr body s =
      send_pdu (make_response (bind_resp_id (command_id hdr)) ESME_RALYBND (sequence_number hdr) []) s"
  | sid pass err where "state s = OPEN" "bind_credentials body = (sid, pass)"
      "auth_verdict (authenticate e (uuid s) sid pass (client_ip s)) = (False, err)"
      "handle_bind e hdr body s =
        do_disconnect ''auth failed''
          (send_pdu (make_response (bind_resp_id (command_id hdr)) err (sequence_number hdr) [])
            (emit (CallAuthenticate (uuid s) sid pass (client_ip s)
              (authenticate e (uuid s) sid pass (client_ip s))) s))"
  | sid pass code where "state s = OPEN" "bind_credentials body = (sid, pass)"
      "authenticate e (uuid s) sid pass (client_ip s) = Some (True, code)"
      "handle_bind e hdr body s =
        update_session_details
          (send_pdu (make_response (bind_resp_id (command_id hdr)) ESME_ROK (sequence_number hdr) ''smpp-server'')
            ((emit (CallAuthenticate (uuid s) sid pass (client_ip s) (Some (True, code))) s)
              \<lparr>system_id := sid, state := bind_state (command_id hdr) OPEN,
               bind_time := of_nat (system_now e div 10 ^ 9)\<rparr>))"
proof -
  obtain sid pass where c: "bind_credentials body = (sid, pass)" by fastforce
  let ?r = "authenticate e (uuid s) sid pass (client_ip s)"
  obtain off off' where o: "read_cstr body 0 = (sid, off)" "read_cstr body off = (pass, off')"
    using c by (auto simp: bind_credentials_def split: prod.splits)
  consider "state s \<noteq> OPEN" | err where "state s = OPEN" "auth_verdict ?r = (False, err)"
    | code where "state s = OPEN" "?r = Some (True, code)"
    by (cases ?r; cases "fst (auth_verdict ?r)") (auto simp: auth_verdict_def prod_eq_iff)
  then show thesis
  proof cases
    case 1
    then show thesis by (intro that(1) bind_refused)
  next
    case 2
    then show thesis
      by (intro that(2) [OF _ c]) (simp_all add: handle_bind_def o auth_verdict_def)
  next
    case 3
    then show thesis by (intro that(3) [OF _ c]) (simp_all add: bind_granted [OF _ c])
  qed
qed

subsection \<open>What is written\<close>

lemma pdu_ids_make_response:
  assumes "length sid < 1000"
  shows "pdu_ids (make_response cmd status seq sid) = (cmd, seq, True)"
proof -
  have "length (response_body sid) < 1002"
    using assms by (simp add: response_body_def cstr_layout_def)
  moreover from this have "unat (16 + of_nat (length (response_body sid)) :: u32) = 16 + length (response_body sid)"
    by (intro unat_total) simp
  ultimately show ?thesis
    using assms by (simp add: pdu_ids_def make_response_eq)
qed

lemma sent_primitives [simp]:
  "sent_pdus (out (do_disconnect r s)) = sent_pdus (out s)"
  "sent_pdus (out (update_session_details s)) = sent_pdus (out s)"
  "sent_pdus (out (schedule_enquire_link s)) = sent_pdus (out s)"
  "sent_pdus (out (cancel_enquire_link_timeout s)) = sent_pdus (out s)"
  "sent_pdus (out (send_pdu p s)) = sent_pdus (out s) @ (if socket_open s then [p] else [])"
  "sent_pdus (out (emit a s)) = sent_pdus (out s) @ sent_pdus [a]"
  by (simp_all add: session_defs Let_def)

lemma socket_open_emit [simp]: "socket_open (emit a s) = socket_open s"
  by (simp add: emit_def)

lemma answeredI:
  assumes "sent_pdus (out s') = sent_pdus (out s) @ [make_response cmd status (sequence_number hdr) sid]"
    and "response_id (command_id hdr) = Some cmd" and "length sid < 1000"
  shows "answered hdr s s'"
  using assms unfolding answered_def by (intro exI) (auto simp: pdu_ids_make_response)

lemma handle_bind_answered:
  assumes "socket_open s" and "response_id (command_id hdr) = Some (bind_resp_id (command_id hdr))"
  shows "answered hdr s (handle_bind e hdr body s)"
  by (cases rule: bind_cases [of s e hdr body])
    (use assms in \<open>auto intro!: answeredI [where cmd = "bind_resp_id (command_id hdr)"]\<close>)

lemma handle_submit_sm_answered:
  assumes "socket_open s" and "command_id hdr = SUBMIT_SM" and "length (msg_id_prefix s) \<le> 8"
  shows "answered hdr s (handle_submit_sm e hdr body s)"
proof -
  have "response_id (command_id hdr) = Some SUBMIT_SM_RESP"
    using assms(2) by (simp add: response_id_def is_request_def)
  with assms show ?thesis
    by (cases rule: submit_cases [of s e hdr body])
      (auto intro!: answeredI [where cmd = SUBMIT_SM_RESP] simp: message_id_def)
qed

section \<open>Properties\<close>

text \<open>
  C11: while the socket is open every request PDU gets exactly one response, with the request's
  command id and the response bit set, its sequence number and a correct length field; every
  unknown command gets exactly one generic_nack; and the two responses the session itself
  awaits are not answered. This holds in every session state and on every error branch.
\<close>

theorem dispatch_answers:
  assumes "socket_open s" and "length (msg_id_prefix s) \<le> 8"
  shows "answered hdr s (dispatch e hdr body s)"
proof -
  let ?c = "command_id hdr"
  note r = response_id_def is_request_def
  consider "?c \<in> {BIND_TRANSMITTER, BIND_RECEIVER, BIND_TRANSCEIVER}" | "?c = UNBIND"
    | "?c = ENQUIRE_LINK" | "?c = SUBMIT_SM" | "?c = ENQUIRE_LINK_RESP" | "?c = DELIVER_SM_RESP"
    | "\<not> is_request ?c" "?c \<noteq> ENQUIRE_LINK_RESP" "?c \<noteq> DELIVER_SM_RESP"
    by (auto simp: is_request_def)
  then show ?thesis
  proof cases
    case 1
    then have "response_id ?c = Some (bind_resp_id ?c)" by (auto simp: r bind_resp_id_def)
    from handle_bind_answered [OF assms(1) this] 1 show ?thesis by (auto simp: dispatch_def Let_def)
  next
    case 2
    then show ?thesis
      using assms by (intro answeredI [where cmd = UNBIND_RESP and sid = "[]"]) (simp_all add: r dispatch_def handle_unbind_def)
  next
    case 3
    then show ?thesis
      using assms
      by (intro answeredI [where cmd = ENQUIRE_LINK_RESP and sid = "[]"]) (simp_all add: r dispatch_def handle_enquire_link_def)
  next
    case 4
    with handle_submit_sm_answered [OF assms(1) 4 assms(2)] show ?thesis by (simp add: dispatch_def)
  next
    case 5
    then show ?thesis
      by (simp add: answered_def r dispatch_def handle_enquire_link_resp_def Let_def)
  next
    case 6
    then show ?thesis by (simp add: answered_def r dispatch_def handle_deliver_sm_resp_def)
  next
    case 7
    then show ?thesis
      using assms by (intro answeredI [where cmd = GENERIC_NACK and sid = "[]"]) (auto simp: r dispatch_def Let_def)
  qed
qed

theorem dispatch_answers_witness:
  "socket_open (new_session ''0123456789'' ''10.0.0.1'' 60 10 0 0) \<and>
   answered \<lparr>command_length = 16, command_id = UNBIND, command_status = 0, sequence_number = 7\<rparr>
     (new_session ''0123456789'' ''10.0.0.1'' 60 10 0 0)
     (dispatch \<lparr>authenticate = (\<lambda>u i p a. None), steady_now = 0, system_now = 0, message = (\<lambda>c. [])\<rparr>
       \<lparr>command_length = 16, command_id = UNBIND, command_status = 0, sequence_number = 7\<rparr> []
       (new_session ''0123456789'' ''10.0.0.1'' 60 10 0 0))"
proof -
  let ?s = "new_session ''0123456789'' ''10.0.0.1'' 60 10 0 0"
  have "socket_open ?s" "length (msg_id_prefix ?s) \<le> 8" by (simp_all add: new_session_def)
  then show ?thesis by (intro conjI dispatch_answers)
qed

text \<open>
  A bind_receiver with the command id of the SMPP specification and of the protocol notes
  (0x00000001) is answered with a generic_nack and leaves the session unbound: the session
  knows bind_receiver under 0x00000003, which the specification gives to query_sm.
\<close>

theorem bind_receiver_standard_id_nacked:
  "command_id hdr = 0x00000001 \<Longrightarrow>
   dispatch e hdr body s =
     send_pdu (make_response GENERIC_NACK ESME_RINVCMDID (sequence_number hdr) []) s
   \<and> state (dispatch e hdr body s) = state s"
  by (simp add: dispatch_def Let_def send_pdu_def emit_def)

theorem bind_receiver_standard_id_nacked_witness:
  "state (dispatch \<lparr>authenticate = (\<lambda>u i p a. Some (True, 0)), steady_now = 0, system_now = 0, message = (\<lambda>c. [])\<rparr>
     \<lparr>command_length = 16, command_id = 1, command_status = 0, sequence_number = 7\<rparr> []
     (new_session ''0123456789'' ''10.0.0.1'' 60 10 0 0)) = OPEN"
proof -
  have "state (new_session ''0123456789'' ''10.0.0.1'' 60 10 0 0) = OPEN"
    by (simp add: new_session_def)
  then show ?thesis
    by (subst bind_receiver_standard_id_nacked [THEN conjunct2]) simp_all
qed

end
