(* ===== verification/Session_Runs.thy ===== *)
theory Session_Runs
  imports Client_Session
begin

text \<open>
  The runs of one SmppSession: the io thread runs the queued completions in order, the peer, the
  network and the timers complete the operations in progress, and the D-Bus thread calls the
  IClientHandler methods in between. A handler runs as one step; the D-Bus thread only reads the
  state under the mutex, and its writing half is a step of its own. The contract of an invariant
  of such runs is the locale \<open>session_invariant\<close>, whose assumptions range over the primitive
  effects; each invariant of the session is an interpretation of it. A property that the steps
  keep but a new session need not have is an interpretation of \<open>session_closed\<close>. The arguments
  of a D-Bus call are bounded by the maximal length of a bus message, 128 MiB.
\<close>

section \<open>Definitions\<close>

definition session_start :: "session \<Rightarrow> bool" where
  "session_start s \<longleftrightarrow>
     (\<exists>uid ip interval tmo rate now. s = start (new_session uid ip interval tmo rate now))"

inductive session_step :: "session \<Rightarrow> session \<Rightarrow> bool" where
  run: "ready s = c # cs \<Longrightarrow> tb_last_refill s \<le> steady_now e \<Longrightarrow>
    session_step s (run_completion e c (s\<lparr>ready := cs\<rparr>))"
| header_read: "pending_read s = Some Read_header \<Longrightarrow> length bs = 16 \<Longrightarrow>
    session_step s (post (On_header (Inr bs)) (s\<lparr>pending_read := None\<rparr>))"
| header_error: "pending_read s = Some Read_header \<Longrightarrow>
    session_step s (post (On_header (Inl ec)) (s\<lparr>pending_read := None\<rparr>))"
| body_read: "pending_read s = Some (Read_body hdr) \<Longrightarrow>
    length bs = unat (command_length hdr - 16) \<Longrightarrow>
    session_step s (post (On_body hdr (Inr bs)) (s\<lparr>pending_read := None\<rparr>))"
| body_error: "pending_read s = Some (Read_body hdr) \<Longrightarrow>
    session_step s (post (On_body hdr (Inl ec)) (s\<lparr>pending_read := None\<rparr>))"
| timer_expires: "el_timer_wait s \<Longrightarrow>
    session_step s (post (On_enquire_link_timer None) (s\<lparr>el_timer_wait := False\<rparr>))"
| timeout_expires: "el_timeout_wait s \<Longrightarrow>
    session_step s (post (On_enquire_link_timeout None) (s\<lparr>el_timeout_wait := False\<rparr>))"
| write_done: "writes s = Suc n \<Longrightarrow> session_step s (s\<lparr>writes := n\<rparr>)"
| dbus_disconnect: "session_step s (Disconnect reason s)"
| dbus_deliver: "delivering s = None \<Longrightarrow> length src + length dst + length msg \<le> 2 ^ 27 \<Longrightarrow>
    deliver_check src dst msg s = Inr s' \<Longrightarrow> session_step s s'"
| dbus_deliver_send: "delivering s = Some (src, dst, msg) \<Longrightarrow>
    session_step s (snd (deliver_send src dst msg s))"

definition is_bound :: "session_state \<Rightarrow> bool" where
  "is_bound st \<longleftrightarrow> st \<in> {BOUND_TX, BOUND_RX, BOUND_TRX}"

definition lifecycle_inv :: "session \<Rightarrow> bool" where
  "lifecycle_inv s \<longleftrightarrow>
     (socket_open s \<longleftrightarrow> state s \<noteq> UNBOUND)
     \<and> length (exits (out s)) = of_bool (state s = UNBOUND)
     \<and> count_list (out s) CloseSocket = of_bool (state s = UNBOUND)
     \<and> (state s = UNBOUND \<longrightarrow> pending_read s = None \<and> writes s = 0)"

text \<open>The log has a call of Authenticate for this session and system id that was granted.\<close>

fun grants :: "string \<Rightarrow> string \<Rightarrow> string \<Rightarrow> action \<Rightarrow> bool" where
  "grants uid sid ip (CallAuthenticate u i p a (Some (True, code))) \<longleftrightarrow> u = uid \<and> i = sid \<and> a = ip"
| "grants uid sid ip _ \<longleftrightarrow> False"

definition auth_inv :: "session \<Rightarrow> bool" where
  "auth_inv s \<longleftrightarrow>
     (is_bound (state s) \<longrightarrow> list_ex (grants (uuid s) (system_id s) (client_ip s)) (out s))"

text \<open>The ids given out so far are those of the numbers 1, 2, 3, \<dots> modulo \<open>2^32\<close>.\<close>

definition ids_inv :: "session \<Rightarrow> bool" where
  "ids_inv s \<longleftrightarrow>
     routed_ids (out s) =
       map (\<lambda>i. message_id (msg_id_prefix s) (of_nat (Suc i))) [0..<length (routed_ids (out s))]
     \<and> msg_seq s = of_nat (length (routed_ids (out s)))"

definition quiet_inv :: "session \<Rightarrow> bool" where
  "quiet_inv s \<longleftrightarrow>
     sent_pdus (dropWhile (\<lambda>a. a \<noteq> CloseSocket) (out s)) = []
     \<and> (state s \<noteq> UNBOUND \<longrightarrow> CloseSocket \<notin> set (out s))
     \<and> (state s = UNBOUND \<longrightarrow> \<not> socket_open s \<and> CloseSocket \<in> set (out s))"

definition bucket_inv :: "session \<Rightarrow> bool" where
  "bucket_inv s \<longleftrightarrow> bucket_ok s \<and> length (msg_id_prefix s) \<le> 8"

text \<open>The read chain: a read in progress or its completion in the queue.\<close>

fun is_read :: "completion \<Rightarrow> bool" where
  "is_read (On_header r) \<longleftrightarrow> True"
| "is_read (On_body hdr r) \<longleftrightarrow> True"
| "is_read _ \<longleftrightarrow> False"

definition reader_inv :: "session \<Rightarrow> bool" where
  "reader_inv s \<longleftrightarrow>
     (state s \<noteq> UNBOUND \<longrightarrow>
       length (filter is_read (ready s)) + of_bool (pending_read s \<noteq> None) = 1)"

text \<open>
  The keepalive: an expiry in the queue is live when its handler gets no error code. An
  enquire_link is due, queued, unanswered with its timeout running, or timed out; a timeout
  that expired just before its answer was read is still queued, ahead of the next enquire_link.
\<close>

definition live_timers :: "completion list \<Rightarrow> completion list" where
  "live_timers cs = filter (\<lambda>c. c = On_enquire_link_timer None \<or> c = On_enquire_link_timeout None) cs"

definition keepalive_ok :: "bool \<Rightarrow> bool \<Rightarrow> bool \<Rightarrow> completion list \<Rightarrow> bool" where
  "keepalive_ok pending timer timeout live \<longleftrightarrow>
     (if pending then
        \<not> timer \<and> live = (if timeout then [] else [On_enquire_link_timeout None])
      else
        \<not> timeout \<and>
        (if timer then live \<in> {[], [On_enquire_link_timeout None]}
         else live \<in> {[On_enquire_link_timer None],
                       [On_enquire_link_timeout None, On_enquire_link_timer None]}))"

definition keepalive_inv :: "session \<Rightarrow> bool" where
  "keepalive_inv s \<longleftrightarrow>
     (state s \<noteq> UNBOUND \<and> 0 < el_interval_sec s \<longrightarrow>
       keepalive_ok (el_pending s) (el_timer_wait s) (el_timeout_wait s) (live_timers (ready s)))"

text \<open>The steps that need neither the peer nor a caller: queued handlers and the two timers.\<close>

inductive silent_step :: "session \<Rightarrow> session \<Rightarrow> bool" where
  silent_run: "ready s = c # cs \<Longrightarrow> tb_last_refill s \<le> steady_now e \<Longrightarrow>
    silent_step s (run_completion e c (s\<lparr>ready := cs\<rparr>))"
| silent_timer: "el_timer_wait s \<Longrightarrow>
    silent_step s (post (On_enquire_link_timer None) (s\<lparr>el_timer_wait := False\<rparr>))"
| silent_timeout: "el_timeout_wait s \<Longrightarrow>
    silent_step s (post (On_enquire_link_timeout None) (s\<lparr>el_timeout_wait := False\<rparr>))"

fun read_weight :: "completion \<Rightarrow> nat" where
  "read_weight (On_header (Inr bs)) = 2"
| "read_weight (On_body hdr (Inr bs)) = 2"
| "read_weight (On_header (Inl ec)) = 1"
| "read_weight (On_body hdr (Inl ec)) = 1"
| "read_weight _ = 0"

fun timer_weight :: "completion \<Rightarrow> nat" where
  "timer_weight (On_enquire_link_timer None) = 4"
| "timer_weight (On_enquire_link_timeout None) = 1"
| "timer_weight _ = 0"

text \<open>What an operation leaves alone, unless it ends the session.\<close>

definition untouched :: "session \<Rightarrow> session \<Rightarrow> bool" where
  "untouched s t \<longleftrightarrow> state t = UNBOUND \<or>
     state s \<noteq> UNBOUND \<and> pending_read t = pending_read s \<and> ready t = ready s \<and> socket_open t = socket_open s
     \<and> (el_pending t, el_timer_wait t, el_timeout_wait t, el_interval_sec t)
       = (el_pending s, el_timer_wait s, el_timeout_wait s, el_interval_sec s)"

text \<open>No read in progress and none completed: the state in which a read handler runs.\<close>

definition no_read :: "session \<Rightarrow> bool" where
  "no_read s \<longleftrightarrow> filter is_read (ready s) = [] \<and> pending_read s = None"

subsection \<open>What is written\<close>

text \<open>A PDU that a peer can frame: a header, and the length that it announces.\<close>

definition wf_pdu :: "byte list \<Rightarrow> bool" where
  "wf_pdu p \<longleftrightarrow> 16 \<le> length p \<and> unat (command_length (decode_header p)) = length p"

definition wire_inv :: "session \<Rightarrow> bool" where
  "wire_inv s \<longleftrightarrow> list_all wf_pdu (sent_pdus (out s)) \<and> length (msg_id_prefix s) \<le> 8
     \<and> (case delivering s of None \<Rightarrow> True
        | Some (src, dst, msg) \<Rightarrow> length src + length dst + length msg \<le> 2 ^ 27)"

subsection \<open>What the server is told\<close>

definition reports :: "action list \<Rightarrow> (string \<times> string \<times> string) list" where
  "reports acts = concat (map (\<lambda>a. case a of CallUpdateSessionDetails u i st \<Rightarrow> [(u, i, st)] | _ \<Rightarrow> []) acts)"

text \<open>
  From \<open>s\<close> to \<open>t\<close> the session only reports itself, and unless it has ended its last report, if
  any, gives its state; without a report the state is unchanged.
\<close>

definition tracks :: "session \<Rightarrow> session \<Rightarrow> bool" where
  "tracks s t \<longleftrightarrow>
     (\<exists>acts. out t = out s @ acts \<and> uuid t = uuid s
        \<and> list_all (\<lambda>r. fst r = uuid s) (reports acts)
        \<and> (state s = UNBOUND \<longrightarrow> state t = UNBOUND)
        \<and> (state t = UNBOUND
           \<or> (if reports acts = [] then state t = state s
              else snd (last (reports acts)) = (system_id t, state_name (state t)))))"

subsection \<open>Receiving one PDU\<close>

text \<open>A PDU read completely while no other completion is queued.\<close>

definition receive :: "env \<Rightarrow> header \<Rightarrow> byte list \<Rightarrow> session \<Rightarrow> session" where
  "receive e hdr body s = read_header (dispatch e hdr body (s\<lparr>pending_read := None\<rparr>))"

text \<open>An example run: a granted bind_transceiver, then a submit_sm, then an unbind.\<close>

definition example_env :: env where
  "example_env = \<lparr>authenticate = (\<lambda>u i p a. Some (p = ''pass1'', 0)), steady_now = 0,
     system_now = 1700000000000000000, message = (\<lambda>c. [])\<rparr>"

definition example_pdu :: "u32 \<Rightarrow> byte list \<Rightarrow> session \<Rightarrow> session" where
  "example_pdu cmd body s =
     receive example_env \<lparr>command_length = 16 + of_nat (length body), command_id = cmd,
       command_status = 0, sequence_number = 1\<rparr> body s"

definition example_start :: session where
  "example_start = start (new_session ''00f1e2d3c4b5'' ''10.0.0.1'' 60 10 0 0)"

definition example_bound :: session where
  "example_bound = example_pdu BIND_TRANSCEIVER (bytes_of ''esme1'' @ [0] @ bytes_of ''pass1'' @ [0]) example_start"

definition example_submitted :: session where
  "example_submitted = example_pdu SUBMIT_SM
     [0, 1, 1, 49, 0, 1, 1, 50, 0, 0, 0, 0, 0, 0, 0, 0, 0, 0, 2, 104, 105] example_bound"

definition example_ended :: session where
  "example_ended = example_pdu UNBIND [] example_submitted"

section \<open>Lemmas\<close>

subsection \<open>The contract of an invariant\<close>

locale session_closed =
  fixes ok :: "byte list \<Rightarrow> bool"
    and I :: "session \<Rightarrow> bool"
  assumes ok_response: "length sid \<le> 16 \<Longrightarrow> ok (make_response cmd status seq sid)"
    and ok_message_id: "I s \<Longrightarrow> ok (make_response cmd status seq (message_id (msg_id_prefix s) m))"
    and ok_deliver: "I s \<Longrightarrow> delivering s = Some (src, dst, msg) \<Longrightarrow> ok (make_deliver_sm seq src dst msg 0 0 0 0)"
    and I_send: "I s \<Longrightarrow> ok p \<Longrightarrow> I (send_pdu p s)"
    and I_disconnect: "I s \<Longrightarrow> I (do_disconnect r s)"
    and I_el_seq: "I s \<Longrightarrow> I (s\<lparr>el_seq := q\<rparr>)"
    and I_el_pending: "I s \<Longrightarrow> I (s\<lparr>el_pending := b\<rparr>)"
    and I_el_timer: "I s \<Longrightarrow> I (s\<lparr>el_timer_wait := b\<rparr>)"
    and I_el_timeout: "I s \<Longrightarrow> I (s\<lparr>el_timeout_wait := b\<rparr>)"
    and I_ready: "I s \<Longrightarrow> I (s\<lparr>ready := cs\<rparr>)"
    and I_deliver_seq: "I s \<Longrightarrow> I (s\<lparr>deliver_seq := q\<rparr>)"
    and I_idle: "I s \<Longrightarrow> I (s\<lparr>delivering := None\<rparr>)"
    and I_delivering: "I s \<Longrightarrow> length src + length dst + length msg \<le> 2 ^ 27 \<Longrightarrow>
      I (s\<lparr>delivering := Some (src, dst, msg)\<rparr>)"
    and I_read: "I s \<Longrightarrow> socket_open s \<or> op = None \<Longrightarrow> I (s\<lparr>pending_read := op\<rparr>)"
    and I_written: "I s \<Longrightarrow> writes s = Suc n \<Longrightarrow> I (s\<lparr>writes := n\<rparr>)"
    and I_auth: "I s \<Longrightarrow> I (emit (CallAuthenticate uid sid pass ip res) s)"
    and I_bound: "I s \<Longrightarrow> ok p \<Longrightarrow> state s = OPEN \<Longrightarrow> is_bound st \<Longrightarrow>
      I (update_session_details (send_pdu p
        ((emit (CallAuthenticate (uuid s) sid pass (client_ip s) (Some (True, code))) s)
          \<lparr>system_id := sid, state := st, bind_time := t\<rparr>)))"
    and I_throttle: "I s \<Longrightarrow> tb_last_refill s \<le> now \<Longrightarrow> throttle_check now s = (fits, s') \<Longrightarrow> I s'"
    and I_accept: "I s \<Longrightarrow> ok p \<Longrightarrow> is_bound (state s) \<Longrightarrow>
      I (emit (CallRouteMessage src dst msg (message_id (msg_id_prefix s) (msg_seq s + 1)))
        (send_pdu p (s\<lparr>msg_seq := msg_seq s + 1\<rparr>)))"
begin

lemma I_post: "I s \<Longrightarrow> I (post c s)"
  unfolding post_def by (rule I_ready)

lemma I_read_header: "I s \<Longrightarrow> I (read_header s)"
  by (auto simp: read_header_def intro: I_post I_read)

lemma I_schedule: "I s \<Longrightarrow> I (schedule_enquire_link s)"
  by (auto simp: schedule_enquire_link_def intro: I_post I_el_timer)

lemma I_cancel: "I s \<Longrightarrow> I (cancel_enquire_link_timeout s)"
  by (auto simp: cancel_enquire_link_timeout_def intro: I_post I_el_timeout)

lemma I_arm: "I s \<Longrightarrow> I (arm_enquire_link_timeout s)"
  by (auto simp: arm_enquire_link_timeout_def intro: I_cancel I_el_timeout)

lemma I_on_timer: "I s \<Longrightarrow> I (on_enquire_link_timer ec s)"
  unfolding on_enquire_link_timer_def Let_def
  by (auto intro!: I_arm I_send ok_response I_el_pending I_el_seq)

lemma I_on_timeout: "I s \<Longrightarrow> I (on_enquire_link_timeout ec s)"
  by (auto simp: on_enquire_link_timeout_def intro: I_disconnect)

lemma I_el_resp: "I s \<Longrightarrow> I (handle_enquire_link_resp hdr s)"
  unfolding handle_enquire_link_resp_def Let_def by (auto intro: I_schedule I_cancel I_el_pending)

lemma I_bind:
  assumes "I s" and "is_bound (bind_state (command_id hdr) OPEN)"
  shows "I (handle_bind e hdr body s)"
  by (cases rule: bind_cases [of s e hdr body])
    (auto intro!: I_send ok_response I_disconnect I_auth I_bound assms)

lemma I_submit:
  assumes "I s" and "tb_last_refill s \<le> steady_now e"
  shows "I (handle_submit_sm e hdr body s)"
proof (cases rule: submit_cases [of s e hdr body])
  case not_bound
  then show ?thesis by (simp add: I_send ok_response assms(1))
next
  case (throttled t k)
  with I_throttle [OF assms throttled(2)] show ?thesis by (simp add: I_send ok_response)
next
  case (accepted t k i)
  let ?s = "s\<lparr>tb_last_refill := t, tb_tokens := k\<rparr>"
  have "I ?s" using I_throttle [OF assms accepted(2)] .
  from I_accept [OF this ok_message_id [OF this]] accepted show ?thesis by (auto simp: is_bound_def)
qed

lemma I_dispatch: "I s \<Longrightarrow> tb_last_refill s \<le> steady_now e \<Longrightarrow> I (dispatch e hdr body s)"
  unfolding dispatch_def Let_def handle_unbind_def handle_enquire_link_def handle_deliver_sm_resp_def
  by (auto intro!: I_bind I_submit I_send ok_response I_disconnect I_el_resp simp: bind_state_def is_bound_def)

lemma I_run:
  assumes "I s" and "tb_last_refill s \<le> steady_now e"
  shows "I (run_completion e c s)"
  using assms
  by (cases c) (auto simp: on_header_def on_body_def read_body_def Let_def split: sum.splits
      intro!: I_disconnect I_on_timer I_on_timeout I_read_header I_dispatch I_post I_read)

lemma I_step: "session_step s t \<Longrightarrow> I s \<Longrightarrow> I t"
  by (induction rule: session_step.induct)
    (auto simp: Disconnect_def deliver_check_def deliver_send_def next_deliver_seq_def
      intro!: I_run I_ready I_post I_read I_el_timer I_el_timeout I_written I_idle I_delivering I_deliver_seq I_send ok_deliver
      split: if_splits)

end

locale session_invariant = session_closed +
  assumes I_new: "I (new_session uid ip interval tmo rate now)"
begin

lemma I_start: "session_start s \<Longrightarrow> I s"
  by (auto simp: session_start_def start_def Let_def intro!: I_schedule I_read_header I_new)

end

sublocale session_invariant \<subseteq> runs: inductive_invariant session_start session_step I
  by unfold_locales (auto intro: I_start I_step)

subsection \<open>The invariants\<close>

interpretation lifecycle: session_invariant "\<lambda>p. True" lifecycle_inv
  by unfold_locales
    (auto simp: lifecycle_inv_def new_session_def session_defs Let_def is_bound_def
      dest!: throttle_check_sessionD split: if_splits option.splits read_op.splits)

interpretation authenticated: session_invariant "\<lambda>p. True" auth_inv
  by unfold_locales
    (auto simp: auth_inv_def new_session_def session_defs Let_def is_bound_def
      dest!: throttle_check_sessionD split: if_splits)

lemma ids_inv_Suc:
  assumes "ids_inv s" and "routed_ids (out s') = routed_ids (out s) @ [message_id (msg_id_prefix s) (msg_seq s + 1)]"
    and "msg_id_prefix s' = msg_id_prefix s" and "msg_seq s' = msg_seq s + 1"
  shows "ids_inv s'"
proof -
  define n where "n = length (routed_ids (out s))"
  have "routed_ids (out s) = map (\<lambda>i. message_id (msg_id_prefix s) (of_nat (Suc i))) [0..<n]"
    and "msg_seq s = of_nat n"
    using assms(1) by (simp_all add: ids_inv_def n_def)
  then show ?thesis using assms(2-) by (simp add: ids_inv_def add.commute)
qed

interpretation message_ids: session_invariant "\<lambda>p. True" ids_inv
proof (unfold_locales, goal_cases)
  case (19 s p src dst msg)
  then show ?case by (elim ids_inv_Suc) (simp_all add: send_pdu_def emit_def)
qed (auto simp: ids_inv_def new_session_def session_defs Let_def dest!: throttle_check_sessionD
    split: if_splits)

lemma dropWhile_snoc:
  "dropWhile P (xs @ ys) = (if \<forall>x\<in>set xs. P x then dropWhile P ys else dropWhile P xs @ ys)"
  by (auto simp: dropWhile_append)

interpretation quiet: session_invariant "\<lambda>p. True" quiet_inv
  by unfold_locales
    (auto simp: quiet_inv_def new_session_def session_defs Let_def is_bound_def dropWhile_snoc
      dest!: throttle_check_sessionD split: if_splits)

interpretation bucket: session_invariant "\<lambda>p. True" bucket_inv
proof (unfold_locales, goal_cases)
  case (20 uid ip interval tmo rate now)
  show ?case
    using bucket_ok_fresh [of rate now]
    by (simp add: bucket_inv_def bucket_ok_def new_session_def fresh_bucket_def)
next
  case (18 s now ok s')
  then show ?case
    using throttle_check_ok [of s now] throttle_check_sessionD [OF 18(3)] by (auto simp: bucket_inv_def)
qed (auto simp: bucket_inv_def bucket_ok_def session_defs Let_def)

lemma unat_small: "n < 2 ^ 32 \<Longrightarrow> unat (of_nat n :: u32) = n"
  by (simp add: unsigned_of_nat take_bit_nat_eq_self)

lemma wf_make_response: "length sid \<le> 16 \<Longrightarrow> wf_pdu (make_response cmd status seq sid)"
  using pdu_ids_make_response [of sid cmd status seq] by (simp add: wf_pdu_def pdu_ids_def make_response_eq Let_def)

lemma wf_make_deliver_sm:
  assumes "length src + length dst + length msg \<le> 2 ^ 27"
  shows "wf_pdu (make_deliver_sm seq src dst msg a b c d)"
proof -
  have n: "16 + length (make_deliver_sm_body src dst msg a b c d) < 2 ^ 32" using assms by simp
  from make_deliver_sm_eq [OF n] unat_small [OF n] show ?thesis by (simp add: wf_pdu_def)
qed

interpretation wire: session_invariant wf_pdu wire_inv
proof (unfold_locales, goal_cases)
  case (2 s cmd status seq m)
  then show ?case by (intro wf_make_response) (simp add: wire_inv_def message_id_def)
next
  case (18 s now fits s')
  then show ?case by (auto simp: wire_inv_def dest!: throttle_check_sessionD)
qed (auto simp: wire_inv_def wf_make_response wf_make_deliver_sm new_session_def session_defs Let_def)

subsection \<open>The read chain\<close>

lemma state_primitives [simp]:
  "state (send_pdu p s) = state s" "state (emit a s) = state s" "state (post c s) = state s"
  "state (do_disconnect r s) = UNBOUND" "state (read_header s) = state s"
  "state (update_session_details s) = state s" "state (schedule_enquire_link s) = state s"
  "state (cancel_enquire_link_timeout s) = state s" "state (arm_enquire_link_timeout s) = state s"
  by (simp_all add: session_defs Let_def)

lemma dispatch_untouched:
  assumes "command_id hdr \<noteq> ENQUIRE_LINK_RESP"
  shows "untouched s (dispatch e hdr body s)"
proof -
  have "untouched s (handle_bind e hdr body s)"
    by (cases rule: bind_cases [of s e hdr body]) (auto simp: untouched_def session_defs Let_def)
  moreover have "untouched s (handle_submit_sm e hdr body s)"
    by (cases rule: submit_cases [of s e hdr body]) (auto simp: untouched_def session_defs Let_def)
  ultimately show ?thesis
    using assms by (auto simp: dispatch_def Let_def handle_unbind_def handle_enquire_link_def
        handle_deliver_sm_resp_def untouched_def send_pdu_def emit_def)
qed

lemma dispatch_unbound: "state s = UNBOUND \<Longrightarrow> state (dispatch e hdr body s) = UNBOUND"
  by (auto simp: dispatch_def Let_def handle_unbind_def handle_enquire_link_def bind_refused
      handle_deliver_sm_resp_def handle_enquire_link_resp_def submit_not_bound)

lemma live_timers_simps [simp]:
  "live_timers [] = []"
  "live_timers (c # cs) = (if c = On_enquire_link_timer None \<or> c = On_enquire_link_timeout None
     then c # live_timers cs else live_timers cs)"
  "live_timers (xs @ ys) = live_timers xs @ live_timers ys"
  by (simp_all add: live_timers_def)

lemma dispatch_no_read:
  "no_read s \<Longrightarrow> state (dispatch e hdr body s) = UNBOUND \<or> no_read (dispatch e hdr body s)"
proof (cases "command_id hdr = ENQUIRE_LINK_RESP")
  case True
  then show "no_read s \<Longrightarrow> ?thesis"
    by (auto simp: dispatch_def handle_enquire_link_resp_def Let_def no_read_def session_defs)
next
  case False
  from dispatch_untouched [OF this, of s e body] show "no_read s \<Longrightarrow> ?thesis"
    by (auto simp: untouched_def no_read_def)
qed

lemma read_header_reader: "state s = UNBOUND \<or> no_read s \<Longrightarrow> reader_inv (read_header s)"
  by (auto simp: reader_inv_def no_read_def read_header_def post_def)

lemma run_read_reader:
  assumes "state s = UNBOUND \<or> no_read s" and "is_read c"
  shows "reader_inv (run_completion e c s)"
proof -
  have d: "state (dispatch e hdr body s) = UNBOUND \<or> no_read (dispatch e hdr body s)" for hdr body
    using assms(1) dispatch_no_read dispatch_unbound by blast
  have "reader_inv (do_disconnect r s)" for r by (simp add: reader_inv_def)
  moreover have "reader_inv (post (On_body hdr (Inl Bad_descriptor)) s)"
    and "reader_inv (s\<lparr>pending_read := Some (Read_body hdr)\<rparr>)" for hdr
    using assms(1) by (auto simp: reader_inv_def no_read_def post_def)
  ultimately show ?thesis
    using assms(2) read_header_reader [OF d]
    by (cases c) (auto simp: on_header_def on_body_def read_body_def Let_def split: sum.splits)
qed

lemma run_other_reader:
  assumes "reader_inv s" and "\<not> is_read c"
  shows "reader_inv (run_completion e c s)"
  using assms
  by (cases c) (auto simp: reader_inv_def on_enquire_link_timer_def on_enquire_link_timeout_def
      session_defs Let_def)

lemma reader_step:
  assumes "session_step s t" and "reader_inv s"
  shows "reader_inv t"
  using assms
proof (cases rule: session_step.cases)
  case (run c cs e)
  show ?thesis
  proof (cases "is_read c")
    case True
    with assms(2) run have "state (s\<lparr>ready := cs\<rparr>) = UNBOUND \<or> no_read (s\<lparr>ready := cs\<rparr>)"
      by (auto simp: reader_inv_def no_read_def)
    with True run show ?thesis by (simp add: run_read_reader)
  next
    case False
    with assms(2) run have "reader_inv (s\<lparr>ready := cs\<rparr>)" by (simp add: reader_inv_def)
    with False run show ?thesis by (simp add: run_other_reader)
  qed
qed (auto simp: reader_inv_def post_def Disconnect_def deliver_check_def deliver_send_def
    next_deliver_seq_def send_pdu_def emit_def split: if_splits)

lemma start_new:
  "start (new_session uid ip interval tmo rate now) =
    (new_session uid ip interval tmo rate now)
      \<lparr>pending_read := Some Read_header, el_timer_wait := 0 < interval\<rparr>"
  by (simp add: start_def Let_def read_header_def schedule_enquire_link_def new_session_def)

lemma session_start_fields:
  assumes "session_start s"
  shows "state s = OPEN" and "socket_open s" and "pending_read s = Some Read_header" and "ready s = []"
    and "el_pending s = False" and "el_timer_wait s \<longleftrightarrow> 0 < el_interval_sec s" and "el_timeout_wait s = False"
    and "out s = []" and "msg_seq s = 0"
  using assms unfolding session_start_def start_new by (auto simp: new_session_def)

interpretation reader: inductive_invariant session_start session_step reader_inv
proof
  show "reader_inv s" if "session_start s" for s
    using session_start_fields [OF that] by (simp add: reader_inv_def)
qed (rule reader_step)

subsection \<open>The keepalive\<close>

lemma untouched_keepalive: "untouched s t \<Longrightarrow> keepalive_inv s \<Longrightarrow> keepalive_inv t"
  unfolding untouched_def keepalive_inv_def by (elim disjE conjE) simp_all

lemma enquire_link_resp_keepalive:
  assumes "keepalive_inv s"
  shows "keepalive_inv (handle_enquire_link_resp hdr s)"
  using assms
  by (auto simp: keepalive_inv_def keepalive_ok_def handle_enquire_link_resp_def Let_def session_defs
      split: if_splits)

lemma dispatch_keepalive: "keepalive_inv s \<Longrightarrow> keepalive_inv (dispatch e hdr body s)"
proof (cases "command_id hdr = ENQUIRE_LINK_RESP")
  case True
  then show "keepalive_inv s \<Longrightarrow> ?thesis"
    by (simp add: dispatch_def enquire_link_resp_keepalive)
qed (rule untouched_keepalive [OF dispatch_untouched])

lemma reading_keepalive:
  "keepalive_inv s \<Longrightarrow> keepalive_inv (read_header s)"
  "keepalive_inv s \<Longrightarrow> keepalive_inv (s\<lparr>pending_read := r\<rparr>)"
  "keepalive_inv s \<Longrightarrow> c \<noteq> On_enquire_link_timer None \<Longrightarrow> c \<noteq> On_enquire_link_timeout None \<Longrightarrow>
    keepalive_inv (post c s)"
  "keepalive_inv (do_disconnect reason s)"
  by (auto simp: keepalive_inv_def read_header_def post_def)

lemma run_plain_keepalive:
  assumes "keepalive_inv s" and "c \<noteq> On_enquire_link_timer None" and "c \<noteq> On_enquire_link_timeout None"
  shows "keepalive_inv (run_completion e c s)"
  using assms
  by (cases c) (auto simp: on_header_def on_body_def read_body_def Let_def on_enquire_link_timer_def
      on_enquire_link_timeout_def split: sum.splits intro!: reading_keepalive dispatch_keepalive)

lemma run_timer_keepalive:
  assumes "keepalive_inv s" and "ready s = c # cs"
    and "c = On_enquire_link_timer None \<or> c = On_enquire_link_timeout None"
  shows "keepalive_inv (run_completion e c (s\<lparr>ready := cs\<rparr>))"
  using assms
  by (auto simp: keepalive_inv_def keepalive_ok_def on_enquire_link_timer_def on_enquire_link_timeout_def
      Let_def session_defs split: if_splits)

lemma keepalive_ok_expiry:
  "keepalive_ok p True w live \<Longrightarrow> keepalive_ok p False w (live @ [On_enquire_link_timer None])"
  "keepalive_ok p q True live \<Longrightarrow> keepalive_ok p q False (live @ [On_enquire_link_timeout None])"
  by (simp_all add: keepalive_ok_def split: if_splits)

lemma timer_expiry_keepalive:
  "keepalive_inv s \<Longrightarrow> el_timer_wait s \<Longrightarrow>
    keepalive_inv (post (On_enquire_link_timer None) (s\<lparr>el_timer_wait := False\<rparr>))"
  "keepalive_inv s \<Longrightarrow> el_timeout_wait s \<Longrightarrow>
    keepalive_inv (post (On_enquire_link_timeout None) (s\<lparr>el_timeout_wait := False\<rparr>))"
  by (simp_all add: keepalive_inv_def post_def keepalive_ok_expiry)

lemma deliver_keepalive:
  "keepalive_inv s \<Longrightarrow> keepalive_inv (s\<lparr>writes := n\<rparr>)"
  "keepalive_inv s \<Longrightarrow> deliver_check src dst msg s = Inr t \<Longrightarrow> keepalive_inv t"
  "keepalive_inv s \<Longrightarrow> keepalive_inv (snd (deliver_send src dst msg s))"
  by (auto simp: keepalive_inv_def deliver_check_def deliver_send_def next_deliver_seq_def
      send_pdu_def emit_def split: if_splits)

lemma keepalive_step:
  assumes "session_step s t" and k: "keepalive_inv s"
  shows "keepalive_inv t"
  using assms(1)
proof (cases rule: session_step.cases)
  case (run c cs e)
  show ?thesis
  proof (cases "c = On_enquire_link_timer None \<or> c = On_enquire_link_timeout None")
    case True
    from run_timer_keepalive [OF k run(2) this] run(1) show ?thesis by simp
  next
    case False
    with run(2) k have "keepalive_inv (s\<lparr>ready := cs\<rparr>)" by (simp add: keepalive_inv_def)
    with False run(1) show ?thesis by (simp add: run_plain_keepalive)
  qed
next
  case (dbus_deliver src dst msg)
  with k show ?thesis by (blast intro: deliver_keepalive)
qed (use k in \<open>simp_all add: Disconnect_def timer_expiry_keepalive reading_keepalive deliver_keepalive(1,3)\<close>)

interpretation keepalive: inductive_invariant session_start session_step keepalive_inv
proof
  show "keepalive_inv s" if "session_start s" for s
    using session_start_fields [OF that] by (simp add: keepalive_inv_def keepalive_ok_def)
qed (rule keepalive_step)

subsection \<open>Silence ends the session\<close>

abbreviation rank_less :: "session \<Rightarrow> session \<Rightarrow> bool" where
  "rank_less t s \<equiv> (t, s) \<in> measures
    [\<lambda>s. of_bool (state s \<noteq> UNBOUND), \<lambda>s. sum_list (map read_weight (ready s)),
     \<lambda>s. 5 * of_bool (el_timer_wait s) + 2 * of_bool (el_timeout_wait s)
        + sum_list (map timer_weight (ready s)),
     \<lambda>s. length (ready s)]"

lemma run_unbound: "state s = UNBOUND \<Longrightarrow> state (run_completion e c s) = UNBOUND"
  by (cases c) (auto simp: on_header_def on_body_def read_body_def Let_def on_enquire_link_timer_def
      on_enquire_link_timeout_def dispatch_unbound split: sum.splits)

lemma do_disconnect_unbound: "state s = UNBOUND \<Longrightarrow> do_disconnect r s = s"
  by (simp add: do_disconnect_def)

lemma dispatch_read_weight:
  assumes "state s = UNBOUND \<or> state (dispatch e hdr body s) \<noteq> UNBOUND"
  shows "sum_list (map read_weight (ready (dispatch e hdr body s))) = sum_list (map read_weight (ready s))"
proof -
  have "sum_list (map read_weight (ready (handle_bind e hdr body s))) = sum_list (map read_weight (ready s))"
    if "state s = UNBOUND \<or> state (handle_bind e hdr body s) \<noteq> UNBOUND"
    using that by (cases rule: bind_cases [of s e hdr body]) (auto simp: send_pdu_def emit_def update_session_details_def)
  moreover have "ready (handle_submit_sm e hdr body s) = ready s"
    by (cases rule: submit_cases [of s e hdr body]) (auto simp: send_pdu_def emit_def)
  ultimately show ?thesis
    using assms by (auto simp: dispatch_def Let_def handle_unbind_def handle_enquire_link_def do_disconnect_unbound
        handle_deliver_sm_resp_def handle_enquire_link_resp_def send_pdu_def emit_def
        cancel_enquire_link_timeout_def schedule_enquire_link_def post_def split: if_splits)
qed

lemma read_header_weight:
  "sum_list (map read_weight (ready (read_header s))) \<le> Suc (sum_list (map read_weight (ready s)))"
  by (simp add: read_header_def post_def)

lemma run_read_weight:
  assumes "is_read c" and "state s = UNBOUND \<or> state (run_completion e c s) \<noteq> UNBOUND"
  shows "sum_list (map read_weight (ready (run_completion e c s))) <
    read_weight c + sum_list (map read_weight (ready s))"
proof -
  have d: "sum_list (map read_weight (ready (read_header (dispatch e hdr body s)))) <
      2 + sum_list (map read_weight (ready s))"
    if "state s = UNBOUND \<or> state (dispatch e hdr body s) \<noteq> UNBOUND" for hdr body
    using dispatch_read_weight [OF that] read_header_weight [of "dispatch e hdr body s"] by simp
  have n: "sum_list (map read_weight (ready (do_disconnect r s))) < Suc (sum_list (map read_weight (ready s)))"
    if "state s = UNBOUND" for r
    using that by (simp add: do_disconnect_unbound)
  show ?thesis
    using assms d n
    by (cases c) (auto simp: on_header_def on_body_def read_body_def Let_def post_def do_disconnect_unbound
        split: sum.splits if_splits)
qed

lemma run_other_rank:
  assumes "\<not> is_read c" and "state s = UNBOUND \<or> state (run_completion e c (s\<lparr>ready := cs\<rparr>)) \<noteq> UNBOUND"
    and "ready s = c # cs"
  shows "rank_less (run_completion e c (s\<lparr>ready := cs\<rparr>)) s"
  using assms
  by (cases c) (auto simp: do_disconnect_unbound on_enquire_link_timer_def on_enquire_link_timeout_def Let_def
      send_pdu_def emit_def arm_enquire_link_timeout_def cancel_enquire_link_timeout_def post_def split: if_splits)

lemma silent_run_rank:
  assumes "ready s = c # cs"
  shows "rank_less (run_completion e c (s\<lparr>ready := cs\<rparr>)) s"
proof (cases "state s \<noteq> UNBOUND \<and> state (run_completion e c (s\<lparr>ready := cs\<rparr>)) = UNBOUND")
  case False
  then have u: "state s = UNBOUND \<or> state (run_completion e c (s\<lparr>ready := cs\<rparr>)) \<noteq> UNBOUND" by blast
  then have "state s = UNBOUND \<longleftrightarrow> state (run_completion e c (s\<lparr>ready := cs\<rparr>)) = UNBOUND"
    using run_unbound [of "s\<lparr>ready := cs\<rparr>" e c] by auto
  then show ?thesis
    using run_read_weight [of c "s\<lparr>ready := cs\<rparr>" e] run_other_rank [OF _ u assms] u assms
    by (cases "is_read c") auto
qed simp

lemma silent_step_rank: "silent_step s t \<Longrightarrow> rank_less t s"
proof (induction rule: silent_step.induct)
  case (silent_run s c cs e)
  from this(1) show ?case by (rule silent_run_rank)
qed (simp_all add: post_def)

lemma silent_step_wf: "wf {(t, u). silent_step u t}"
  by (rule wf_subset [OF wf_measures]) (use silent_step_rank in blast)

lemma silent_step_session: "silent_step s t \<Longrightarrow> session_step s t"
  by (induction rule: silent_step.induct) (auto intro: session_step.intros)

lemma silent_steps_reachable:
  "silent_step\<^sup>*\<^sup>* s t \<Longrightarrow> reachable session_start session_step s \<Longrightarrow> reachable session_start session_step t"
  by (induction rule: rtranclp.induct) (auto intro: reachable.intros silent_step_session)

lemma silent_stuck:
  assumes "\<not> (\<exists>u. silent_step t u)"
  shows "ready t = [] \<and> \<not> el_timer_wait t \<and> \<not> el_timeout_wait t"
proof -
  let ?e = "\<lparr>authenticate = (\<lambda>u i p a. None), steady_now = tb_last_refill t, system_now = 0, message = (\<lambda>c. [])\<rparr>"
  have "ready t = []"
  proof (rule ccontr)
    assume "ready t \<noteq> []"
    then obtain c cs where "ready t = c # cs" by (auto simp: neq_Nil_conv)
    then have "silent_step t (run_completion ?e c (t\<lparr>ready := cs\<rparr>))" by (rule silent_run) simp
    with assms show False by blast
  qed
  with assms show ?thesis by (blast intro: silent_timer silent_timeout)
qed

interpretation constants: session_closed "\<lambda>p. True"
    "\<lambda>s. (uuid s, client_ip s, msg_id_prefix s, el_interval_sec s, el_timeout_sec s, max_submit_per_sec s) = v" for v
  by unfold_locales (auto simp: session_defs Let_def dest!: throttle_check_sessionD)

lemma step_constants:
  assumes "session_step s t"
  shows "uuid t = uuid s" "client_ip t = client_ip s" "msg_id_prefix t = msg_id_prefix s"
    "el_interval_sec t = el_interval_sec s" "max_submit_per_sec t = max_submit_per_sec s"
  using constants.I_step [OF assms refl] by simp_all

lemma silent_steps_interval: "silent_step\<^sup>*\<^sup>* s t \<Longrightarrow> el_interval_sec t = el_interval_sec s"
  by (induction rule: rtranclp.induct) (auto dest!: silent_step_session step_constants(4))

interpretation ended: session_closed "\<lambda>p. True"
    "\<lambda>s. state s = UNBOUND \<and> \<not> socket_open s \<and> sent_pdus (out s) = v" for v
  by unfold_locales (auto simp: session_defs Let_def is_bound_def dest!: throttle_check_sessionD)

lemma ended_steps:
  "session_step\<^sup>*\<^sup>* s t \<Longrightarrow> state s = UNBOUND \<Longrightarrow> \<not> socket_open s \<Longrightarrow>
    state t = UNBOUND \<and> \<not> socket_open t \<and> sent_pdus (out t) = sent_pdus (out s)"
  by (induction rule: rtranclp.induct) (auto dest: ended.I_step)

lemma reports_simps [simp]:
  "reports [] = []" "reports (xs @ ys) = reports xs @ reports ys"
  "reports (a # xs) = (case a of CallUpdateSessionDetails u i st \<Rightarrow> [(u, i, st)] | _ \<Rightarrow> []) @ reports xs"
  by (simp_all add: reports_def)

lemma tracks_refl: "tracks s s"
  by (simp add: tracks_def)

lemma tracks_step:
  assumes "tracks s t" and "\<exists>acts. out u = out t @ acts \<and> reports acts = []" and "uuid u = uuid t"
    and "state u = UNBOUND \<or> state u = state t \<and> system_id u = system_id t"
  shows "tracks s u"
proof -
  from assms(1) obtain acts' where "out t = out s @ acts'" "uuid t = uuid s"
      "list_all (\<lambda>r. fst r = uuid s) (reports acts')" "state s = UNBOUND \<longrightarrow> state t = UNBOUND"
      "state t = UNBOUND \<or> (if reports acts' = [] then state t = state s
         else snd (last (reports acts')) = (system_id t, state_name (state t)))"
    unfolding tracks_def by blast
  moreover from assms(2) obtain acts where "out u = out t @ acts" "reports acts = []" by blast
  ultimately show ?thesis
    using assms(3-) unfolding tracks_def by (intro exI [of _ "acts' @ acts"]) auto
qed

lemma tracks_bound:
  assumes "tracks s t" and "state t = OPEN" and "state u \<noteq> UNBOUND" and "uuid u = uuid t"
    and "out u = out t @ acts @ [CallUpdateSessionDetails (uuid t) (system_id u) (state_name (state u))]"
    and "reports acts = []"
  shows "tracks s u"
  using assms unfolding tracks_def by (elim exE) (rule exI, auto)

interpretation tracking: session_closed "\<lambda>p. True" "tracks s" for s
proof (unfold_locales, goal_cases)
  case (17 t p st tm sid pass code)
  then show ?case
    by (elim tracks_bound [where acts = "[CallAuthenticate (uuid t) sid pass (client_ip t) (Some (True, code)),
          if socket_open t then AsyncWrite p else WriteFailed p]"])
      (auto simp: session_defs is_bound_def)
next
  case (18 t now ok t')
  then show ?case by (auto dest!: throttle_check_sessionD intro: tracks_step)
qed (((rule TrueI | elim tracks_step); auto simp: session_defs Let_def)+)

lemma step_tracks: "session_step s t \<Longrightarrow> tracks s t"
  by (rule tracking.I_step [OF _ tracks_refl])

lemma message_ids_distinct:
  assumes "n \<le> 2 ^ 32"
  shows "distinct (map (\<lambda>i. message_id pfx (of_nat (Suc i))) [0..<n])"
proof -
  have "i = j" if "i < n" "j < n" "(of_nat (Suc i) :: u32) = of_nat (Suc j)" for i j
  proof -
    from that(3) have "(of_nat i :: u32) = of_nat j" by simp
    then have "unat (of_nat i :: u32) = unat (of_nat j :: u32)" by (rule arg_cong)
    then have "i mod 2 ^ 32 = j mod 2 ^ 32" by (simp add: unsigned_of_nat take_bit_eq_mod)
    with that(1,2) assms show ?thesis by simp
  qed
  then show ?thesis by (auto simp: distinct_map inj_on_def simp del: of_nat_Suc)
qed

lemma start_reachable:
  "reachable session_start session_step (start (new_session uid ip interval tmo rate now))"
  by (rule reach_start) (unfold session_start_def, blast)

text \<open>A complete PDU from the peer reaches the dispatcher, and the next header read starts.\<close>

lemma run_single:
  assumes "ready s = []" and "tb_last_refill s \<le> steady_now e"
  shows "session_step (post c s) (run_completion e c s)"
proof -
  have "s\<lparr>ready := []\<rparr> = s" using assms(1) by (cases s) simp
  with run [of "post c s" c "[]" e] assms show ?thesis by (simp add: post_def)
qed

lemma receive_body:
  assumes "ready s = []" and "tb_last_refill s \<le> steady_now e" and "pending_read s = Some (Read_body hdr)"
    and "length body = unat (command_length hdr - 16)"
  shows "session_step\<^sup>*\<^sup>* s (receive e hdr body s)"
proof -
  let ?n = "s\<lparr>pending_read := None\<rparr>"
  have "session_step s (post (On_body hdr (Inr body)) ?n)" using assms(3,4) by (rule body_read)
  moreover have "session_step (post (On_body hdr (Inr body)) ?n) (receive e hdr body s)"
    using run_single [of ?n e "On_body hdr (Inr body)"] assms(1,2) by (simp add: receive_def on_body_def)
  ultimately show ?thesis by (rule converse_rtranclp_into_rtranclp [OF _ r_into_rtranclp])
qed

lemma receive_steps:
  assumes "pending_read s = Some Read_header" and "ready s = []" and "socket_open s"
    and "tb_last_refill s \<le> steady_now e" and "16 \<le> command_length hdr"
    and "length body = unat (command_length hdr - 16)"
  shows "session_step\<^sup>*\<^sup>* s (receive e hdr body s)"
proof -
  let ?n = "s\<lparr>pending_read := None\<rparr>" and ?c = "On_header (Inr (header_layout hdr))"
  have d: "decode_header (header_layout hdr) = hdr" using decode_header_layout [of hdr "[]"] by simp
  have "session_step s (post ?c ?n)" using assms(1) by (rule header_read) simp
  moreover have "session_step (post ?c ?n) (read_body e hdr ?n)"
    using run_single [of ?n e ?c] assms(2,4) leD [OF assms(5)] by (simp add: on_header_def d)
  moreover have "session_step\<^sup>*\<^sup>* (read_body e hdr ?n) (receive e hdr body s)"
  proof (cases "command_length hdr = 16")
    case True
    with assms(6) show ?thesis by (simp add: read_body_def receive_def)
  next
    case False
    then have "read_body e hdr ?n = s\<lparr>pending_read := Some (Read_body hdr)\<rparr>"
      using assms(3) by (simp add: read_body_def)
    with receive_body [of "s\<lparr>pending_read := Some (Read_body hdr)\<rparr>" e hdr body] assms(2,4,6)
    show ?thesis by (simp add: receive_def)
  qed
  ultimately show ?thesis by (blast intro: converse_rtranclp_into_rtranclp)
qed

subsection \<open>An example run\<close>

lemma example_start_fields:
  "state example_start = OPEN" "pending_read example_start = Some Read_header" "ready example_start = []"
  "socket_open example_start" "tb_last_refill example_start = 0" "0 < el_interval_sec example_start"
  "max_submit_per_sec example_start = 0" "uuid example_start = ''00f1e2d3c4b5''"
  "client_ip example_start = ''10.0.0.1''" "writes example_start = 0" "out example_start = []"
  unfolding example_start_def start_new by (simp_all add: new_session_def)

lemmas example_defs = example_pdu_def receive_def example_env_def dispatch_def bind_state_def
  send_pdu_def emit_def update_session_details_def read_header_def

lemma example_bound_fields:
  "state example_bound = BOUND_TRX" "pending_read example_bound = Some Read_header" "ready example_bound = []"
  "socket_open example_bound" "tb_last_refill example_bound = 0" "max_submit_per_sec example_bound = 0"
  "uuid example_bound = ''00f1e2d3c4b5''" "client_ip example_bound = ''10.0.0.1''"
  "system_id example_bound = ''esme1''" "writes example_bound = 1" "routed_ids (out example_bound) = []"
  "length (sent_pdus (out example_bound)) = 1"
proof -
  have c: "bind_credentials (bytes_of ''esme1'' @ [0] @ bytes_of ''pass1'' @ [0]) = (''esme1'', ''pass1'')"
    by code_simp
  note b = bind_granted [OF _ c]
  show "state example_bound = BOUND_TRX" "pending_read example_bound = Some Read_header" "ready example_bound = []"
    "socket_open example_bound" "tb_last_refill example_bound = 0" "max_submit_per_sec example_bound = 0"
    "uuid example_bound = ''00f1e2d3c4b5''" "client_ip example_bound = ''10.0.0.1''"
    "system_id example_bound = ''esme1''" "writes example_bound = 1" "routed_ids (out example_bound) = []"
  "length (sent_pdus (out example_bound)) = 1"
    by (simp_all add: example_bound_def example_defs b example_start_fields del: bytes_of_Cons append.simps)
qed

lemma example_submitted_fields:
  "state example_submitted = BOUND_TRX" "pending_read example_submitted = Some Read_header"
  "ready example_submitted = []" "socket_open example_submitted" "tb_last_refill example_submitted = 0"
  "length (routed_ids (out example_submitted)) = 1" "writes example_submitted = 2"
  "length (sent_pdus (out example_submitted)) = 2"
  by (simp_all add: example_submitted_def example_defs submit_accepted throttle_check_unlimited
      example_bound_fields)

lemma example_ended_fields: "state example_ended = UNBOUND"
  by (simp add: example_ended_def example_defs handle_unbind_def example_submitted_fields)

lemma example_pdu_steps:
  assumes "pending_read s = Some Read_header" and "ready s = []" and "socket_open s"
    and "tb_last_refill s = 0" and "length body < 1000"
  shows "session_step\<^sup>*\<^sup>* s (example_pdu cmd body s)"
proof -
  have "unat (16 + of_nat (length body) :: u32) = 16 + length body"
    using assms(5) by (intro unat_total) simp
  moreover have "unat (of_nat (length body) :: u32) = length body"
    using assms(5) by (simp add: unsigned_of_nat take_bit_eq_mod)
  ultimately show ?thesis
    unfolding example_pdu_def using assms
    by (intro receive_steps) (simp_all add: example_env_def word_le_nat_alt)
qed

lemma example_steps:
  "session_step\<^sup>*\<^sup>* example_start example_bound"
  "session_step\<^sup>*\<^sup>* example_bound example_submitted"
  "session_step\<^sup>*\<^sup>* example_submitted example_ended"
proof -
  show "session_step\<^sup>*\<^sup>* example_start example_bound"
    unfolding example_bound_def using example_start_fields by (intro example_pdu_steps) simp_all
  show "session_step\<^sup>*\<^sup>* example_bound example_submitted"
    unfolding example_submitted_def using example_bound_fields by (intro example_pdu_steps) simp_all
  show "session_step\<^sup>*\<^sup>* example_submitted example_ended"
    unfolding example_ended_def using example_submitted_fields by (intro example_pdu_steps) simp_all
qed

lemma example_reachable:
  "reachable session_start session_step example_start"
  "reachable session_start session_step example_bound"
  "reachable session_start session_step example_submitted"
  "reachable session_start session_step example_ended"
proof -
  show s: "reachable session_start session_step example_start"
    unfolding example_start_def by (rule start_reachable)
  note b = reachable_steps [OF example_steps(1) s]
  note m = reachable_steps [OF example_steps(2) b]
  note e = reachable_steps [OF example_steps(3) m]
  show "reachable session_start session_step example_bound"
    "reachable session_start session_step example_submitted"
    "reachable session_start session_step example_ended" by (fact b m e)+
qed

section \<open>Properties\<close>





text \<open>
  C8: a session is in a bound state only if the authentication service granted, for this
  session's uuid and client address, the system id that the session reports.
\<close>

theorem bound_is_authenticated:
  assumes "reachable session_start session_step s" and "is_bound (state s)"
  shows "list_ex (grants (uuid s) (system_id s) (client_ip s)) (out s)"
  using authenticated.runs.holds [OF assms(1)] assms(2) by (simp add: auth_inv_def)

theorem bound_is_authenticated_witness:
  "state example_bound = BOUND_TRX \<and>
   list_ex (grants ''00f1e2d3c4b5'' ''esme1'' ''10.0.0.1'') (out example_bound)"
  using bound_is_authenticated [OF example_reachable(2)] example_bound_fields by (simp add: is_bound_def)

text \<open>
  C21: the message ids a session gives out are pairwise distinct for the first \<open>2^32\<close> accepted
  messages, after which the 32-bit counter wraps.
\<close>

theorem message_ids_unique:
  assumes "reachable session_start session_step s" and "length (routed_ids (out s)) \<le> 2 ^ 32"
  shows "distinct (routed_ids (out s))"
  using message_ids.runs.holds [OF assms(1)] message_ids_distinct [OF assms(2), of "msg_id_prefix s"]
  by (metis ids_inv_def)

theorem message_ids_unique_witness:
  "length (routed_ids (out example_submitted)) = 1 \<and> distinct (routed_ids (out example_submitted))"
  using message_ids_unique [OF example_reachable(3)] example_submitted_fields by simp

text \<open>
  C19: until the session ends its read loop never stalls and never reads twice: there is exactly
  one read in progress or completed and waiting for its handler.
\<close>

theorem exactly_one_read:
  assumes "reachable session_start session_step s" and "state s \<noteq> UNBOUND"
  shows "length (filter is_read (ready s)) + of_bool (pending_read s \<noteq> None) = 1"
  using reader.holds [OF assms(1)] assms(2) by (simp add: reader_inv_def)

theorem exactly_one_read_witness:
  "state example_bound \<noteq> UNBOUND \<and>
   length (filter is_read (ready example_bound)) + of_bool (pending_read example_bound \<noteq> None) = 1"
  using exactly_one_read [OF example_reachable(2)] example_bound_fields by simp

text \<open>
  C9: a silent peer is disconnected. With the keepalive on, the steps that need no peer and no
  caller (queued handlers and timer expiries) cannot go on forever, and when none is left the
  session is UNBOUND. So the keepalive is never lost, in particular not when an answer and the
  expiry of its timeout cross.
\<close>

theorem silent_peer_is_disconnected:
  assumes "reachable session_start session_step s" and "0 < el_interval_sec s"
  shows "wfp (\<lambda>t u. silent_step u t)
    \<and> (\<forall>t. silent_step\<^sup>*\<^sup>* s t \<and> \<not> (\<exists>u. silent_step t u) \<longrightarrow> state t = UNBOUND)"
proof (intro conjI allI impI)
  show "wfp (\<lambda>t u. silent_step u t)" using silent_step_wf by (simp add: wfp_def)
next
  fix t assume t: "silent_step\<^sup>*\<^sup>* s t \<and> \<not> (\<exists>u. silent_step t u)"
  then have "keepalive_inv t"
    using silent_steps_reachable assms(1) by (blast intro: keepalive.holds)
  moreover have "el_interval_sec t = el_interval_sec s" using t silent_steps_interval by blast
  ultimately show "state t = UNBOUND"
    using silent_stuck [of t] t assms(2) by (auto simp: keepalive_inv_def keepalive_ok_def split: if_splits)
qed

theorem silent_peer_is_disconnected_witness:
  "0 < el_interval_sec example_start \<and>
   (\<exists>t. silent_step\<^sup>*\<^sup>* example_start t \<and> \<not> (\<exists>u. silent_step t u) \<and> state t = UNBOUND)"
proof
  show on: "0 < el_interval_sec example_start" using example_start_fields by simp
  note silent = silent_peer_is_disconnected [OF example_reachable(1) on]
  obtain t where t: "silent_step\<^sup>*\<^sup>* example_start t" "\<And>u. silent_step t u \<Longrightarrow> \<not> silent_step\<^sup>*\<^sup>* example_start u"
    using wfE_min [OF conjunct1 [OF silent, unfolded wfp_def], of example_start "{t. silent_step\<^sup>*\<^sup>* example_start t}"] by auto
  then have "\<not> (\<exists>u. silent_step t u)" by (meson rtranclp.rtrancl_into_rtrancl)
  with t(1) silent show "\<exists>t. silent_step\<^sup>*\<^sup>* example_start t \<and> \<not> (\<exists>u. silent_step t u) \<and> state t = UNBOUND" by blast
qed

text \<open>
  C22: everything a session writes is a well-formed PDU. In every run every PDU written to the
  socket has a complete header whose length field is the number of bytes written, on every answer,
  every keepalive probe and every delivered message.
\<close>

theorem written_pdus_well_formed:
  assumes "reachable session_start session_step s"
  shows "list_all wf_pdu (sent_pdus (out s))"
  using wire.runs.holds [OF assms] by (simp add: wire_inv_def)

theorem written_pdus_well_formed_witness:
  "length (sent_pdus (out example_submitted)) = 2 \<and> list_all wf_pdu (sent_pdus (out example_submitted))"
  using written_pdus_well_formed [OF example_reachable(3)] example_submitted_fields by simp

text \<open>
  The function send_pdu starts a composed write without waiting for the previous one: a run reaches a
  state with two writes in progress on the socket, which asio forbids because their bytes may be
  interleaved.
\<close>

theorem concurrent_writes_reachable:
  "\<exists>s. reachable session_start session_step s \<and> socket_open s \<and> 2 \<le> writes s"
  using example_reachable(3) example_submitted_fields by (intro exI [of _ example_submitted]) simp

end
