(* ===== verification/Connection_Registry.thy ===== *)
theory Connection_Registry
  imports Smpp_Prelude
begin

text \<open>
  SMPPServer/src/connection_registry.cpp: the accepted sockets that no client handler has claimed
  yet, with a count per source address. Every member function holds the mutex throughout, so each
  is one atomic function on the record. The two unordered maps are HOL maps; \<open>operator[]\<close> on
  the counts inserts a zero where there was no entry. The interface a client of the registry
  relies on is the locale \<open>fd_registry\<close>.
\<close>

section \<open>Definitions\<close>

record session_entry =
  fd :: int
  entry_ip :: string

record registry =
  max_per_ip :: u32
  reg_sessions :: "string \<rightharpoonup> session_entry"
  ip_counts :: "string \<rightharpoonup> u32"

definition new_registry :: "u32 \<Rightarrow> registry" where
  "new_registry limit = \<lparr>max_per_ip = limit, reg_sessions = Map.empty, ip_counts = Map.empty\<rparr>"

text \<open>\<open>auto& cnt = ip_counts_[ip]\<close>: the referenced value, with the entry made present.\<close>

definition ip_ref :: "string \<Rightarrow> registry \<Rightarrow> u32 \<times> registry" where
  "ip_ref ip r =
     (let cnt = (case ip_counts r ip of Some n \<Rightarrow> n | None \<Rightarrow> 0)
      in (cnt, r\<lparr>ip_counts := (ip_counts r)(ip \<mapsto> cnt)\<rparr>))"

definition add :: "string \<Rightarrow> int \<Rightarrow> string \<Rightarrow> registry \<Rightarrow> bool \<times> registry" where
  "add uuid fd' client_ip r =
     (let (cnt, r) = ip_ref client_ip r
      in if max_per_ip r \<le> cnt then (False, r)
         else (True, r\<lparr>reg_sessions := (reg_sessions r)(uuid \<mapsto> \<lparr>fd = fd', entry_ip = client_ip\<rparr>),
                       ip_counts := (ip_counts r)(client_ip \<mapsto> cnt + 1)\<rparr>))"

definition claim_fd :: "string \<Rightarrow> registry \<Rightarrow> int option \<times> registry" where
  "claim_fd uuid r =
     (case reg_sessions r uuid of
        None \<Rightarrow> (None, r)
      | Some it \<Rightarrow>
          let (cnt, r) = ip_ref (entry_ip it) r;
              r = (if 0 < cnt then r\<lparr>ip_counts := (ip_counts r)(entry_ip it \<mapsto> cnt - 1)\<rparr> else r)
          in (Some (fd it), r\<lparr>reg_sessions := (reg_sessions r)(uuid := None)\<rparr>))"

definition remove :: "string \<Rightarrow> registry \<Rightarrow> registry" where
  "remove uuid r =
     (case reg_sessions r uuid of
        None \<Rightarrow> r
      | Some it \<Rightarrow>
          let (cnt, r) = ip_ref (entry_ip it) r;
              r = (if 0 < cnt then r\<lparr>ip_counts := (ip_counts r)(entry_ip it \<mapsto> cnt - 1)\<rparr> else r)
          in r\<lparr>reg_sessions := (reg_sessions r)(uuid := None)\<rparr>)"

definition count :: "string \<Rightarrow> registry \<Rightarrow> u32" where
  "count ip r = (case ip_counts r ip of Some n \<Rightarrow> n | None \<Rightarrow> 0)"

definition set_max_per_ip :: "u32 \<Rightarrow> registry \<Rightarrow> registry" where
  "set_max_per_ip limit r = r\<lparr>max_per_ip := limit\<rparr>"

subsection \<open>Abstract registry\<close>

text \<open>
  What the registry promises: a limit and the unclaimed sockets. The number of an address's
  sockets is not stored but counted.
\<close>

definition from_ip :: "string \<Rightarrow> (string \<rightharpoonup> session_entry) \<Rightarrow> string set" where
  "from_ip ip m = {u. \<exists>it. m u = Some it \<and> entry_ip it = ip}"

definition spec_add ::
    "u32 \<Rightarrow> string \<Rightarrow> int \<Rightarrow> string \<Rightarrow> (string \<rightharpoonup> session_entry) \<Rightarrow> bool \<times> (string \<rightharpoonup> session_entry)" where
  "spec_add limit uuid fd' ip m =
     (if unat limit \<le> card (from_ip ip m) then (False, m)
      else (True, m(uuid \<mapsto> \<lparr>fd = fd', entry_ip = ip\<rparr>)))"

definition spec_claim ::
    "string \<Rightarrow> (string \<rightharpoonup> session_entry) \<Rightarrow> int option \<times> (string \<rightharpoonup> session_entry)" where
  "spec_claim uuid m = (map_option fd (m uuid), m(uuid := None))"

definition pending_fd :: "registry \<Rightarrow> string \<Rightarrow> int option" where
  "pending_fd r u = map_option fd (reg_sessions r u)"

definition registry_inv :: "registry \<Rightarrow> bool" where
  "registry_inv r \<longleftrightarrow>
     finite (dom (reg_sessions r))
     \<and> (\<forall>ip. unat (count ip r) = card (from_ip ip (reg_sessions r)))"

subsection \<open>Operation sequences\<close>

datatype registry_op =
    Add string int string
  | Claim string
  | Remove string
  | Set_max u32

fun apply_op :: "registry_op \<Rightarrow> registry \<Rightarrow> registry" where
  "apply_op (Add u f ip) r = snd (add u f ip r)"
| "apply_op (Claim u) r = snd (claim_fd u r)"
| "apply_op (Remove u) r = remove u r"
| "apply_op (Set_max m) r = set_max_per_ip m r"

text \<open>Session ids are never reused: an added id is not among the unclaimed ones.\<close>

fun fresh_ops :: "registry_op list \<Rightarrow> registry \<Rightarrow> bool" where
  "fresh_ops [] r \<longleftrightarrow> True"
| "fresh_ops (a # as) r \<longleftrightarrow>
     (case a of Add u f ip \<Rightarrow> reg_sessions r u = None | _ \<Rightarrow> True) \<and> fresh_ops as (apply_op a r)"

section \<open>Lemmas\<close>

subsection \<open>Counting\<close>

lemma from_ip_upd:
  "from_ip ip (m(u \<mapsto> it)) = (if entry_ip it = ip then insert u (from_ip ip m) else from_ip ip m - {u})"
  by (auto simp: from_ip_def)

lemma from_ip_del: "from_ip ip (m(u := None)) = from_ip ip m - {u}"
  by (auto simp: from_ip_def)

lemma from_ip_mem: "u \<in> from_ip ip m \<longleftrightarrow> (\<exists>it. m u = Some it \<and> entry_ip it = ip)"
  by (simp add: from_ip_def)

lemma finite_from_ip [intro]: "finite (dom m) \<Longrightarrow> finite (from_ip ip m)"
  by (rule finite_subset) (auto simp: from_ip_def)

lemma unat_pred: "0 < (n :: u32) \<Longrightarrow> unat (n - 1) = unat n - 1"
  by (simp add: unat_minus_one word_neq_0_conv)

lemma unat_succ:
  assumes "(n :: u32) < m"
  shows "unat (n + 1) = Suc (unat n)"
proof -
  have "Suc (unat n) < 2 ^ 32"
    using assms unsigned_less [of m, where ?'a = nat] by (simp add: word_less_nat_alt)
  then show ?thesis by (simp add: unat_word_ariths)
qed

subsection \<open>Each operation in terms of the two maps\<close>

lemma count_upd [simp]:
  "count ip (r\<lparr>ip_counts := m(ip' \<mapsto> n)\<rparr>) = (if ip = ip' then n else count ip (r\<lparr>ip_counts := m\<rparr>))"
  "count ip (r\<lparr>reg_sessions := f\<rparr>) = count ip r"
  "count ip (r\<lparr>max_per_ip := l\<rparr>) = count ip r"
  "count ip (r\<lparr>ip_counts := ip_counts r\<rparr>) = count ip r"
  by (simp_all add: count_def)

lemma ip_ref_eq: "ip_ref ip r = (count ip r, r\<lparr>ip_counts := (ip_counts r)(ip \<mapsto> count ip r)\<rparr>)"
  by (simp add: ip_ref_def count_def Let_def)

lemma add_eq:
  "add u f ip r =
    (if max_per_ip r \<le> count ip r then (False, r\<lparr>ip_counts := (ip_counts r)(ip \<mapsto> count ip r)\<rparr>)
     else (True, r\<lparr>ip_counts := (ip_counts r)(ip \<mapsto> count ip r + 1),
                   reg_sessions := (reg_sessions r)(u \<mapsto> \<lparr>fd = f, entry_ip = ip\<rparr>)\<rparr>))"
  by (simp add: add_def ip_ref_eq)

lemma claim_fd_eq:
  "claim_fd u r =
    (case reg_sessions r u of None \<Rightarrow> (None, r)
     | Some it \<Rightarrow> (Some (fd it),
         r\<lparr>ip_counts := (ip_counts r)(entry_ip it \<mapsto>
             (if 0 < count (entry_ip it) r then count (entry_ip it) r - 1 else count (entry_ip it) r)),
           reg_sessions := (reg_sessions r)(u := None)\<rparr>))"
  by (auto simp: claim_fd_def ip_ref_eq split: option.split)

lemma remove_claim: "remove u r = snd (claim_fd u r)"
  by (auto simp: remove_def claim_fd_def ip_ref_eq split: option.split)

lemma reg_sessions_ops [simp]:
  "reg_sessions (snd (claim_fd u r)) = (reg_sessions r)(u := None)"
  "fst (claim_fd u r) = map_option fd (reg_sessions r u)"
  by (auto simp: claim_fd_eq split: option.split)

subsection \<open>The counts stay exact\<close>

lemma add_inv:
  assumes "registry_inv r" and "reg_sessions r u = None"
  shows "registry_inv (snd (add u f ip r))"
proof (cases "max_per_ip r \<le> count ip r")
  case False
  have u: "u \<notin> from_ip i (reg_sessions r)" for i using assms(2) by (simp add: from_ip_mem)
  have "finite (from_ip ip (reg_sessions r))" using assms(1) by (auto simp: registry_inv_def)
  with u False assms(1) unat_succ [of "count ip r" "max_per_ip r"] show ?thesis
    by (simp add: registry_inv_def add_eq from_ip_upd not_le)
qed (use assms(1) in \<open>simp add: registry_inv_def add_eq\<close>)

lemma claim_inv:
  assumes "registry_inv r"
  shows "registry_inv (snd (claim_fd u r))"
proof (cases "reg_sessions r u")
  case (Some it)
  let ?F = "\<lambda>i. from_ip i (reg_sessions r)"
  have c: "unat (count i r) = card (?F i)" and fin: "finite (?F i)" for i
    using assms by (auto simp: registry_inv_def)
  have "u \<in> ?F (entry_ip it)" using Some by (simp add: from_ip_mem)
  then have "0 < card (?F (entry_ip it))" using fin card_gt_0_iff by blast
  then have pos: "0 < count (entry_ip it) r" using c [of "entry_ip it"] by (simp add: word_less_nat_alt)
  have "u \<notin> ?F i" if "i \<noteq> entry_ip it" for i using that Some by (simp add: from_ip_mem)
  with \<open>u \<in> ?F (entry_ip it)\<close> pos c fin assms show ?thesis
    by (auto simp: registry_inv_def claim_fd_eq Some from_ip_del unat_pred card_Diff_singleton_if)
qed (use assms in \<open>simp add: claim_fd_eq\<close>)

lemma set_max_inv: "registry_inv r \<Longrightarrow> registry_inv (set_max_per_ip limit r)"
  by (simp add: registry_inv_def set_max_per_ip_def)

lemma apply_op_inv:
  assumes "registry_inv r" and "fresh_ops [a] r"
  shows "registry_inv (apply_op a r)"
  using assms
  by (cases a) (simp_all add: add_inv claim_inv remove_claim set_max_inv)

lemma fold_ops_inv: "registry_inv r \<Longrightarrow> fresh_ops ops r \<Longrightarrow> registry_inv (fold apply_op ops r)"
proof (induction ops arbitrary: r)
  case (Cons a ops)
  then have "registry_inv (apply_op a r)" by (intro apply_op_inv) (auto split: registry_op.splits)
  with Cons show ?case by simp
qed simp

lemma new_registry_inv: "registry_inv (new_registry limit)"
  by (simp add: registry_inv_def new_registry_def count_def from_ip_def)

subsection \<open>Interface\<close>

text \<open>
  What a client relies on: a successful add makes the socket claimable, a failed one changes
  nothing, and a claim returns the socket and takes it out.
\<close>

locale fd_registry =
  fixes radd :: "'k \<Rightarrow> 'f \<Rightarrow> 'a \<Rightarrow> 'r \<Rightarrow> bool \<times> 'r"
    and rclaim :: "'k \<Rightarrow> 'r \<Rightarrow> 'f option \<times> 'r"
    and lookup :: "'r \<Rightarrow> 'k \<rightharpoonup> 'f"
  assumes lookup_add: "lookup (snd (radd k f a r)) = (if fst (radd k f a r) then (lookup r)(k \<mapsto> f) else lookup r)"
    and claim_result: "fst (rclaim k r) = lookup r k"
    and lookup_claim: "lookup (snd (rclaim k r)) = (lookup r)(k := None)"
begin

lemma claim_after_add: "fst (radd k f a r) \<Longrightarrow> fst (rclaim k (snd (radd k f a r))) = Some f"
  by (simp add: claim_result lookup_add)

lemma claim_twice: "fst (rclaim k (snd (rclaim k r))) = None"
  by (simp add: claim_result lookup_claim)

lemma unclaimed_add: "lookup r k = None \<Longrightarrow> k' \<noteq> k \<Longrightarrow> lookup (snd (radd k' f a r)) k = None"
  by (simp add: lookup_add)

lemma unclaimed_claim: "lookup r k = None \<Longrightarrow> lookup (snd (rclaim k' r)) k = None"
  by (simp add: lookup_claim)

end

interpretation reg: fd_registry add claim_fd pending_fd
  by unfold_locales (auto simp: pending_fd_def add_eq)

section \<open>Properties\<close>



text \<open>
  C29: refinement. While the counts are exact, add and claim_fd act on the unclaimed sockets as
  the abstract registry does, which has no counters: an add is refused exactly when the address
  already has as many unclaimed sockets as the limit.
\<close>

theorem registry_refines_spec:
  assumes "registry_inv r"
  shows "map_prod id reg_sessions (add u f ip r) = spec_add (max_per_ip r) u f ip (reg_sessions r)
    \<and> map_prod id reg_sessions (claim_fd u r) = spec_claim u (reg_sessions r)"
proof
  have "max_per_ip r \<le> count ip r \<longleftrightarrow> unat (max_per_ip r) \<le> card (from_ip ip (reg_sessions r))"
    using assms by (simp add: registry_inv_def word_le_nat_alt)
  then show "map_prod id reg_sessions (add u f ip r) = spec_add (max_per_ip r) u f ip (reg_sessions r)"
    by (simp add: add_eq spec_add_def)
  show "map_prod id reg_sessions (claim_fd u r) = spec_claim u (reg_sessions r)"
    by (simp add: spec_claim_def prod_eq_iff)
qed

theorem registry_refines_spec_witness:
  "registry_inv (new_registry 1) \<and>
   map_prod id reg_sessions (add ''u1'' 7 ''1.2.3.4'' (new_registry 1)) =
     spec_add 1 ''u1'' 7 ''1.2.3.4'' Map.empty"
  using registry_refines_spec [OF new_registry_inv [of 1], of "''u1''" 7 "''1.2.3.4''"]
  by (simp add: new_registry_inv) (simp add: new_registry_def)

text \<open>
  The per-address limit bounds the unclaimed sockets, not the sessions: with a limit of one,
  any number of sessions from one address is admitted when each is claimed before the next
  arrives, because claim_fd gives the slot back. The interface text calls this count the number
  of active sessions.
\<close>

theorem limit_does_not_bound_sessions:
  "fst (add u f ip (fold (\<lambda>u r. snd (claim_fd u (snd (add u f ip r)))) us (new_registry 1)))"
proof -
  have "count ip (fold (\<lambda>u r. snd (claim_fd u (snd (add u f ip r)))) us r) = 0
      \<and> max_per_ip (fold (\<lambda>u r. snd (claim_fd u (snd (add u f ip r)))) us r) = 1"
    if "count ip r = 0" and "max_per_ip r = 1" for r
    using that by (induction us arbitrary: r) (simp_all add: add_eq claim_fd_eq)
  from this [of "new_registry 1"] show ?thesis by (simp add: add_eq new_registry_def count_def)
qed

end
