(* ===== verification/Std_Map.thy ===== *)
theory Std_Map
  imports Smpp_Prelude "HOL-Library.List_Lexorder"
begin

text \<open>
  \<open>std::map\<close> as the sources use it: entries iterated in increasing key order, insertion by
  \<open>m[k] = v\<close>, \<open>find\<close> and \<open>erase\<close>. It is a list of entries with strictly increasing keys;
  strings compare lexicographically by character code, as \<open>std::string\<close> does. The interface a
  client relies on is the locale \<open>ordered_map\<close>.
\<close>

section \<open>Definitions\<close>

type_synonym ('k, 'v) std_map = "('k \<times> 'v) list"

fun std_find :: "('k :: linorder, 'v) std_map \<Rightarrow> 'k \<Rightarrow> 'v option" where
  "std_find [] k = None"
| "std_find ((a, v) # m) k = (if k = a then Some v else std_find m k)"

fun std_assign :: "'k :: linorder \<Rightarrow> 'v \<Rightarrow> ('k, 'v) std_map \<Rightarrow> ('k, 'v) std_map" where
  "std_assign k v [] = [(k, v)]"
| "std_assign k v ((a, w) # m) =
     (if k < a then (k, v) # (a, w) # m
      else if k = a then (k, v) # m
      else (a, w) # std_assign k v m)"

fun std_erase :: "'k :: linorder \<Rightarrow> ('k, 'v) std_map \<Rightarrow> ('k, 'v) std_map" where
  "std_erase k [] = []"
| "std_erase k ((a, w) # m) = (if k = a then m else (a, w) # std_erase k m)"

definition std_ordered :: "('k :: linorder, 'v) std_map \<Rightarrow> bool" where
  "std_ordered m \<longleftrightarrow> sorted_wrt (<) (map fst m)"

section \<open>Lemmas\<close>

subsection \<open>Interface\<close>

locale ordered_map =
  fixes find :: "'m \<Rightarrow> 'k :: linorder \<Rightarrow> 'v option"
    and assign :: "'k \<Rightarrow> 'v \<Rightarrow> 'm \<Rightarrow> 'm"
    and erase :: "'k \<Rightarrow> 'm \<Rightarrow> 'm"
    and entries :: "'m \<Rightarrow> ('k \<times> 'v) list"
    and ok :: "'m \<Rightarrow> bool"
  assumes find_assign: "ok m \<Longrightarrow> find (assign k v m) = (find m)(k \<mapsto> v)"
    and find_erase: "ok m \<Longrightarrow> find (erase k m) = (find m)(k := None)"
    and find_entries: "ok m \<Longrightarrow> find m = map_of (entries m)"
    and sorted_entries: "ok m \<Longrightarrow> sorted_wrt (<) (map fst (entries m))"
    and ok_assign: "ok m \<Longrightarrow> ok (assign k v m)"
    and ok_erase: "ok m \<Longrightarrow> ok (erase k m)"
begin

lemma distinct_keys: "ok m \<Longrightarrow> distinct (map fst (entries m))"
  by (drule sorted_entries) (simp add: strict_sorted_iff)

lemma entry_iff: "ok m \<Longrightarrow> (k, v) \<in> set (entries m) \<longleftrightarrow> find m k = Some v"
  by (simp add: find_entries distinct_keys)

text \<open>The first entry with a property has the least key among those with it.\<close>

lemma first_least:
  assumes "ok m" and "List.find P (entries m) = Some (k, v)"
  shows "P (k, v)" and "find m k = Some v"
    and "find m k' = Some v' \<Longrightarrow> P (k', v') \<Longrightarrow> k \<le> k'"
proof -
  from assms(2) obtain i where i: "i < length (entries m)" "entries m ! i = (k, v)" "P (k, v)"
      "\<forall>j<i. \<not> P (entries m ! j)"
    by (auto simp: find_Some_iff)
  show "P (k, v)" by (rule i)
  show "find m k = Some v" using assms(1) i by (metis entry_iff nth_mem)
  assume "find m k' = Some v'" and p: "P (k', v')"
  then obtain j where j: "j < length (entries m)" "entries m ! j = (k', v')"
    using assms(1) by (metis entry_iff in_set_conv_nth)
  with p i have "i \<le> j" by (metis not_le)
  then show "k \<le> k'"
    using sorted_wrt_nth_less [OF sorted_entries [OF assms(1)], of i j] i j
    by (cases "i = j") auto
qed

lemma first_none:
  assumes "ok m" and "List.find P (entries m) = None"
  shows "find m k = Some v \<Longrightarrow> \<not> P (k, v)"
  using assms by (auto simp: find_None_iff entry_iff [symmetric])

end

subsection \<open>The list satisfies it\<close>

lemma std_ordered_Cons [simp]:
  "std_ordered ((a, w) # m) \<longleftrightarrow> (\<forall>k \<in> fst ` set m. a < k) \<and> std_ordered m"
  by (auto simp: std_ordered_def)

lemma std_ordered_Nil [simp]: "std_ordered []"
  by (simp add: std_ordered_def)

lemma std_find_None: "k \<notin> fst ` set m \<Longrightarrow> std_find m k = None"
  by (induction m) auto

lemma keys_std_assign: "fst ` set (std_assign k v m) = insert k (fst ` set m)"
  by (induction k v m rule: std_assign.induct) auto

lemma keys_std_erase: "fst ` set (std_erase k m) \<subseteq> fst ` set m"
  by (induction k m rule: std_erase.induct) auto

lemma std_find_map_of: "std_find m = map_of m"
  by (induction m) auto

lemma std_find_assign: "std_ordered m \<Longrightarrow> std_find (std_assign k v m) = (std_find m)(k \<mapsto> v)"
  by (induction k v m rule: std_assign.induct) (auto simp: fun_eq_iff)

lemma std_find_erase: "std_ordered m \<Longrightarrow> std_find (std_erase k m) = (std_find m)(k := None)"
proof (induction k m rule: std_erase.induct)
  case (2 k a w m)
  then have "std_find m a = None" by (intro std_find_None) auto
  with 2 show ?case by (auto simp: fun_eq_iff)
qed (simp add: fun_eq_iff)

lemma std_ordered_assign: "std_ordered m \<Longrightarrow> std_ordered (std_assign k v m)"
  by (induction k v m rule: std_assign.induct) (auto simp: keys_std_assign)

lemma std_ordered_erase: "std_ordered m \<Longrightarrow> std_ordered (std_erase k m)"
  by (induction k m rule: std_erase.induct) (use keys_std_erase in fastforce)+

lemma std_ordered_entries: "std_ordered m \<Longrightarrow> sorted_wrt (<) (map fst m)"
  by (simp add: std_ordered_def)

interpretation std: ordered_map std_find std_assign std_erase "\<lambda>m. m" std_ordered
  by unfold_locales
    (rule std_find_assign std_find_erase std_find_map_of std_ordered_entries std_ordered_assign
      std_ordered_erase; assumption)+

end
