(* ===== verification/Server_Service.thy ===== *)
theory Server_Service
  imports Connection_Registry Std_Map
begin

text \<open>
  SMPPServer/src/smpp_server_service.cpp: the IServer D-Bus object. Its state is the registry of
  unclaimed sockets, the table of sessions in uuid order, and the SessionStarted signals sent.
  The client handlers it calls over D-Bus are a parameter: \<open>deliver\<close> and \<open>disconnect\<close> act on
  a world of the caller's choice, and a call that throws returns None or leaves the world as the
  callee left it.
\<close>

section \<open>Definitions\<close>

record session_info =
  info_ip :: string
  info_system_id :: string
  info_state :: string

record server =
  conn_registry :: registry
  svc_sessions :: "(string, session_info) std_map"
  started :: "(string \<times> string) list"

datatype server_error = NotFound string

definition new_server :: "u32 \<Rightarrow> server" where
  "new_server limit = \<lparr>conn_registry = new_registry limit, svc_sessions = [], started = []\<rparr>"

definition register_session :: "string \<Rightarrow> int \<Rightarrow> string \<Rightarrow> server \<Rightarrow> server" where
  "register_session uuid fd' client_ip s =
     (let (ok, r) = add uuid fd' client_ip (conn_registry s);
          s = s\<lparr>conn_registry := r\<rparr>
      in if \<not> ok then s
         else
           let s = s\<lparr>svc_sessions := std_assign uuid
                       \<lparr>info_ip = client_ip, info_system_id = [], info_state = ''OPEN''\<rparr> (svc_sessions s)\<rparr>
           in s\<lparr>started := started s @ [(uuid, client_ip)]\<rparr>)"

definition unregister_session :: "string \<Rightarrow> server \<Rightarrow> server" where
  "unregister_session uuid s = s\<lparr>svc_sessions := std_erase uuid (svc_sessions s)\<rparr>"

definition GetSocket :: "string \<Rightarrow> server \<Rightarrow> (server_error + int) \<times> server" where
  "GetSocket uuid s =
     (let (fd_opt, r) = claim_fd uuid (conn_registry s);
          s = s\<lparr>conn_registry := r\<rparr>
      in case fd_opt of None \<Rightarrow> (Inl (NotFound (''Unknown uuid: '' @ uuid)), s)
         | Some fd' \<Rightarrow> (Inr fd', s))"

definition UpdateSessionDetails :: "string \<Rightarrow> string \<Rightarrow> string \<Rightarrow> server \<Rightarrow> server" where
  "UpdateSessionDetails uuid system_id st s =
     (case std_find (svc_sessions s) uuid of
        None \<Rightarrow> s
      | Some it \<Rightarrow> s\<lparr>svc_sessions :=
          std_assign uuid (it\<lparr>info_system_id := system_id, info_state := st\<rparr>) (svc_sessions s)\<rparr>)"

definition GetConnectionCount :: "string \<Rightarrow> server \<Rightarrow> u32" where
  "GetConnectionCount ip s = count ip (conn_registry s)"

definition GetAllSessions :: "server \<Rightarrow> (string \<times> string \<times> string \<times> string) list" where
  "GetAllSessions s =
     map (\<lambda>(uuid, info). (uuid, info_ip info, info_system_id info, info_state info)) (svc_sessions s)"

definition SetMaxConnectionsPerIp :: "string \<Rightarrow> u32 \<Rightarrow> server \<Rightarrow> server" where
  "SetMaxConnectionsPerIp ip limit s = s\<lparr>conn_registry := set_max_per_ip limit (conn_registry s)\<rparr>"

definition client_service :: "string \<Rightarrow> string" where
  "client_service uuid = ''com.telecom.smpp.Client.'' @ uuid"

definition DisconnectAll ::
    "(string \<Rightarrow> string \<Rightarrow> 'w \<Rightarrow> 'w) \<Rightarrow> string \<Rightarrow> string \<Rightarrow> server \<Rightarrow> 'w \<Rightarrow> 'w" where
  "DisconnectAll disconnect ip reason s w =
     (let targets = map fst (filter (\<lambda>(uuid, info). info_ip info = ip) (svc_sessions s))
      in fold (\<lambda>uuid w. disconnect (client_service uuid) reason w) targets w)"

definition is_receiver :: "session_info \<Rightarrow> bool" where
  "is_receiver info \<longleftrightarrow> info_state info = ''BOUND_RX'' \<or> info_state info = ''BOUND_TRX''"

definition route_target :: "server \<Rightarrow> string" where
  "route_target s =
     (case List.find (\<lambda>(uuid, info). is_receiver info) (svc_sessions s) of
        None \<Rightarrow> [] | Some (uuid, info) \<Rightarrow> uuid)"

definition RouteMessage ::
    "(string \<Rightarrow> string \<Rightarrow> string \<Rightarrow> string \<Rightarrow> 'w \<Rightarrow> u32 option \<times> 'w) \<Rightarrow>
     string \<Rightarrow> string \<Rightarrow> string \<Rightarrow> string \<Rightarrow> server \<Rightarrow> 'w \<Rightarrow> string \<times> 'w" where
  "RouteMessage deliver src_addr dst_addr short_message message_id s w =
     (let target_uuid = route_target s
      in if target_uuid = [] then ([], w)
         else case deliver (client_service target_uuid) src_addr dst_addr short_message w of
             (None, w) \<Rightarrow> ([], w)
           | (Some seq, w) \<Rightarrow> (target_uuid, w))"

subsection \<open>Operation sequences\<close>

datatype server_op =
    Register string int string
  | Unregister string
  | Get_socket string
  | Update string string string
  | Set_limit string u32

fun server_step :: "server_op \<Rightarrow> server \<Rightarrow> server" where
  "server_step (Register u f ip) s = register_session u f ip s"
| "server_step (Unregister u) s = unregister_session u s"
| "server_step (Get_socket u) s = snd (GetSocket u s)"
| "server_step (Update u sid st) s = UpdateSessionDetails u sid st s"
| "server_step (Set_limit ip limit) s = SetMaxConnectionsPerIp ip limit s"

fun registers :: "string \<Rightarrow> server_op \<Rightarrow> bool" where
  "registers u (Register u' f ip) \<longleftrightarrow> u = u'"
| "registers u _ \<longleftrightarrow> False"

text \<open>The session table as a map, and the view of one session.\<close>

definition session_view :: "server \<Rightarrow> string \<Rightarrow> session_info option" where
  "session_view s = std_find (svc_sessions s)"

section \<open>Lemmas\<close>

lemma register_session_eq:
  "register_session u f ip s =
    (if fst (add u f ip (conn_registry s)) then
       s\<lparr>conn_registry := snd (add u f ip (conn_registry s)),
         svc_sessions := std_assign u \<lparr>info_ip = ip, info_system_id = [], info_state = ''OPEN''\<rparr> (svc_sessions s),
         started := started s @ [(u, ip)]\<rparr>
     else s\<lparr>conn_registry := snd (add u f ip (conn_registry s))\<rparr>)"
  by (simp add: register_session_def split_beta)

lemma GetSocket_eq:
  "GetSocket u s =
    (case pending_fd (conn_registry s) u of
       None \<Rightarrow> (Inl (NotFound (''Unknown uuid: '' @ u)), s\<lparr>conn_registry := snd (claim_fd u (conn_registry s))\<rparr>)
     | Some f \<Rightarrow> (Inr f, s\<lparr>conn_registry := snd (claim_fd u (conn_registry s))\<rparr>))"
  by (simp add: GetSocket_def split_beta Let_def pending_fd_def split: option.split)

lemma server_step_ordered:
  "std_ordered (svc_sessions s) \<Longrightarrow> std_ordered (svc_sessions (server_step a s))"
  by (cases a) (auto simp: register_session_eq unregister_session_def GetSocket_eq UpdateSessionDetails_def
      SetMaxConnectionsPerIp_def std.ok_assign std.ok_erase split: option.split)

lemma server_steps_ordered:
  "std_ordered (svc_sessions s) \<Longrightarrow> std_ordered (svc_sessions (fold server_step ops s))"
  by (induction ops arbitrary: s) (auto simp: server_step_ordered)

lemma pending_fd_set_max [simp]: "pending_fd (set_max_per_ip limit r) = pending_fd r"
  by (simp add: fun_eq_iff pending_fd_def set_max_per_ip_def)

lemmas server_step_defs = register_session_eq unregister_session_def GetSocket_eq UpdateSessionDetails_def
  SetMaxConnectionsPerIp_def

lemma server_step_unclaimed:
  assumes "pending_fd (conn_registry s) u = None" and "\<not> registers u a"
  shows "pending_fd (conn_registry (server_step a s)) u = None"
  using assms
  by (cases a) (auto simp: server_step_defs reg.unclaimed_add reg.unclaimed_claim split: option.split)

lemma server_steps_unclaimed:
  "pending_fd (conn_registry s) u = None \<Longrightarrow> list_all (\<lambda>a. \<not> registers u a) ops \<Longrightarrow>
    pending_fd (conn_registry (fold server_step ops s)) u = None"
  by (induction ops arbitrary: s) (auto simp: server_step_unclaimed)

lemma server_step_pending:
  assumes "pending_fd (conn_registry s) u = Some f" and "\<not> registers u a" and "a \<noteq> Get_socket u"
  shows "pending_fd (conn_registry (server_step a s)) u = Some f"
  using assms
  by (cases a) (auto simp: server_step_defs reg.lookup_add reg.lookup_claim split: option.split)

lemma server_steps_pending:
  "pending_fd (conn_registry s) u = Some f \<Longrightarrow> list_all (\<lambda>a. \<not> registers u a \<and> a \<noteq> Get_socket u) ops \<Longrightarrow>
    pending_fd (conn_registry (fold server_step ops s)) u = Some f"
  by (induction ops arbitrary: s) (auto simp: server_step_pending)

lemma new_server_ordered: "std_ordered (svc_sessions (fold server_step ops (new_server limit)))"
  by (rule server_steps_ordered) (simp add: new_server_def)

lemma route_target_least:
  assumes "std_ordered (svc_sessions s)" and "route_target s \<noteq> []"
  shows "\<exists>info. session_view s (route_target s) = Some info \<and> is_receiver info"
    and "session_view s u = Some info \<Longrightarrow> is_receiver info \<Longrightarrow> route_target s \<le> u"
proof -
  obtain i where f: "List.find (\<lambda>(uuid, info). is_receiver info) (svc_sessions s) = Some (route_target s, i)"
    using assms(2) by (auto simp: route_target_def split: option.splits)
  show "\<exists>info. session_view s (route_target s) = Some info \<and> is_receiver info"
    using std.first_least(1,2) [OF assms(1) f] by (auto simp: session_view_def)
  show "session_view s u = Some info \<Longrightarrow> is_receiver info \<Longrightarrow> route_target s \<le> u"
    using std.first_least(3) [OF assms(1) f] by (simp add: session_view_def)
qed

section \<open>Properties\<close>

text \<open>
  C17: one-time claim. A socket that was handed out by GetSocket is never handed out again under
  the same uuid, whatever registrations of other sessions, claims, updates, unregistrations and
  limit changes follow: the call fails with NotFound.
\<close>

theorem socket_claimed_once:
  assumes "fst (GetSocket u s) = Inr f" and "list_all (\<lambda>a. \<not> registers u a) ops"
  shows "fst (GetSocket u (fold server_step ops (snd (GetSocket u s)))) =
    Inl (NotFound (''Unknown uuid: '' @ u))"
proof -
  have "pending_fd (conn_registry (snd (GetSocket u s))) u = None"
    by (simp add: GetSocket_eq reg.lookup_claim split: option.split)
  from server_steps_unclaimed [OF this assms(2)] show ?thesis by (simp add: GetSocket_eq)
qed

theorem socket_claimed_once_witness:
  "fst (GetSocket ''u1'' (register_session ''u1'' 7 ''1.2.3.4'' (new_server 5))) = Inr 7 \<and>
   fst (GetSocket ''u1'' (fold server_step [Register ''u2'' 8 ''1.2.3.4'', Unregister ''u1'']
     (snd (GetSocket ''u1'' (register_session ''u1'' 7 ''1.2.3.4'' (new_server 5)))))) =
     Inl (NotFound ''Unknown uuid: u1'')"
proof -
  have "fst (GetSocket ''u1'' (register_session ''u1'' 7 ''1.2.3.4'' (new_server 5))) = Inr 7"
    by (simp add: GetSocket_eq register_session_eq add_eq new_server_def new_registry_def count_def pending_fd_def)
  with socket_claimed_once [OF this, of "[Register ''u2'' 8 ''1.2.3.4'', Unregister ''u1'']"]
  show ?thesis by simp
qed

text \<open>
  An accepted socket reaches its handler: after a registration that was not refused,
  GetSocket returns exactly that descriptor, however many operations on other sessions came
  between.
\<close>

theorem registered_socket_is_returned:
  assumes "fst (add u f ip (conn_registry s))"
    and "list_all (\<lambda>a. \<not> registers u a \<and> a \<noteq> Get_socket u) ops"
  shows "fst (GetSocket u (fold server_step ops (register_session u f ip s))) = Inr f"
proof -
  have "pending_fd (conn_registry (register_session u f ip s)) u = Some f"
    using assms(1) by (simp add: register_session_eq reg.lookup_add)
  from server_steps_pending [OF this assms(2)] show ?thesis by (simp add: GetSocket_eq)
qed

theorem registered_socket_is_returned_witness:
  "fst (add ''u1'' 7 ''1.2.3.4'' (conn_registry (new_server 5))) \<and>
   fst (GetSocket ''u1'' (fold server_step [Update ''u1'' ''e'' ''BOUND_TX'', Get_socket ''u2'']
     (register_session ''u1'' 7 ''1.2.3.4'' (new_server 5)))) = Inr 7"
proof -
  have "fst (add ''u1'' 7 ''1.2.3.4'' (conn_registry (new_server 5)))"
    by (simp add: add_eq new_server_def new_registry_def count_def)
  with registered_socket_is_returned [OF this, of "[Update ''u1'' ''e'' ''BOUND_TX'', Get_socket ''u2'']"]
  show ?thesis by simp
qed

text \<open>
  C30: routing. When RouteMessage reports a session, that session is listed as BOUND_RX or
  BOUND_TRX, it is the first such session in uuid order, and its handler accepted exactly this
  message; no other handler was called.
\<close>

theorem route_to_first_receiver:
  fixes limit ops
  defines "s \<equiv> fold server_step ops (new_server limit)"
  assumes "RouteMessage deliver src dst msg i s w = (u, w')" and "u \<noteq> []"
  shows "(\<exists>info. session_view s u = Some info \<and> is_receiver info)
    \<and> (\<forall>u' info. session_view s u' = Some info \<and> is_receiver info \<longrightarrow> u \<le> u')
    \<and> (\<exists>seq. deliver (client_service u) src dst msg w = (Some seq, w'))"
proof -
  have t: "route_target s = u" and d: "\<exists>seq. deliver (client_service u) src dst msg w = (Some seq, w')"
    using assms(2,3) by (auto simp: RouteMessage_def Let_def split: if_splits prod.splits option.splits)
  have "std_ordered (svc_sessions s)" unfolding s_def by (rule new_server_ordered)
  from route_target_least [OF this] t d assms(3) show ?thesis by auto
qed

theorem route_to_first_receiver_witness:
  "RouteMessage (\<lambda>svc src dst msg (w :: string list). (Some 1, w @ [svc])) ''1'' ''2'' ''hi'' ''id''
     (fold server_step [Register ''b'' 7 ''1.2.3.4'', Update ''b'' ''e'' ''BOUND_RX''] (new_server 5)) [] =
     (''b'', [client_service ''b'']) \<and>
   (\<exists>info. session_view (fold server_step [Register ''b'' 7 ''1.2.3.4'', Update ''b'' ''e'' ''BOUND_RX''] (new_server 5)) ''b''
      = Some info \<and> is_receiver info)"
proof -
  have "RouteMessage (\<lambda>svc src dst msg (w :: string list). (Some 1, w @ [svc])) ''1'' ''2'' ''hi'' ''id''
     (fold server_step [Register ''b'' 7 ''1.2.3.4'', Update ''b'' ''e'' ''BOUND_RX''] (new_server 5)) [] =
     (''b'', [client_service ''b''])"
    by (simp add: RouteMessage_def route_target_def register_session_eq add_eq new_server_def new_registry_def
        count_def UpdateSessionDetails_def is_receiver_def Let_def)
  from route_to_first_receiver [OF this] this show ?thesis by simp
qed

text \<open>
  RouteMessage tries one receiver only. If the handler of the first listed receiver does not
  accept the message, the message is reported as not routed, even when another receiver is
  listed; a session that ended stays listed because nothing unregisters it.
\<close>

theorem route_gives_up:
  assumes "fst (deliver (client_service (route_target s)) src dst msg w) = None"
  shows "fst (RouteMessage deliver src dst msg i s w) = []"
  using assms by (auto simp: RouteMessage_def Let_def split: prod.splits option.splits)

theorem route_gives_up_witness:
  "is_receiver \<lparr>info_ip = ''1.2.3.4'', info_system_id = ''e'', info_state = ''BOUND_RX''\<rparr> \<and>
   fst (RouteMessage (\<lambda>svc src dst msg w. (if svc = client_service ''b'' then Some 1 else None, w)) ''1'' ''2'' ''hi'' ''id''
     \<lparr>conn_registry = new_registry 5,
      svc_sessions = [(''a'', \<lparr>info_ip = ''1.2.3.4'', info_system_id = ''e'', info_state = ''BOUND_RX''\<rparr>),
                      (''b'', \<lparr>info_ip = ''1.2.3.4'', info_system_id = ''e'', info_state = ''BOUND_RX''\<rparr>)],
      started = []\<rparr> ()) = []"
  by (intro conjI route_gives_up) (simp_all add: is_receiver_def route_target_def client_service_def)

text \<open>
  GetAllSessions is a snapshot of the session table: every session once, in uuid order, with
  the details last reported for it.
\<close>

theorem get_all_sessions_snapshot:
  fixes limit ops
  defines "s \<equiv> fold server_step ops (new_server limit)"
  shows "sorted_wrt (<) (map fst (GetAllSessions s))
    \<and> set (GetAllSessions s) =
      {(u, info_ip info, info_system_id info, info_state info) |u info. session_view s u = Some info}"
proof -
  have o: "std_ordered (svc_sessions s)" unfolding s_def by (rule new_server_ordered)
  have "map fst (GetAllSessions s) = map fst (svc_sessions s)"
    by (simp add: GetAllSessions_def split_beta comp_def)
  moreover have "set (GetAllSessions s) =
      {(u, info_ip info, info_system_id info, info_state info) |u info. (u, info) \<in> set (svc_sessions s)}"
    by (force simp: GetAllSessions_def)
  ultimately show ?thesis using std.sorted_entries [OF o] std.entry_iff [OF o] by (simp add: session_view_def)
qed

text \<open>
  DisconnectAll calls the handler of every listed session of the address exactly once, in
  uuid order, and no other handler.
\<close>

theorem disconnect_all_targets:
  fixes limit ops
  defines "s \<equiv> fold server_step ops (new_server limit)"
  shows "\<exists>us. DisconnectAll (\<lambda>svc r calls. calls @ [(svc, r)]) ip reason s [] = map (\<lambda>u. (client_service u, reason)) us
    \<and> sorted_wrt (<) us
    \<and> set us = {u. \<exists>info. session_view s u = Some info \<and> info_ip info = ip}"
proof -
  define us where "us = map fst (filter (\<lambda>(uuid, info). info_ip info = ip) (svc_sessions s))"
  have o: "std_ordered (svc_sessions s)" unfolding s_def by (rule new_server_ordered)
  have "fold (\<lambda>u calls. calls @ [(client_service u, reason)]) us cs = cs @ map (\<lambda>u. (client_service u, reason)) us" for cs
    by (induction us arbitrary: cs) auto
  then have "DisconnectAll (\<lambda>svc r calls. calls @ [(svc, r)]) ip reason s [] = map (\<lambda>u. (client_service u, reason)) us"
    by (simp add: DisconnectAll_def us_def)
  moreover have "sorted_wrt (<) us"
    using std.sorted_entries [OF o] unfolding us_def sorted_wrt_map by (rule sorted_wrt_filter)
  moreover have "set us = {u. \<exists>info. session_view s u = Some info \<and> info_ip info = ip}"
    using std.entry_iff [OF o] by (force simp: us_def session_view_def)
  ultimately show ?thesis by blast
qed

end
