(* ===== verification/Ip_Validator.thy ===== *)
theory Ip_Validator
  imports Smpp_Prelude
begin

text \<open>
  SMPPServer/src/ip_validator.cpp: the address whitelist, with exact addresses and IPv4 CIDR
  ranges read from a text file. The file is its list of lines, or None when it cannot be opened.
  The C library's inet_pton for AF_INET is the parameter \<open>pton\<close>: the four bytes of an address
  in network order, or None for a string it rejects. \<open>std::stoi\<close> is modelled with its two
  exceptions, which leave load_config in the middle of the file.
\<close>

section \<open>Definitions\<close>

subsection \<open>String helpers\<close>

definition isspace :: "char \<Rightarrow> bool" where
  "isspace c \<longleftrightarrow> of_char c \<in> {32, 9, 10, 11, 12, 13 :: nat}"

definition trim :: "string \<Rightarrow> string" where
  "trim s = rev (dropWhile isspace (rev (dropWhile isspace s)))"

definition isdigit :: "char \<Rightarrow> bool" where
  "isdigit c \<longleftrightarrow> 48 \<le> (of_char c :: nat) \<and> (of_char c :: nat) \<le> 57"

fun digits_value :: "nat \<Rightarrow> string \<Rightarrow> nat" where
  "digits_value acc [] = acc"
| "digits_value acc (c # cs) = digits_value (10 * acc + (of_char c - 48)) cs"

datatype stoi_error = Invalid_argument | Out_of_range

text \<open>
  \<open>std::stoi\<close>: leading white space, an optional sign and the longest run of digits; what follows
  is ignored, no digits and a value outside \<open>int\<close> throw.
\<close>

definition stoi :: "string \<Rightarrow> stoi_error + int" where
  "stoi s =
     (let s = dropWhile isspace s;
          (neg, s) = (case s of CHR ''-'' # r \<Rightarrow> (True, r) | CHR ''+'' # r \<Rightarrow> (False, r) | _ \<Rightarrow> (False, s));
          ds = takeWhile isdigit s
      in if ds = [] then Inl Invalid_argument
         else
           let n = int (digits_value 0 ds); n = (if neg then - n else n)
           in if n < - (2 ^ 31) \<or> 2 ^ 31 - 1 < n then Inl Out_of_range else Inr n)"

subsection \<open>The validator\<close>

record cidr_v4 =
  network :: u32
  mask_bits :: u32

record ip_validator =
  exact_set :: "string set"
  cidrs :: "cidr_v4 list"

datatype load_error = Cannot_open | Bad_prefix stoi_error

type_synonym inet_pton = "string \<Rightarrow> (byte \<times> byte \<times> byte \<times> byte) option"

text \<open>\<open>ntohl\<close> of the address bytes.\<close>

definition parse_ipv4 :: "inet_pton \<Rightarrow> string \<Rightarrow> u32 option" where
  "parse_ipv4 pton s =
     (case pton s of None \<Rightarrow> None | Some (b0, b1, b2, b3) \<Rightarrow> Some (be_join b0 b1 b2 b3))"

definition prefix_mask :: "nat \<Rightarrow> u32" where
  "prefix_mask prefix = (if prefix = 0 then 0 else push_bit (32 - prefix) (NOT 0))"

definition load_line :: "inet_pton \<Rightarrow> string \<Rightarrow> ip_validator \<Rightarrow> load_error option \<times> ip_validator" where
  "load_line pton line v =
     (let line = trim line
      in if line = [] \<or> hd line = CHR ''#'' then (None, v)
         else if CHR ''/'' \<in> set line then
           let network_str = takeWhile (\<lambda>c. c \<noteq> CHR ''/'') line;
               rest = tl (dropWhile (\<lambda>c. c \<noteq> CHR ''/'') line)
           in case stoi rest of
                Inl err \<Rightarrow> (Some (Bad_prefix err), v)
              | Inr prefix \<Rightarrow>
                  if prefix < 0 \<or> 32 < prefix then (None, v)
                  else case parse_ipv4 pton network_str of
                      None \<Rightarrow> (None, v)
                    | Some net \<Rightarrow>
                        let mask = prefix_mask (nat prefix)
                        in (None, v\<lparr>cidrs := cidrs v @ [\<lparr>network = net AND mask, mask_bits = mask\<rparr>]\<rparr>)
         else (None, v\<lparr>exact_set := insert line (exact_set v)\<rparr>))"

fun load_lines :: "inet_pton \<Rightarrow> string list \<Rightarrow> ip_validator \<Rightarrow> load_error option \<times> ip_validator" where
  "load_lines pton [] v = (None, v)"
| "load_lines pton (l # ls) v =
     (case load_line pton l v of
        (Some err, v) \<Rightarrow> (Some err, v)
      | (None, v) \<Rightarrow> load_lines pton ls v)"

definition load_config :: "inet_pton \<Rightarrow> string list option \<Rightarrow> ip_validator \<Rightarrow> load_error option \<times> ip_validator" where
  "load_config pton file v =
     (let v = v\<lparr>exact_set := {}, cidrs := []\<rparr>
      in case file of None \<Rightarrow> (Some Cannot_open, v) | Some ls \<Rightarrow> load_lines pton ls v)"

definition reload :: "inet_pton \<Rightarrow> string list option \<Rightarrow> ip_validator \<Rightarrow> load_error option \<times> ip_validator" where
  "reload pton file v = load_config pton file v"

definition matches_cidr :: "u32 \<Rightarrow> ip_validator \<Rightarrow> bool" where
  "matches_cidr addr v \<longleftrightarrow> list_ex (\<lambda>c. addr AND mask_bits c = network c) (cidrs v)"

definition is_allowed :: "inet_pton \<Rightarrow> string \<Rightarrow> ip_validator \<Rightarrow> bool" where
  "is_allowed pton ip v \<longleftrightarrow>
     (if ip \<in> exact_set v then True
      else case parse_ipv4 pton ip of None \<Rightarrow> False | Some addr \<Rightarrow> matches_cidr addr v)"

subsection \<open>Reference: what one line of the file allows\<close>

definition line_allows :: "inet_pton \<Rightarrow> string \<Rightarrow> string \<Rightarrow> bool" where
  "line_allows pton ip line \<longleftrightarrow>
     (let line = trim line
      in line \<noteq> [] \<and> hd line \<noteq> CHR ''#'' \<and>
         (if CHR ''/'' \<in> set line then
            case (stoi (tl (dropWhile (\<lambda>c. c \<noteq> CHR ''/'') line)),
                  parse_ipv4 pton (takeWhile (\<lambda>c. c \<noteq> CHR ''/'') line), parse_ipv4 pton ip) of
              (Inr prefix, Some net, Some addr) \<Rightarrow>
                0 \<le> prefix \<and> prefix \<le> 32
                \<and> drop_bit (32 - nat prefix) addr = drop_bit (32 - nat prefix) net
            | _ \<Rightarrow> False
          else ip = line))"

definition empty_validator :: ip_validator where
  "empty_validator = \<lparr>exact_set = {}, cidrs = []\<rparr>"

text \<open>An address parser that knows three addresses, for the examples.\<close>

definition example_pton :: inet_pton where
  "example_pton s =
     (if s = ''10.0.0.0'' then Some (10, 0, 0, 0)
      else if s = ''10.1.2.3'' then Some (10, 1, 2, 3)
      else if s = ''127.0.0.1'' then Some (127, 0, 0, 1)
      else None)"

definition example_validator :: ip_validator where
  "example_validator =
     \<lparr>exact_set = {''127.0.0.1''}, cidrs = [\<lparr>network = 0x0A000000, mask_bits = 0xFF000000\<rparr>]\<rparr>"

section \<open>Lemmas\<close>

subsection \<open>Masks\<close>

lemma and_high_mask:
  fixes a b :: u32
  shows "a AND NOT (mask k) = b AND NOT (mask k) \<longleftrightarrow> drop_bit k a = drop_bit k b"
proof
  assume h: "a AND NOT (mask k) = b AND NOT (mask k)"
  have "bit a (n + k) = bit b (n + k)" for n
  proof (cases "n + k < 32")
    case True
    then show ?thesis using h by (auto simp: bit_eq_iff bit_simps dest: spec [of _ "n + k"])
  next
    case False
    then show ?thesis using bit_imp_le_length [of a "n + k"] bit_imp_le_length [of b "n + k"] by auto
  qed
  then show "drop_bit k a = drop_bit k b" by (auto simp: bit_eq_iff bit_simps add.commute)
next
  assume h: "drop_bit k a = drop_bit k b"
  have "bit a n = bit b n" if "k \<le> n" for n
  proof -
    have "bit (drop_bit k a) (n - k) = bit (drop_bit k b) (n - k)" using h by simp
    with that show ?thesis by (simp add: bit_simps)
  qed
  then show "a AND NOT (mask k) = b AND NOT (mask k)"
    by (auto simp: bit_eq_iff bit_simps)
qed

lemma prefix_mask_match:
  assumes "p \<le> 32"
  shows "a AND prefix_mask p = b AND prefix_mask p \<longleftrightarrow> drop_bit (32 - p) a = drop_bit (32 - p) b"
proof (cases "p = 0")
  case True
  have "drop_bit 32 (x :: u32) = 0" for x by (simp add: bit_eq_iff bit_simps)
  then show ?thesis by (simp add: prefix_mask_def True)
qed (simp add: prefix_mask_def and_high_mask)

subsection \<open>Loading\<close>

lemma is_allowed_iff:
  "is_allowed pton ip v \<longleftrightarrow>
    ip \<in> exact_set v \<or> (\<exists>addr. parse_ipv4 pton ip = Some addr \<and> matches_cidr addr v)"
  by (auto simp: is_allowed_def split: option.split)

lemma load_line_allows:
  assumes "load_line pton l v = (None, v')"
  shows "is_allowed pton ip v' \<longleftrightarrow> is_allowed pton ip v \<or> line_allows pton ip l"
proof -
  let ?l = "trim l" and ?rest = "tl (dropWhile (\<lambda>c. c \<noteq> CHR ''/'') (trim l))"
    and ?net = "parse_ipv4 pton (takeWhile (\<lambda>c. c \<noteq> CHR ''/'') (trim l))"
  consider "?l = [] \<or> hd ?l = CHR ''#''" | "?l \<noteq> []" "hd ?l \<noteq> CHR ''#''" "CHR ''/'' \<notin> set ?l"
    | p where "?l \<noteq> []" "hd ?l \<noteq> CHR ''#''" "CHR ''/'' \<in> set ?l" "stoi ?rest = Inr p"
    using assms by (auto simp: load_line_def Let_def split: if_splits sum.splits)
  then show ?thesis
  proof cases
    case (3 p)
    consider "p < 0 \<or> 32 < p" | "0 \<le> p" "p \<le> 32" "?net = None"
      | net where "0 \<le> p" "p \<le> 32" "?net = Some net"
      by fastforce
    then show ?thesis
    proof cases
      case (3 net)
      with \<open>?l \<noteq> []\<close> \<open>hd ?l \<noteq> CHR ''#''\<close> \<open>CHR ''/'' \<in> set ?l\<close> \<open>stoi ?rest = Inr p\<close> assms
      have v': "v' = v\<lparr>cidrs := cidrs v @ [\<lparr>network = net AND prefix_mask (nat p), mask_bits = prefix_mask (nat p)\<rparr>]\<rparr>"
        by (simp add: load_line_def Let_def)
      have "line_allows pton ip l \<longleftrightarrow> (\<exists>addr. parse_ipv4 pton ip = Some addr
          \<and> addr AND prefix_mask (nat p) = net AND prefix_mask (nat p))"
        using 3 \<open>?l \<noteq> []\<close> \<open>hd ?l \<noteq> CHR ''#''\<close> \<open>CHR ''/'' \<in> set ?l\<close> \<open>stoi ?rest = Inr p\<close>
        by (simp add: line_allows_def Let_def prefix_mask_match split: option.split)
      then show ?thesis by (auto simp: v' is_allowed_iff matches_cidr_def)
    qed (use 3 assms in \<open>auto simp: load_line_def line_allows_def split: option.split\<close>)
  qed (use assms in \<open>auto simp: load_line_def line_allows_def is_allowed_iff matches_cidr_def\<close>)
qed

lemma load_lines_allows:
  "load_lines pton ls v = (None, v') \<Longrightarrow>
    is_allowed pton ip v' \<longleftrightarrow> is_allowed pton ip v \<or> list_ex (line_allows pton ip) ls"
proof (induction ls arbitrary: v)
  case (Cons l ls)
  then obtain w where "load_line pton l v = (None, w)" "load_lines pton ls w = (None, v')"
    by (auto split: prod.splits option.splits)
  with Cons.IH [of w] load_line_allows [of pton l v w ip] show ?case by auto
qed simp

lemma load_line_error: "load_line pton l v = (Some err, v') \<Longrightarrow> v' = v"
  by (auto simp: load_line_def Let_def split: if_splits sum.splits option.splits)

lemma load_lines_append:
  "load_lines pton (xs @ ys) v =
    (case load_lines pton xs v of (Some err, v) \<Rightarrow> (Some err, v) | (None, v) \<Rightarrow> load_lines pton ys v)"
  by (induction xs arbitrary: v) (auto split: prod.split option.split)

lemma empty_denies: "\<not> is_allowed pton ip (v\<lparr>exact_set := {}, cidrs := []\<rparr>)"
  by (simp add: is_allowed_iff matches_cidr_def)

section \<open>Properties\<close>

text \<open>
  C14: the whitelist means what its file says. After a file has been loaded without an exception,
  an address is allowed exactly when some line of the file allows it: an exact entry equal to
  it, or a CIDR entry with a prefix length from 0 to 32 whose network agrees with the address in
  the leading prefix bits. Comments, blank lines and invalid entries allow nothing, and the
  previous content of the validator does not matter.
\<close>

theorem whitelist_means_file:
  assumes "load_config pton (Some ls) v = (None, v')"
  shows "is_allowed pton ip v' \<longleftrightarrow> list_ex (line_allows pton ip) ls"
  using assms load_lines_allows [of pton ls "v\<lparr>exact_set := {}, cidrs := []\<rparr>" v' ip] empty_denies
  by (simp add: load_config_def)

theorem whitelist_means_file_witness:
  "load_config example_pton (Some [''# hosts'', ''127.0.0.1'', ''10.0.0.0/8'']) empty_validator =
     (None, example_validator) \<and>
   is_allowed example_pton ''10.1.2.3'' example_validator =
     list_ex (line_allows example_pton ''10.1.2.3'') [''# hosts'', ''127.0.0.1'', ''10.0.0.0/8'']"
proof -
  have "load_config example_pton (Some [''# hosts'', ''127.0.0.1'', ''10.0.0.0/8'']) empty_validator =
     (None, example_validator)"
    by code_simp
  from this whitelist_means_file [OF this] show ?thesis by blast
qed

text \<open>
  C37: a failed load fails closed. When the file cannot be opened no address is allowed, not even
  those of the previous file.
\<close>

theorem missing_file_denies:
  "fst (reload pton None v) = Some Cannot_open \<and> \<not> is_allowed pton ip (snd (reload pton None v))"
  by (simp add: reload_def load_config_def empty_denies)

text \<open>
  A CIDR line whose prefix is not a number aborts the reload at that line: the exception
  leaves a validator that holds the lines before it and none of those after it.
\<close>

theorem bad_prefix_truncates:
  assumes "load_config pton (Some xs) v = (None, v')" and "load_line pton bad v' = (Some err, v'')"
  shows "reload pton (Some (xs @ bad # ys)) v = (Some err, v')"
  using assms load_line_error [OF assms(2)] by (simp add: reload_def load_config_def load_lines_append)

theorem bad_prefix_truncates_witness:
  "load_config example_pton (Some [''# hosts'', ''127.0.0.1'', ''10.0.0.0/8'']) empty_validator =
     (None, example_validator) \<and>
   reload example_pton (Some ([''# hosts'', ''127.0.0.1'', ''10.0.0.0/8''] @ ''10.0.0.0/x'' # [''::1''])) empty_validator =
     (Some (Bad_prefix Invalid_argument), example_validator)"
proof -
  have "load_config example_pton (Some [''# hosts'', ''127.0.0.1'', ''10.0.0.0/8'']) empty_validator =
     (None, example_validator)"
    by code_simp
  moreover have "load_line example_pton ''10.0.0.0/x'' example_validator =
      (Some (Bad_prefix Invalid_argument), example_validator)"
    by code_simp
  ultimately show ?thesis by (intro conjI bad_prefix_truncates)
qed

text \<open>
  An address that inet_pton rejects for AF_INET, as it does every address with a colon, is
  allowed only by an exact entry. The listening socket is dual-stack, so an IPv4 client appears
  as ::ffff:a.b.c.d and no CIDR range applies to it.
\<close>

theorem mapped_address_needs_exact_entry:
  assumes pton_dotted: "\<And>s. CHR '':'' \<in> set s \<Longrightarrow> pton s = None"
    and "CHR '':'' \<in> set ip"
  shows "is_allowed pton ip v \<longleftrightarrow> ip \<in> exact_set v"
  using pton_dotted [OF assms(2)] by (simp add: is_allowed_iff parse_ipv4_def)

theorem mapped_address_needs_exact_entry_witness:
  "is_allowed example_pton ''::ffff:10.1.2.3'' example_validator \<longleftrightarrow>
     ''::ffff:10.1.2.3'' \<in> exact_set example_validator"
  by (rule mapped_address_needs_exact_entry) (auto simp: example_pton_def)

end
