(* ===== verification/Session_Launch.thy ===== *)
theory Session_Launch
  imports Client_Session Server_Service Ip_Validator
begin

text \<open>
  From an accepted connection to a client handler process: the session id of
  SMPPServer/include/session_id.hpp, the command line of SMPPServer/src/session_launcher.cpp and
  handle_connection of SMPPServer/src/tcp_server.cpp. The clock reading, the random number, the
  answer of \<open>remote_endpoint\<close> and \<open>std::system\<close> are arguments. A socket object that is not
  released closes its descriptor when the handler returns.
\<close>

section \<open>Definitions\<close>

subsection \<open>Session ids\<close>

definition generate_session_id :: "u64 \<Rightarrow> u64 \<Rightarrow> string" where
  "generate_session_id ts rnd =
     setw_fill0 12 (hex_stream (unat (ts AND 0x0000FFFFFFFFFFFF)))
     @ ''-''
     @ setw_fill0 16 (hex_stream (unat rnd))"

subsection \<open>Launching\<close>

definition HANDLER_BIN :: string where
  "HANDLER_BIN = ''/usr/local/bin/smpp_client_handler''"

definition build_launch_command :: "string \<Rightarrow> string \<Rightarrow> string" where
  "build_launch_command uid ip =
     ''systemd-run''
     @ '' --unit=smpp-client-'' @ uid
     @ '' --collect''
     @ '' --property=User=smpp-client''
     @ '' '' @ HANDLER_BIN
     @ '' --uuid='' @ uid
     @ '' --client-ip='' @ ip"

definition launch_client_handler :: "(string \<Rightarrow> int) \<Rightarrow> string \<Rightarrow> string \<Rightarrow> bool" where
  "launch_client_handler sys uid ip =
     (let rc = sys (build_launch_command uid ip) in if rc \<noteq> 0 then False else True)"

subsection \<open>Accepting\<close>

record tcp_server =
  service :: server
  validator :: ip_validator
  closed_fds :: "int list"
  released_fds :: "int list"
  launched :: "(string \<times> string) list"

definition handle_connection ::
    "inet_pton \<Rightarrow> (string \<Rightarrow> int) \<Rightarrow> string option \<Rightarrow> int \<Rightarrow> u64 \<Rightarrow> u64 \<Rightarrow> tcp_server \<Rightarrow> tcp_server" where
  "handle_connection pton sys remote raw_fd ts rnd t =
     (case remote of
        None \<Rightarrow> t\<lparr>closed_fds := closed_fds t @ [raw_fd]\<rparr>
      | Some ip \<Rightarrow>
          if \<not> is_allowed pton ip (validator t) then t\<lparr>closed_fds := closed_fds t @ [raw_fd]\<rparr>
          else
            let uid = generate_session_id ts rnd;
                t = t\<lparr>service := register_session uid raw_fd ip (service t)\<rparr>;
                t = t\<lparr>released_fds := released_fds t @ [raw_fd]\<rparr>
            in if launch_client_handler sys uid ip
               then t\<lparr>launched := launched t @ [(uid, ip)]\<rparr> else t)"

subsection \<open>Vocabulary of the properties\<close>

text \<open>Characters that are not special to the shell in an unquoted word, and the space.\<close>

definition shell_plain :: "char \<Rightarrow> bool" where
  "shell_plain c \<longleftrightarrow> c \<in> set ''abcdefghijklmnopqrstuvwxyzABCDEFGHIJKLMNOPQRSTUVWXYZ0123456789-_=/.:% ''"

text \<open>Characters of a printed address: digits, letters of a hexadecimal group or of a scope name.\<close>

definition address_char :: "char \<Rightarrow> bool" where
  "address_char c \<longleftrightarrow> c \<in> set ''abcdefghijklmnopqrstuvwxyzABCDEFGHIJKLMNOPQRSTUVWXYZ0123456789-_.:%''"

text \<open>
  An element of a well-known bus name according to the D-Bus specification: not empty, of letters,
  digits, underscores and hyphens, and not beginning with a digit.
\<close>

definition bus_element_ok :: "string \<Rightarrow> bool" where
  "bus_element_ok s \<longleftrightarrow>
     s \<noteq> [] \<and> hd s \<notin> set ''0123456789''
     \<and> list_all (\<lambda>c. c \<in> set ''abcdefghijklmnopqrstuvwxyzABCDEFGHIJKLMNOPQRSTUVWXYZ0123456789-_'') s"

section \<open>Lemmas\<close>

lemma ts_bound: "unat (ts AND 0x0000FFFFFFFFFFFF :: u64) < 16 ^ 12"
proof -
  have "(ts AND 0x0000FFFFFFFFFFFF :: u64) \<le> 0x0000FFFFFFFFFFFF" by (rule word_and_le1)
  then show ?thesis by (simp add: word_le_nat_alt)
qed

lemma generate_session_id_eq:
  "generate_session_id ts rnd =
    hex_fixed 12 (unat (ts AND 0x0000FFFFFFFFFFFF)) @ ''-'' @ hex_fixed 16 (unat rnd)"
  using ts_bound [of ts] unsigned_less [of rnd, where ?'a = nat]
  by (simp add: generate_session_id_def setw_hex)

lemma length_session_id [simp]: "length (generate_session_id ts rnd) = 29"
  by (simp add: generate_session_id_eq)

lemma hex_plain: "is_hex_char c \<Longrightarrow> shell_plain c"
  by (auto simp: is_hex_char_def shell_plain_def)

lemma address_plain: "address_char c \<Longrightarrow> shell_plain c"
  by (auto simp: address_char_def shell_plain_def)

lemma session_id_plain: "list_all shell_plain (generate_session_id ts rnd)"
  using hex_fixed_hex [of 12] hex_fixed_hex [of 16]
  by (auto simp: generate_session_id_eq list_all_iff intro: hex_plain) (simp add: shell_plain_def)

lemma hex_digit_decimal: "d < 10 \<Longrightarrow> hex_digit d \<in> set ''0123456789''"
  by (auto simp: hex_digit_def less_Suc_eq numeral_eq_Suc)

lemma session_id_head: "hd (generate_session_id ts rnd) = hex_digit (unat (ts AND 0x0000FFFFFFFFFFFF) div 16 ^ 11)"
proof -
  let ?n = "unat (ts AND 0x0000FFFFFFFFFFFF)"
  have "take 1 (hex_fixed (1 + 11) ?n) = hex_fixed 1 (?n div 16 ^ 11)" by (rule take_hex_fixed)
  moreover have "?n div 16 ^ 11 < 16" using ts_bound [of ts] by (simp add: div_less_iff_less_mult)
  ultimately have "take 1 (hex_fixed 12 ?n) = [hex_digit (?n div 16 ^ 11)]" by simp
  then have "hd (hex_fixed 12 ?n) = hex_digit (?n div 16 ^ 11)"
    by (metis hd_take list.sel(1) zero_less_one)
  moreover have "hex_fixed 12 ?n \<noteq> []" by (simp flip: length_0_conv)
  ultimately show ?thesis by (simp add: generate_session_id_eq)
qed

lemma session_id_prefix:
  "take 8 (generate_session_id ts rnd) = hex_fixed 8 (unat (ts AND 0x0000FFFFFFFFFFFF) div 2 ^ 16)"
  using take_hex_fixed [of 8 4 "unat (ts AND 0x0000FFFFFFFFFFFF)"] by (simp add: generate_session_id_eq)

section \<open>Properties\<close>

text \<open>
  C36: session ids are 29 characters and two of them are equal exactly when their 48-bit
  millisecond timestamps and their 64-bit random numbers are: nothing is lost by the formatting,
  whose fields never overflow their width.
\<close>

theorem session_id_injective:
  "length (generate_session_id ts rnd) = 29 \<and>
   (generate_session_id ts rnd = generate_session_id ts' rnd' \<longleftrightarrow>
     ts AND 0x0000FFFFFFFFFFFF = ts' AND 0x0000FFFFFFFFFFFF \<and> rnd = rnd')"
  using ts_bound [of ts] ts_bound [of ts'] unsigned_less [of rnd, where ?'a = nat]
    unsigned_less [of rnd', where ?'a = nat]
  by (simp add: generate_session_id_eq hex_fixed_inj word_unat_eq_iff)



text \<open>
  A connection whose address is unknown or not on the whitelist is closed and leaves no
  trace: no session, no signal, no released descriptor, no handler process.
\<close>

theorem rejected_connection_leaves_no_trace:
  assumes "\<And>ip. remote = Some ip \<Longrightarrow> \<not> is_allowed pton ip (validator t)"
  shows "handle_connection pton sys remote raw_fd ts rnd t = t\<lparr>closed_fds := closed_fds t @ [raw_fd]\<rparr>"
  using assms by (auto simp: handle_connection_def split: option.split)

theorem rejected_connection_leaves_no_trace_witness:
  "handle_connection example_pton (\<lambda>c. 0) (Some ''9.9.9.9'') 5 0 0
     \<lparr>service = new_server 5, validator = example_validator, closed_fds = [], released_fds = [], launched = []\<rparr>
   = \<lparr>service = new_server 5, validator = example_validator, closed_fds = [5], released_fds = [], launched = []\<rparr>"
  by (subst rejected_connection_leaves_no_trace)
    (auto simp: is_allowed_def parse_ipv4_def example_pton_def example_validator_def)

text \<open>
  The per-address limit does not stop a connection. When the registration is refused the
  descriptor is still released and the handler still launched; the handler's GetSocket then
  fails, so the descriptor is neither served nor closed.
\<close>

theorem refused_connection_leaks_descriptor:
  fixes ts rnd
  defines "u \<equiv> generate_session_id ts rnd"
  assumes "is_allowed pton ip (validator t)" and "\<not> fst (add u raw_fd ip (conn_registry (service t)))"
    and "pending_fd (conn_registry (service t)) u = None" and "sys (build_launch_command u ip) = 0"
  defines "t' \<equiv> handle_connection pton sys (Some ip) raw_fd ts rnd t"
  shows "released_fds t' = released_fds t @ [raw_fd] \<and> closed_fds t' = closed_fds t
    \<and> launched t' = launched t @ [(u, ip)]
    \<and> fst (GetSocket u (service t')) = Inl (NotFound (''Unknown uuid: '' @ u))"
proof -
  have "t' = t\<lparr>service := register_session u raw_fd ip (service t),
      released_fds := released_fds t @ [raw_fd], launched := launched t @ [(u, ip)]\<rparr>"
    using assms(2,5) by (simp add: t'_def u_def handle_connection_def launch_client_handler_def Let_def)
  moreover have "fst (GetSocket u (register_session u raw_fd ip (service t))) = Inl (NotFound (''Unknown uuid: '' @ u))"
    using assms(3,4) by (simp add: GetSocket_eq register_session_eq reg.lookup_add)
  ultimately show ?thesis by simp
qed

theorem refused_connection_leaks_descriptor_witness:
  "\<exists>t. is_allowed example_pton ''10.1.2.3'' (validator t) \<and>
    released_fds (handle_connection example_pton (\<lambda>c. 0) (Some ''10.1.2.3'') 9 1 1 t) = [9] \<and>
    closed_fds (handle_connection example_pton (\<lambda>c. 0) (Some ''10.1.2.3'') 9 1 1 t) = []"
proof -
  let ?t = "\<lparr>service = new_server 0, validator = example_validator, closed_fds = [], released_fds = [], launched = []\<rparr>"
  have "is_allowed example_pton ''10.1.2.3'' example_validator" by code_simp
  moreover have "\<not> fst (add (generate_session_id 1 1) 9 ''10.1.2.3'' (conn_registry (new_server 0)))"
    and "pending_fd (conn_registry (new_server 0)) (generate_session_id 1 1) = None"
    by (simp_all add: add_eq new_server_def new_registry_def pending_fd_def)
  ultimately show ?thesis
    using refused_connection_leaks_descriptor [of example_pton "''10.1.2.3''" ?t 1 1 9 "\<lambda>c. 0"]
    by (intro exI [of _ ?t]) simp
qed

text \<open>
  The bus name under which a client handler registers is not a valid well-known bus name for
  the first five thousand years of the epoch: its last element is the session id, which begins
  with the leading digit of the timestamp.
\<close>

theorem client_bus_element_invalid:
  assumes "unat (ts AND 0x0000FFFFFFFFFFFF) < 10 * 16 ^ 11"
  shows "client_service (generate_session_id ts rnd) = ''com.telecom.smpp.Client.'' @ generate_session_id ts rnd
    \<and> \<not> bus_element_ok (generate_session_id ts rnd)"
proof -
  have "unat (ts AND 0x0000FFFFFFFFFFFF) div 16 ^ 11 < 10"
    using assms by (simp add: div_less_iff_less_mult mult.commute)
  then have "hd (generate_session_id ts rnd) \<in> set ''0123456789''"
    unfolding session_id_head by (rule hex_digit_decimal)
  then show ?thesis unfolding client_service_def bus_element_ok_def by blast
qed

theorem client_bus_element_invalid_witness:
  "unat (1700000000000 AND 0x0000FFFFFFFFFFFF :: u64) < 10 * 16 ^ 11 \<and>
   \<not> bus_element_ok (generate_session_id 1700000000000 42)"
  using client_bus_element_invalid [of 1700000000000 42] by simp

text \<open>
  Message ids are unique within a session only. Two sessions whose ids were generated in the
  same period of \<open>2^16\<close> milliseconds share the prefix of their message ids, and their first
  messages get the same id.
\<close>

theorem message_ids_collide_across_sessions:
  fixes ts ts' rnd rnd' :: u64
  assumes "unat (ts AND 0x0000FFFFFFFFFFFF) div 2 ^ 16 = unat (ts' AND 0x0000FFFFFFFFFFFF) div 2 ^ 16"
  shows "fst (next_message_id (new_session (generate_session_id ts rnd) ip i o' m now)) =
    fst (next_message_id (new_session (generate_session_id ts' rnd') ip' i' o'' m' now'))"
  using assms session_id_prefix [of ts rnd] session_id_prefix [of ts' rnd']
  by (simp add: next_message_id_eq new_session_def)

theorem message_ids_collide_across_sessions_witness:
  "generate_session_id 1700000000000 1 \<noteq> generate_session_id 1700000000001 2 \<and>
   fst (next_message_id (new_session (generate_session_id 1700000000000 1) ''10.0.0.1'' 60 10 0 0)) =
   fst (next_message_id (new_session (generate_session_id 1700000000001 2) ''10.0.0.2'' 60 10 0 5))"
proof -
  have "rnd \<noteq> rnd' \<Longrightarrow> generate_session_id ts rnd \<noteq> generate_session_id ts' rnd'" for ts ts' rnd rnd'
    using unsigned_less [of rnd, where ?'a = nat] unsigned_less [of rnd', where ?'a = nat]
    by (simp add: generate_session_id_eq hex_fixed_inj word_unat_eq_iff)
  moreover have "unat (1700000000000 AND 0x0000FFFFFFFFFFFF :: u64) div 2 ^ 16 =
      unat (1700000000001 AND 0x0000FFFFFFFFFFFF :: u64) div 2 ^ 16"
    by simp
  from message_ids_collide_across_sessions [OF this] have
    "fst (next_message_id (new_session (generate_session_id 1700000000000 1) ''10.0.0.1'' 60 10 0 0)) =
     fst (next_message_id (new_session (generate_session_id 1700000000001 2) ''10.0.0.2'' 60 10 0 5))" .
  ultimately show ?thesis by simp
qed

end
