(* ===== verification/Auth_Service.thy ===== *)
theory Auth_Service
  imports Smpp_Prelude
begin

text \<open>
  The authentication service: CredentialsStore and AuthService of Authenticator/src. The TOML
  library is the parameter \<open>toml\<close>, a record of the accessors the code uses on its nodes, and
  the result of \<open>parse_file\<close> is an argument: a node, or the message of the exception. The
  shared mutex makes load and authenticate atomic on the credentials map. What a client of the
  service relies on is the locale \<open>authenticator\<close>.
\<close>

section \<open>Definitions\<close>

abbreviation (input) OK :: u32 where "OK \<equiv> 0x00000000"
abbreviation (input) RINVSYSID :: u32 where "RINVSYSID \<equiv> 0x0000000F"
abbreviation (input) RINVPASWD :: u32 where "RINVPASWD \<equiv> 0x0000000E"

text \<open>\<open>node_at n k\<close> is the node \<open>n[k]\<close> of a table, None when there is none.\<close>

record 'n toml =
  node_at :: "'n \<Rightarrow> string \<Rightarrow> 'n option"
  as_array :: "'n \<Rightarrow> 'n list option"
  as_table :: "'n \<Rightarrow> 'n option"
  value_string :: "'n \<Rightarrow> string option"
  value_int64 :: "'n \<Rightarrow> int option"

type_synonym credentials = "string \<rightharpoonup> string"

definition string_at :: "'n toml \<Rightarrow> 'n \<Rightarrow> string \<Rightarrow> string option" where
  "string_at api n k = (case node_at api n k of None \<Rightarrow> None | Some v \<Rightarrow> value_string api v)"

definition load_entry :: "'n toml \<Rightarrow> 'n \<Rightarrow> credentials \<Rightarrow> credentials" where
  "load_entry api entry tmp =
     (case as_table api entry of
        None \<Rightarrow> tmp
      | Some t \<Rightarrow>
          (case (string_at api t ''system_id'', string_at api t ''password'') of
             (Some sid, Some pwd) \<Rightarrow> tmp(sid \<mapsto> pwd)
           | _ \<Rightarrow> tmp))"

definition credentials_array :: "'n toml \<Rightarrow> 'n \<Rightarrow> 'n list" where
  "credentials_array api tbl =
     (case node_at api tbl ''credentials'' of
        None \<Rightarrow> []
      | Some n \<Rightarrow> (case as_array api n of None \<Rightarrow> [] | Some arr \<Rightarrow> arr))"

definition store_load :: "'n toml \<Rightarrow> string + 'n \<Rightarrow> credentials \<Rightarrow> string option \<times> credentials" where
  "store_load api parsed creds =
     (case parsed of
        Inl err \<Rightarrow> (Some err, creds)
      | Inr tbl \<Rightarrow> (None, fold (load_entry api) (credentials_array api tbl) Map.empty))"

definition store_reload :: "'n toml \<Rightarrow> string + 'n \<Rightarrow> credentials \<Rightarrow> string option \<times> credentials" where
  "store_reload api parsed creds = store_load api parsed creds"

definition store_authenticate :: "string \<Rightarrow> string \<Rightarrow> credentials \<Rightarrow> bool \<times> u32" where
  "store_authenticate system_id password creds =
     (case creds system_id of
        None \<Rightarrow> (False, RINVSYSID)
      | Some it \<Rightarrow> if it \<noteq> password then (False, RINVPASWD) else (True, OK))"

definition Authenticate :: "credentials \<Rightarrow> string \<Rightarrow> string \<Rightarrow> string \<Rightarrow> string \<Rightarrow> bool \<times> u32" where
  "Authenticate creds uuid system_id password source_ip =
     (let (ok, code) = store_authenticate system_id password creds in (ok, code))"

definition ReloadCredentials :: "'n toml \<Rightarrow> string + 'n \<Rightarrow> credentials \<Rightarrow> string option \<times> credentials" where
  "ReloadCredentials api parsed creds = store_reload api parsed creds"

text \<open>The complete credentials of a document, in its order.\<close>

definition entry_pair :: "'n toml \<Rightarrow> 'n \<Rightarrow> (string \<times> string) list" where
  "entry_pair api entry =
     (case as_table api entry of
        None \<Rightarrow> []
      | Some t \<Rightarrow>
          (case (string_at api t ''system_id'', string_at api t ''password'') of
             (Some sid, Some pwd) \<Rightarrow> [(sid, pwd)] | _ \<Rightarrow> []))"

definition document_pairs :: "'n toml \<Rightarrow> 'n \<Rightarrow> (string \<times> string) list" where
  "document_pairs api tbl = concat (map (entry_pair api) (credentials_array api tbl))"

text \<open>A small document type, for the examples.\<close>

datatype doc = Text string | Array "doc list" | Table "(string \<times> doc) list"

definition doc_toml :: "doc toml" where
  "doc_toml =
     \<lparr>node_at = (\<lambda>n k. case n of Table kvs \<Rightarrow> map_of kvs k | _ \<Rightarrow> None),
      as_array = (\<lambda>n. case n of Array ns \<Rightarrow> Some ns | _ \<Rightarrow> None),
      as_table = (\<lambda>n. case n of Table kvs \<Rightarrow> Some n | _ \<Rightarrow> None),
      value_string = (\<lambda>n. case n of Text s \<Rightarrow> Some s | _ \<Rightarrow> None),
      value_int64 = (\<lambda>n. None)\<rparr>"

definition example_doc :: doc where
  "example_doc = Table [(''credentials'', Array
     [Table [(''system_id'', Text ''esme1''), (''password'', Text ''secret1'')],
      Table [(''system_id'', Text ''esme2'')],
      Table [(''system_id'', Text ''esme1''), (''password'', Text ''secret9'')]])]"

section \<open>Lemmas\<close>

lemma load_entry_pairs: "load_entry api entry tmp = tmp ++ map_of (rev (entry_pair api entry))"
  by (auto simp: load_entry_def entry_pair_def split: option.split)

lemma fold_load_entries:
  "fold (load_entry api) es tmp = tmp ++ map_of (rev (concat (map (entry_pair api) es)))"
proof (induction es arbitrary: tmp)
  case (Cons e es)
  then show ?case by (simp add: load_entry_pairs map_of_append del: map_add_assoc) (simp add: map_add_assoc)
qed simp

subsection \<open>Interface\<close>

text \<open>
  What a caller of Authenticate relies on: the code tells success from failure.
\<close>

locale authenticator =
  fixes auth :: "string \<Rightarrow> string \<Rightarrow> string \<Rightarrow> string \<Rightarrow> bool \<times> u32"
  assumes granted_code: "auth u i p a = (True, code) \<Longrightarrow> code = 0"
    and refused_code: "auth u i p a = (False, code) \<Longrightarrow> code \<noteq> 0"
begin

lemma verdict_iff: "fst (auth u i p a) \<longleftrightarrow> snd (auth u i p a) = 0"
  using granted_code refused_code by (metis prod.collapse)

end

interpretation service: authenticator "Authenticate creds" for creds
  by unfold_locales (auto simp: Authenticate_def store_authenticate_def split: option.splits if_splits)

section \<open>Properties\<close>

text \<open>
  C31: after a load, a bind is granted exactly when the document's last complete entry for the
  system id has that password; an unknown system id and a wrong password get their own error
  codes. Entries without a system id or a password are skipped.
\<close>

theorem authenticate_last_entry:
  assumes "store_load api (Inr tbl) old = (err, creds)"
  shows "err = None \<and> Authenticate creds uuid sid pwd ip =
    (case map_of (rev (document_pairs api tbl)) sid of
       None \<Rightarrow> (False, RINVSYSID)
     | Some p \<Rightarrow> if p = pwd then (True, OK) else (False, RINVPASWD))"
proof -
  have "err = None" and "creds = map_of (rev (document_pairs api tbl))"
    using assms by (simp_all add: store_load_def fold_load_entries document_pairs_def)
  then show ?thesis by (auto simp: Authenticate_def store_authenticate_def split: option.split)
qed

theorem authenticate_last_entry_witness:
  "document_pairs doc_toml example_doc = [(''esme1'', ''secret1''), (''esme1'', ''secret9'')] \<and>
   Authenticate (snd (store_load doc_toml (Inr example_doc) Map.empty)) ''u'' ''esme1'' ''secret9'' ''ip'' = (True, OK)"
proof -
  have d: "document_pairs doc_toml example_doc = [(''esme1'', ''secret1''), (''esme1'', ''secret9'')]"
    by (simp add: document_pairs_def credentials_array_def entry_pair_def doc_toml_def example_doc_def string_at_def)
  from authenticate_last_entry [OF prod.collapse [symmetric], of doc_toml example_doc Map.empty
      "''u''" "''esme1''" "''secret9''" "''ip''"] d
  show ?thesis by simp
qed

text \<open>
  A reload whose file cannot be parsed reports the error and keeps every credential: the new
  map is built aside and installed only when it is complete.
\<close>

theorem failed_reload_keeps_credentials:
  "ReloadCredentials api (Inl err) creds = (Some err, creds)"
  by (simp add: ReloadCredentials_def store_reload_def store_load_def)

end
