(* ===== verification/State_Machine_V1.thy ===== *)
theory State_Machine_V1
  imports Smpp_Prelude
begin

text \<open>
  The first client state machine, SmppClientHandler/src/smpp_state_machine.cpp: an enumeration
  with one handler per state. The record holds the current state, which of the four callbacks
  are registered, and the callback invocations made, oldest first; log lines are left out.
\<close>

section \<open>Definitions\<close>

datatype smpp_state =
    IDLE | CONNECTED | BINDING | BOUND_TX | BOUND_RX | BOUND_TRX | UNBINDING | DISCONNECTED | ERROR_STATE

record smpp_event =
  ev_command_id :: u32
  ev_status_code :: u32
  ev_error_msg :: string
  ev_sequence_num :: u32

definition new_event :: "u32 \<Rightarrow> u32 \<Rightarrow> smpp_event" where
  "new_event cmd status =
     \<lparr>ev_command_id = cmd, ev_status_code = status, ev_error_msg = [], ev_sequence_num = 0\<rparr>"

abbreviation (input) BindReceiver :: u32 where "BindReceiver \<equiv> 0x00000001"
abbreviation (input) BindTransmitter :: u32 where "BindTransmitter \<equiv> 0x00000002"
abbreviation (input) BindTransceiver :: u32 where "BindTransceiver \<equiv> 0x00000009"
abbreviation (input) Unbind :: u32 where "Unbind \<equiv> 0x00000006"
abbreviation (input) EnquireLink :: u32 where "EnquireLink \<equiv> 0x00000015"
abbreviation (input) BindReceiverResp :: u32 where "BindReceiverResp \<equiv> 0x80000001"
abbreviation (input) BindTransmitterResp :: u32 where "BindTransmitterResp \<equiv> 0x80000002"
abbreviation (input) BindTransceiverResp :: u32 where "BindTransceiverResp \<equiv> 0x80000009"
abbreviation (input) UnbindResp :: u32 where "UnbindResp \<equiv> 0x80000006"

datatype callback =
    Transition smpp_state smpp_state
  | Bind_success smpp_event
  | Unbind_success smpp_event
  | Error_report string

record machine =
  current_state :: smpp_state
  transition_cb :: bool
  bind_success_cb :: bool
  unbind_success_cb :: bool
  error_cb :: bool
  called :: "callback list"

definition new_machine :: machine where
  "new_machine =
     \<lparr>current_state = IDLE, transition_cb = False, bind_success_cb = False, unbind_success_cb = False,
      error_cb = False, called = []\<rparr>"

fun state_to_string :: "smpp_state \<Rightarrow> string" where
  "state_to_string IDLE = ''IDLE''"
| "state_to_string CONNECTED = ''CONNECTED''"
| "state_to_string BINDING = ''BINDING''"
| "state_to_string BOUND_TX = ''BOUND_TX''"
| "state_to_string BOUND_RX = ''BOUND_RX''"
| "state_to_string BOUND_TRX = ''BOUND_TRX''"
| "state_to_string UNBINDING = ''UNBINDING''"
| "state_to_string DISCONNECTED = ''DISCONNECTED''"
| "state_to_string ERROR_STATE = ''ERROR_STATE''"

definition is_bind_response :: "u32 \<Rightarrow> bool" where
  "is_bind_response cmd \<longleftrightarrow>
     cmd = BindTransmitterResp \<or> cmd = BindReceiverResp \<or> cmd = BindTransceiverResp"

definition get_bind_state_from_response :: "u32 \<Rightarrow> smpp_state" where
  "get_bind_state_from_response cmd =
     (if cmd = BindTransmitterResp then BOUND_TX
      else if cmd = BindReceiverResp then BOUND_RX
      else if cmd = BindTransceiverResp then BOUND_TRX
      else ERROR_STATE)"

definition invoke :: "bool \<Rightarrow> callback \<Rightarrow> machine \<Rightarrow> machine" where
  "invoke registered c m = (if registered then m\<lparr>called := called m @ [c]\<rparr> else m)"

definition v1_transition_to :: "smpp_state \<Rightarrow> machine \<Rightarrow> machine" where
  "v1_transition_to new_state m =
     (if current_state m = new_state then m
      else
        let old_state = current_state m;
            m = m\<lparr>current_state := new_state\<rparr>
        in invoke (transition_cb m) (Transition old_state new_state) m)"

definition v1_is_bound :: "machine \<Rightarrow> bool" where
  "v1_is_bound m \<longleftrightarrow>
     current_state m = BOUND_TX \<or> current_state m = BOUND_RX \<or> current_state m = BOUND_TRX"

definition v1_can_send :: "machine \<Rightarrow> bool" where
  "v1_can_send m \<longleftrightarrow> current_state m = BOUND_TX \<or> current_state m = BOUND_TRX"

definition v1_can_receive :: "machine \<Rightarrow> bool" where
  "v1_can_receive m \<longleftrightarrow> current_state m = BOUND_RX \<or> current_state m = BOUND_TRX"

definition request_bind :: "u32 \<Rightarrow> machine \<Rightarrow> bool \<times> machine" where
  "request_bind cmd m =
     (if current_state m \<noteq> CONNECTED then (False, m)
      else if cmd \<noteq> BindTransmitter \<and> cmd \<noteq> BindReceiver \<and> cmd \<noteq> BindTransceiver then (False, m)
      else (True, v1_transition_to BINDING m))"

definition request_unbind :: "machine \<Rightarrow> bool \<times> machine" where
  "request_unbind m = (if \<not> v1_is_bound m then (False, m) else (True, v1_transition_to UNBINDING m))"

definition request_enquire_link :: "machine \<Rightarrow> bool \<times> machine" where
  "request_enquire_link m = (if \<not> v1_is_bound m then (False, m) else (True, m))"

definition handle_error :: "string \<Rightarrow> machine \<Rightarrow> machine" where
  "handle_error msg m =
     (let m = v1_transition_to ERROR_STATE m in invoke (error_cb m) (Error_report msg) m)"

definition handle_bind_response :: "smpp_event \<Rightarrow> machine \<Rightarrow> machine" where
  "handle_bind_response ev m =
     (if ev_status_code ev = 0 then
        let m = v1_transition_to (get_bind_state_from_response (ev_command_id ev)) m
        in invoke (bind_success_cb m) (Bind_success ev) m
      else
        v1_transition_to DISCONNECTED
          (handle_error (''BIND failed with status code: 0x'' @ to_string (unat (ev_status_code ev))) m))"

definition handle_unbind_response :: "smpp_event \<Rightarrow> machine \<Rightarrow> machine" where
  "handle_unbind_response ev m =
     (if ev_status_code ev = 0 then
        let m = v1_transition_to DISCONNECTED m
        in invoke (unbind_success_cb m) (Unbind_success ev) m
      else
        v1_transition_to ERROR_STATE
          (handle_error (''UNBIND failed with status code: 0x'' @ to_string (unat (ev_status_code ev))) m))"

definition handle_event_in_connected :: "smpp_event \<Rightarrow> machine \<Rightarrow> machine" where
  "handle_event_in_connected ev m = m"

definition handle_event_in_binding :: "smpp_event \<Rightarrow> machine \<Rightarrow> machine" where
  "handle_event_in_binding ev m =
     (if is_bind_response (ev_command_id ev) then handle_bind_response ev m
      else handle_error (''Unexpected PDU in BINDING state: 0x'' @ to_string (unat (ev_command_id ev))) m)"

definition handle_event_in_bound_tx :: "smpp_event \<Rightarrow> machine \<Rightarrow> machine" where
  "handle_event_in_bound_tx ev m =
     (if ev_command_id ev = EnquireLink then m
      else if ev_command_id ev = Unbind then v1_transition_to UNBINDING m
      else m)"

definition handle_event_in_bound_rx :: "smpp_event \<Rightarrow> machine \<Rightarrow> machine" where
  "handle_event_in_bound_rx ev m =
     (if ev_command_id ev = EnquireLink then m
      else if ev_command_id ev = Unbind then v1_transition_to UNBINDING m
      else m)"

definition handle_event_in_bound_trx :: "smpp_event \<Rightarrow> machine \<Rightarrow> machine" where
  "handle_event_in_bound_trx ev m =
     (if ev_command_id ev = EnquireLink then m
      else if ev_command_id ev = Unbind then v1_transition_to UNBINDING m
      else m)"

definition handle_event_in_unbinding :: "smpp_event \<Rightarrow> machine \<Rightarrow> machine" where
  "handle_event_in_unbinding ev m =
     (if ev_command_id ev = UnbindResp then handle_unbind_response ev m
      else handle_error (''Unexpected PDU in UNBINDING state: 0x'' @ to_string (unat (ev_command_id ev))) m)"

definition process_event :: "smpp_event \<Rightarrow> machine \<Rightarrow> machine" where
  "process_event ev m =
     (case current_state m of
        IDLE \<Rightarrow> m
      | CONNECTED \<Rightarrow> handle_event_in_connected ev m
      | BINDING \<Rightarrow> handle_event_in_binding ev m
      | BOUND_TX \<Rightarrow> handle_event_in_bound_tx ev m
      | BOUND_RX \<Rightarrow> handle_event_in_bound_rx ev m
      | BOUND_TRX \<Rightarrow> handle_event_in_bound_trx ev m
      | UNBINDING \<Rightarrow> handle_event_in_unbinding ev m
      | DISCONNECTED \<Rightarrow> m
      | ERROR_STATE \<Rightarrow> m)"

subsection \<open>Runs\<close>

text \<open>The public operations that can change the machine, registrations included.\<close>

datatype machine_op =
    Process smpp_event
  | Request_bind u32
  | Request_unbind
  | Request_enquire_link
  | Register_transition
  | Register_bind_success
  | Register_unbind_success
  | Register_error

fun machine_step :: "machine_op \<Rightarrow> machine \<Rightarrow> machine" where
  "machine_step (Process ev) m = process_event ev m"
| "machine_step (Request_bind cmd) m = snd (request_bind cmd m)"
| "machine_step Request_unbind m = snd (request_unbind m)"
| "machine_step Request_enquire_link m = snd (request_enquire_link m)"
| "machine_step Register_transition m = m\<lparr>transition_cb := True\<rparr>"
| "machine_step Register_bind_success m = m\<lparr>bind_success_cb := True\<rparr>"
| "machine_step Register_unbind_success m = m\<lparr>unbind_success_cb := True\<rparr>"
| "machine_step Register_error m = m\<lparr>error_cb := True\<rparr>"

text \<open>The state changes the design documents allow, by one public operation.\<close>

inductive session_edge :: "smpp_state \<Rightarrow> smpp_state \<Rightarrow> bool" where
  bind_sent: "session_edge CONNECTED BINDING"
| bound: "st \<in> {BOUND_TX, BOUND_RX, BOUND_TRX} \<Longrightarrow> session_edge BINDING st"
| bind_refused: "session_edge BINDING DISCONNECTED"
| bind_error: "session_edge BINDING ERROR_STATE"
| unbind: "st \<in> {BOUND_TX, BOUND_RX, BOUND_TRX} \<Longrightarrow> session_edge st UNBINDING"
| unbound: "session_edge UNBINDING DISCONNECTED"
| unbind_error: "session_edge UNBINDING ERROR_STATE"

inductive_simps session_edge_from [simp]:
  "session_edge IDLE t" "session_edge CONNECTED t" "session_edge BINDING t" "session_edge BOUND_TX t"
  "session_edge BOUND_RX t" "session_edge BOUND_TRX t" "session_edge UNBINDING t"
  "session_edge DISCONNECTED t" "session_edge ERROR_STATE t"

section \<open>Lemmas\<close>

lemmas v1_defs = invoke_def v1_transition_to_def handle_error_def handle_bind_response_def
  handle_unbind_response_def handle_event_in_connected_def handle_event_in_binding_def
  handle_event_in_bound_tx_def handle_event_in_bound_rx_def handle_event_in_bound_trx_def
  handle_event_in_unbinding_def is_bind_response_def get_bind_state_from_response_def
  request_bind_def request_unbind_def request_enquire_link_def v1_is_bound_def

lemma process_event_edge:
  "current_state (process_event ev m) = current_state m
    \<or> session_edge (current_state m) (current_state (process_event ev m))"
  by (cases "current_state m") (auto simp: process_event_def v1_defs Let_def)

lemma machine_step_edge:
  "current_state (machine_step a m) = current_state m
    \<or> session_edge (current_state m) (current_state (machine_step a m))"
proof (cases a)
  case (Process ev)
  then show ?thesis using process_event_edge [of ev m] by simp
qed (auto simp: v1_defs Let_def)

lemma idle_fixed: "current_state m = IDLE \<Longrightarrow> current_state (machine_step a m) = IDLE"
  using machine_step_edge [of a m] by auto

section \<open>Properties\<close>



text \<open>
  The first state machine never leaves IDLE: no public operation enters CONNECTED, from which
  alone a bind can be requested.
\<close>

theorem v1_never_leaves_idle: "current_state (fold machine_step ops new_machine) = IDLE"
proof -
  have "current_state m = IDLE \<Longrightarrow> current_state (fold machine_step ops m) = IDLE" for m
    by (induction ops arbitrary: m) (auto simp: idle_fixed)
  then show ?thesis by (simp add: new_machine_def)
qed

end
