(* ===== verification/State_Machine_V2.thy ===== *)
theory State_Machine_V2
  imports Smpp_Prelude
begin

text \<open>
  The second client state machine: the state objects of SmppClientHandler/include/smpp_states.hpp
  and src/smpp_states.cpp, the orchestrator of src/smpp_state_machine_v2.cpp and its wrapper
  src/smpp_client_handler.cpp. The objects live in an explicit store because the code keeps each
  of them in two owning pointers: \<open>heap\<close> maps the address of a live object to its class,
  \<open>slots\<close> are the nine member pointers and \<open>current\<close> is \<open>current_state_\<close>. A call through a
  dangling pointer and a second delete are the two faults. A handler that throws
  SmppStateException returns the message.
\<close>

section \<open>Definitions\<close>

subsection \<open>Objects and ownership\<close>

datatype state_kind =
  Idle | Connected | Binding | BoundTx | BoundRx | BoundTrx | Unbinding | Disconnected | Error

fun kind_name :: "state_kind \<Rightarrow> string" where
  "kind_name Idle = ''IDLE''"
| "kind_name Connected = ''CONNECTED''"
| "kind_name Binding = ''BINDING''"
| "kind_name BoundTx = ''BOUND_TX''"
| "kind_name BoundRx = ''BOUND_RX''"
| "kind_name BoundTrx = ''BOUND_TRX''"
| "kind_name Unbinding = ''UNBINDING''"
| "kind_name Disconnected = ''DISCONNECTED''"
| "kind_name Error = ''ERROR_STATE''"

datatype fault = Use_after_free | Double_free

datatype notification =
    Transitioned string string
  | Bind_succeeded u32
  | Unbind_succeeded
  | Error_notified string

record machine2 =
  heap :: "nat \<rightharpoonup> state_kind"
  slots :: "state_kind \<Rightarrow> nat"
  current :: nat
  transition_callback :: bool
  bind_success_callback :: bool
  unbind_success_callback :: bool
  error_callback :: bool
  notified :: "notification list"

fun slot_address :: "state_kind \<Rightarrow> nat" where
  "slot_address Idle = 0"
| "slot_address Connected = 1"
| "slot_address Binding = 2"
| "slot_address BoundTx = 3"
| "slot_address BoundRx = 4"
| "slot_address BoundTrx = 5"
| "slot_address Unbinding = 6"
| "slot_address Disconnected = 7"
| "slot_address Error = 8"

text \<open>init_states: nine objects for the members and a tenth, also an IdleState, for the current state.\<close>

definition init_states :: machine2 where
  "init_states =
     \<lparr>heap = [0 \<mapsto> Idle, 1 \<mapsto> Connected, 2 \<mapsto> Binding, 3 \<mapsto> BoundTx, 4 \<mapsto> BoundRx, 5 \<mapsto> BoundTrx,
              6 \<mapsto> Unbinding, 7 \<mapsto> Disconnected, 8 \<mapsto> Error, 9 \<mapsto> Idle],
      slots = slot_address, current = 9,
      transition_callback = False, bind_success_callback = False, unbind_success_callback = False,
      error_callback = False, notified = []\<rparr>"

definition delete :: "nat \<Rightarrow> machine2 \<Rightarrow> fault + machine2" where
  "delete p m = (case heap m p of None \<Rightarrow> Inl Double_free | Some k \<Rightarrow> Inr (m\<lparr>heap := (heap m)(p := None)\<rparr>))"

definition current_kind :: "machine2 \<Rightarrow> fault + state_kind" where
  "current_kind m = (case heap m (current m) of None \<Rightarrow> Inl Use_after_free | Some k \<Rightarrow> Inr k)"

definition fbind :: "fault + 'a \<Rightarrow> ('a \<Rightarrow> fault + 'b) \<Rightarrow> fault + 'b" where
  "fbind r f = (case r of Inl e \<Rightarrow> Inl e | Inr x \<Rightarrow> f x)"

definition notify :: "bool \<Rightarrow> notification \<Rightarrow> machine2 \<Rightarrow> machine2" where
  "notify registered n m = (if registered then m\<lparr>notified := notified m @ [n]\<rparr> else m)"

definition get_current_state :: "machine2 \<Rightarrow> fault + string" where
  "get_current_state m = fbind (current_kind m) (\<lambda>k. Inr (kind_name k))"

definition v2_is_bound :: "machine2 \<Rightarrow> fault + bool" where
  "v2_is_bound m = fbind (get_current_state m)
     (\<lambda>st. Inr (st = ''BOUND_TX'' \<or> st = ''BOUND_RX'' \<or> st = ''BOUND_TRX''))"

definition v2_can_send :: "machine2 \<Rightarrow> fault + bool" where
  "v2_can_send m = fbind (get_current_state m) (\<lambda>st. Inr (st = ''BOUND_TX'' \<or> st = ''BOUND_TRX''))"

definition v2_can_receive :: "machine2 \<Rightarrow> fault + bool" where
  "v2_can_receive m = fbind (get_current_state m) (\<lambda>st. Inr (st = ''BOUND_RX'' \<or> st = ''BOUND_TRX''))"

subsection \<open>Transitions\<close>

text \<open>\<open>current_state_.reset(new_state)\<close> takes the new pointer and deletes the old object.\<close>

definition transition_to :: "state_kind \<Rightarrow> machine2 \<Rightarrow> fault + machine2" where
  "transition_to k m =
     fbind (get_current_state m) (\<lambda>old_state.
       if old_state = kind_name k then Inr m
       else fbind (delete (current m) (m\<lparr>current := slots m k\<rparr>)) (\<lambda>m.
         Inr (notify (transition_callback m) (Transitioned old_state (kind_name k)) m)))"

definition transition_to_connected :: "machine2 \<Rightarrow> fault + machine2" where
  "transition_to_connected m = transition_to Connected m"

definition transition_to_binding :: "machine2 \<Rightarrow> fault + machine2" where
  "transition_to_binding m = transition_to Binding m"

definition transition_to_bound_tx :: "machine2 \<Rightarrow> fault + machine2" where
  "transition_to_bound_tx m = transition_to BoundTx m"

definition transition_to_bound_rx :: "machine2 \<Rightarrow> fault + machine2" where
  "transition_to_bound_rx m = transition_to BoundRx m"

definition transition_to_bound_trx :: "machine2 \<Rightarrow> fault + machine2" where
  "transition_to_bound_trx m = transition_to BoundTrx m"

definition transition_to_unbinding :: "machine2 \<Rightarrow> fault + machine2" where
  "transition_to_unbinding m = transition_to Unbinding m"

definition transition_to_disconnected :: "machine2 \<Rightarrow> fault + machine2" where
  "transition_to_disconnected m = transition_to Disconnected m"

definition transition_to_error :: "string \<Rightarrow> machine2 \<Rightarrow> fault + machine2" where
  "transition_to_error msg m =
     fbind (transition_to Error m) (\<lambda>m. Inr (notify (error_callback m) (Error_notified msg) m))"

subsection \<open>State objects\<close>

definition accepted :: "fault + machine2 \<Rightarrow> fault + (string + machine2)" where
  "accepted r = fbind r (\<lambda>m. Inr (Inr m))"

definition not_accepted :: "string \<Rightarrow> state_kind \<Rightarrow> fault + (string + machine2)" where
  "not_accepted pdu k = Inr (Inl (pdu @ '' PDU not accepted in state: '' @ kind_name k))"

definition on_bind :: "state_kind \<Rightarrow> u32 \<Rightarrow> string \<Rightarrow> string \<Rightarrow> machine2 \<Rightarrow> fault + (string + machine2)" where
  "on_bind k bind_type system_id password m =
     (if k = Connected then accepted (transition_to_binding m) else not_accepted ''BIND'' k)"

definition on_bind_resp :: "state_kind \<Rightarrow> u32 \<Rightarrow> u32 \<Rightarrow> machine2 \<Rightarrow> fault + (string + machine2)" where
  "on_bind_resp k bind_type status_code m =
     (if k = Binding then
        if status_code = 0 then
          if bind_type = 0x80000002 then accepted (transition_to_bound_tx m)
          else if bind_type = 0x80000001 then accepted (transition_to_bound_rx m)
          else if bind_type = 0x80000009 then accepted (transition_to_bound_trx m)
          else accepted (Inr m)
        else accepted (transition_to_disconnected m)
      else not_accepted ''BIND_RESP'' k)"

definition on_unbind :: "state_kind \<Rightarrow> machine2 \<Rightarrow> fault + (string + machine2)" where
  "on_unbind k m =
     (if k = BoundTx \<or> k = BoundRx \<or> k = BoundTrx then accepted (transition_to_unbinding m)
      else not_accepted ''UNBIND'' k)"

definition on_unbind_resp :: "state_kind \<Rightarrow> u32 \<Rightarrow> machine2 \<Rightarrow> fault + (string + machine2)" where
  "on_unbind_resp k status_code m =
     (if k = Unbinding then
        if status_code = 0 then accepted (transition_to_disconnected m)
        else accepted (transition_to_error ''UNBIND failed'' m)
      else not_accepted ''UNBIND_RESP'' k)"

definition on_enquire_link :: "state_kind \<Rightarrow> machine2 \<Rightarrow> fault + (string + machine2)" where
  "on_enquire_link k m =
     (if k = BoundTx \<or> k = BoundRx \<or> k = BoundTrx then accepted (Inr m) else not_accepted ''ENQUIRE_LINK'' k)"

definition on_enquire_link_resp :: "state_kind \<Rightarrow> u32 \<Rightarrow> machine2 \<Rightarrow> fault + (string + machine2)" where
  "on_enquire_link_resp k status_code m =
     (if k = BoundTx \<or> k = BoundRx \<or> k = BoundTrx then accepted (Inr m)
      else not_accepted ''ENQUIRE_LINK_RESP'' k)"

text \<open>No state overrides the four handlers of the message PDUs.\<close>

definition on_submit_sm :: "state_kind \<Rightarrow> machine2 \<Rightarrow> fault + (string + machine2)" where
  "on_submit_sm k m = not_accepted ''SUBMIT_SM'' k"

definition on_submit_sm_resp :: "state_kind \<Rightarrow> machine2 \<Rightarrow> fault + (string + machine2)" where
  "on_submit_sm_resp k m = not_accepted ''SUBMIT_SM_RESP'' k"

definition on_deliver_sm :: "state_kind \<Rightarrow> machine2 \<Rightarrow> fault + (string + machine2)" where
  "on_deliver_sm k m = not_accepted ''DELIVER_SM'' k"

definition on_deliver_sm_resp :: "state_kind \<Rightarrow> machine2 \<Rightarrow> fault + (string + machine2)" where
  "on_deliver_sm_resp k m = not_accepted ''DELIVER_SM_RESP'' k"

subsection \<open>PDU handlers\<close>

text \<open>The try block of every handler: a state exception becomes a transition to the error state.\<close>

definition dispatch_pdu ::
    "(state_kind \<Rightarrow> machine2 \<Rightarrow> fault + (string + machine2)) \<Rightarrow> (machine2 \<Rightarrow> machine2) \<Rightarrow>
     machine2 \<Rightarrow> fault + machine2" where
  "dispatch_pdu on_pdu after m =
     fbind (current_kind m) (\<lambda>k.
       fbind (on_pdu k m) (\<lambda>r.
         case r of Inl msg \<Rightarrow> transition_to_error msg m | Inr m \<Rightarrow> Inr (after m)))"

definition v2_handle_bind :: "u32 \<Rightarrow> string \<Rightarrow> string \<Rightarrow> machine2 \<Rightarrow> fault + machine2" where
  "v2_handle_bind bind_type system_id password m =
     dispatch_pdu (\<lambda>k. on_bind k bind_type system_id password) id m"

definition v2_handle_bind_resp :: "u32 \<Rightarrow> u32 \<Rightarrow> machine2 \<Rightarrow> fault + machine2" where
  "v2_handle_bind_resp bind_type status_code m =
     dispatch_pdu (\<lambda>k. on_bind_resp k bind_type status_code)
       (\<lambda>m. if status_code = 0 then notify (bind_success_callback m) (Bind_succeeded bind_type) m else m) m"

definition v2_handle_unbind :: "machine2 \<Rightarrow> fault + machine2" where
  "v2_handle_unbind m = dispatch_pdu on_unbind id m"

definition v2_handle_unbind_resp :: "u32 \<Rightarrow> machine2 \<Rightarrow> fault + machine2" where
  "v2_handle_unbind_resp status_code m =
     dispatch_pdu (\<lambda>k. on_unbind_resp k status_code)
       (\<lambda>m. if status_code = 0 then notify (unbind_success_callback m) Unbind_succeeded m else m) m"

definition v2_handle_enquire_link :: "machine2 \<Rightarrow> fault + machine2" where
  "v2_handle_enquire_link m = dispatch_pdu on_enquire_link id m"

definition v2_handle_enquire_link_resp :: "u32 \<Rightarrow> machine2 \<Rightarrow> fault + machine2" where
  "v2_handle_enquire_link_resp status_code m = dispatch_pdu (\<lambda>k. on_enquire_link_resp k status_code) id m"

definition v2_handle_submit_sm :: "machine2 \<Rightarrow> fault + machine2" where
  "v2_handle_submit_sm m = dispatch_pdu on_submit_sm id m"

definition v2_handle_submit_sm_resp :: "machine2 \<Rightarrow> fault + machine2" where
  "v2_handle_submit_sm_resp m = dispatch_pdu on_submit_sm_resp id m"

definition v2_handle_deliver_sm :: "machine2 \<Rightarrow> fault + machine2" where
  "v2_handle_deliver_sm m = dispatch_pdu on_deliver_sm id m"

definition v2_handle_deliver_sm_resp :: "machine2 \<Rightarrow> fault + machine2" where
  "v2_handle_deliver_sm_resp m = dispatch_pdu on_deliver_sm_resp id m"

text \<open>
  The destructor deletes the members in reverse order of declaration: the nine instances, then
  the current state.
\<close>

fun delete_all :: "nat list \<Rightarrow> machine2 \<Rightarrow> fault + machine2" where
  "delete_all [] m = Inr m"
| "delete_all (p # ps) m = fbind (delete p m) (delete_all ps)"

definition destroy :: "machine2 \<Rightarrow> fault + machine2" where
  "destroy m =
     delete_all [slots m Error, slots m Disconnected, slots m Unbinding, slots m BoundTrx, slots m BoundRx,
       slots m BoundTx, slots m Binding, slots m Connected, slots m Idle, current m] m"

subsection \<open>SmppClientHandler\<close>

record client_handler =
  socket_fd :: int
  state_machine :: machine2
  running :: bool
  handler_error_cb :: bool
  reported :: "string list"

definition new_client_handler :: "int \<Rightarrow> client_handler" where
  "new_client_handler fd =
     \<lparr>socket_fd = fd, state_machine = init_states, running = False, handler_error_cb = False, reported = []\<rparr>"

definition handler_init :: "client_handler \<Rightarrow> client_handler" where
  "handler_init h =
     (if socket_fd h < 0 \<and> handler_error_cb h
      then h\<lparr>reported := reported h @ [''Invalid socket file descriptor'']\<rparr> else h)"

definition process_pdu :: "client_handler \<Rightarrow> client_handler" where
  "process_pdu h = h"

definition handler_start :: "client_handler \<Rightarrow> client_handler" where
  "handler_start h = (if running h then h else process_pdu (h\<lparr>running := True\<rparr>))"

definition handler_stop :: "client_handler \<Rightarrow> client_handler" where
  "handler_stop h = h\<lparr>running := False\<rparr>"

definition set_error_callback :: "bool \<Rightarrow> client_handler \<Rightarrow> client_handler" where
  "set_error_callback callback h = h\<lparr>handler_error_cb := callback\<rparr>"

definition with_machine :: "client_handler \<Rightarrow> fault + machine2 \<Rightarrow> fault + client_handler" where
  "with_machine h r = fbind r (\<lambda>m. Inr (h\<lparr>state_machine := m\<rparr>))"

definition handle_bind_request :: "u32 \<Rightarrow> client_handler \<Rightarrow> fault + client_handler" where
  "handle_bind_request cmd h = with_machine h (v2_handle_bind cmd [] [] (state_machine h))"

definition handle_unbind_request :: "client_handler \<Rightarrow> fault + client_handler" where
  "handle_unbind_request h = with_machine h (v2_handle_unbind (state_machine h))"

definition handle_enquire_link_request :: "client_handler \<Rightarrow> fault + client_handler" where
  "handle_enquire_link_request h =
     fbind (v2_is_bound (state_machine h)) (\<lambda>bound.
       if bound then with_machine h (v2_handle_enquire_link (state_machine h)) else Inr h)"

text \<open>The destructor stops the handler and then destroys its members.\<close>

definition handler_destroy :: "client_handler \<Rightarrow> fault + client_handler" where
  "handler_destroy h =
     (let h = (if running h then handler_stop h else h) in with_machine h (destroy (state_machine h)))"

subsection \<open>Specification\<close>

datatype pdu_op =
    Bind u32 string string
  | Bind_resp u32 u32
  | Unbind
  | Unbind_resp u32
  | Enquire_link
  | Enquire_link_resp u32
  | Submit_sm
  | Submit_sm_resp
  | Deliver_sm
  | Deliver_sm_resp

fun handle_op :: "pdu_op \<Rightarrow> machine2 \<Rightarrow> fault + machine2" where
  "handle_op (Bind t i p) m = v2_handle_bind t i p m"
| "handle_op (Bind_resp t st) m = v2_handle_bind_resp t st m"
| "handle_op Unbind m = v2_handle_unbind m"
| "handle_op (Unbind_resp st) m = v2_handle_unbind_resp st m"
| "handle_op Enquire_link m = v2_handle_enquire_link m"
| "handle_op (Enquire_link_resp st) m = v2_handle_enquire_link_resp st m"
| "handle_op Submit_sm m = v2_handle_submit_sm m"
| "handle_op Submit_sm_resp m = v2_handle_submit_sm_resp m"
| "handle_op Deliver_sm m = v2_handle_deliver_sm m"
| "handle_op Deliver_sm_resp m = v2_handle_deliver_sm_resp m"

text \<open>The transition table without objects: what state each PDU leads to.\<close>

fun next_kind :: "state_kind \<Rightarrow> pdu_op \<Rightarrow> state_kind" where
  "next_kind k (Bind t i p) = (if k = Connected then Binding else Error)"
| "next_kind k (Bind_resp t st) =
     (if k \<noteq> Binding then Error
      else if st \<noteq> 0 then Disconnected
      else if t = 0x80000002 then BoundTx
      else if t = 0x80000001 then BoundRx
      else if t = 0x80000009 then BoundTrx
      else Binding)"
| "next_kind k Unbind = (if k \<in> {BoundTx, BoundRx, BoundTrx} then Unbinding else Error)"
| "next_kind k (Unbind_resp st) = (if k = Unbinding \<and> st = 0 then Disconnected else Error)"
| "next_kind k Enquire_link = (if k \<in> {BoundTx, BoundRx, BoundTrx} then k else Error)"
| "next_kind k (Enquire_link_resp st) = (if k \<in> {BoundTx, BoundRx, BoundTrx} then k else Error)"
| "next_kind k _ = Error"

fun run_ops :: "pdu_op list \<Rightarrow> machine2 \<Rightarrow> fault + machine2" where
  "run_ops [] m = Inr m"
| "run_ops (a # as) m = fbind (handle_op a m) (run_ops as)"

fun life_rank :: "state_kind \<Rightarrow> nat" where
  "life_rank Idle = 0"
| "life_rank Connected = 1"
| "life_rank Binding = 2"
| "life_rank BoundTx = 3"
| "life_rank BoundRx = 3"
| "life_rank BoundTrx = 3"
| "life_rank Unbinding = 4"
| "life_rank Disconnected = 5"
| "life_rank Error = 6"

text \<open>
  While a connection goes through its life once: the current object is live and so are the
  instances of all later states.
\<close>

definition life_inv :: "state_kind \<Rightarrow> machine2 \<Rightarrow> bool" where
  "life_inv k m \<longleftrightarrow>
     slots m = slot_address \<and> heap m (current m) = Some k
     \<and> (current m = slot_address k \<or> current m = 9 \<and> k = Idle)
     \<and> (\<forall>k'. life_rank k < life_rank k' \<longrightarrow> heap m (slot_address k') = Some k')"

text \<open>An operation only frees objects, and it frees the current one when it moves on.\<close>

definition evolves :: "machine2 \<Rightarrow> machine2 \<Rightarrow> bool" where
  "evolves m m' \<longleftrightarrow> heap m' \<subseteq>\<^sub>m heap m \<and> (current m' = current m \<or> heap m' (current m) = None)"

section \<open>Lemmas\<close>

lemma kind_name_inj [simp]: "kind_name a = kind_name b \<longleftrightarrow> a = b"
  by (cases a; cases b) simp_all

lemma slot_address_inj [simp]: "slot_address a = slot_address b \<longleftrightarrow> a = b"
  by (cases a; cases b) simp_all

lemma slot_address_9 [simp]: "slot_address k \<noteq> 9" "9 \<noteq> slot_address k"
  by (cases k; simp)+

lemma fbind_simps [simp]: "fbind (Inl e) f = Inl e" "fbind (Inr x) f = f x"
  by (simp_all add: fbind_def)

lemma notify_frame [simp]:
  "heap (notify b n m) = heap m" "slots (notify b n m) = slots m" "current (notify b n m) = current m"
  by (simp_all add: notify_def)

lemma life_inv_notify [simp]: "life_inv k (notify b n m) = life_inv k m"
  by (simp add: life_inv_def)

lemma current_kind_life: "life_inv k m \<Longrightarrow> current_kind m = Inr k"
  by (simp add: life_inv_def current_kind_def)

lemmas transition_to_state = transition_to_binding_def transition_to_bound_tx_def transition_to_bound_rx_def
  transition_to_bound_trx_def transition_to_unbinding_def transition_to_disconnected_def

declare transition_to_state [simp]

lemma transition_to_eq:
  assumes "life_inv k m" and "k' \<noteq> k"
  shows "transition_to k' m =
    Inr (notify (transition_callback m) (Transitioned (kind_name k) (kind_name k'))
      (m\<lparr>current := slots m k', heap := (heap m)(current m := None)\<rparr>))"
proof -
  have "heap m (current m) = Some k" using assms(1) by (simp add: life_inv_def)
  with assms show ?thesis
    by (simp add: transition_to_def get_current_state_def current_kind_life delete_def)
qed

lemma transition_to_life:
  assumes "life_inv k m" and "k' = k \<or> life_rank k < life_rank k'"
  shows "\<exists>m'. transition_to k' m = Inr m' \<and> life_inv k' m'"
proof (cases "k' = k")
  case True
  with assms(1) show ?thesis by (auto simp: transition_to_def get_current_state_def current_kind_life)
next
  case False
  have "life_inv k' (m\<lparr>current := slots m k', heap := (heap m)(current m := None)\<rparr>)"
    using assms False unfolding life_inv_def by (auto simp: less_trans)
  then show ?thesis by (simp add: transition_to_eq [OF assms(1) False])
qed

lemma transition_to_error_life:
  assumes "life_inv k m"
  shows "\<exists>m'. transition_to_error msg m = Inr m' \<and> life_inv Error m'"
proof -
  have "Error = k \<or> life_rank k < life_rank Error" by (cases k) simp_all
  from transition_to_life [OF assms this] show ?thesis by (auto simp: transition_to_error_def)
qed

lemma dispatch_rejected:
  assumes "life_inv k m" and "on_pdu k m = not_accepted pdu k"
  shows "\<exists>m'. dispatch_pdu on_pdu after m = Inr m' \<and> life_inv Error m'"
  using transition_to_error_life [OF assms(1)] assms
  by (simp add: dispatch_pdu_def current_kind_life not_accepted_def)

lemma dispatch_accepted:
  assumes "life_inv k m" and "on_pdu k m = accepted (Inr m')" and "life_inv k' (after m')"
  shows "\<exists>m''. dispatch_pdu on_pdu after m = Inr m'' \<and> life_inv k' m''"
  using assms by (simp add: dispatch_pdu_def current_kind_life accepted_def)

lemma dispatch_transition:
  assumes "life_inv k m" and "on_pdu k m = accepted (transition_to k' m)" and "life_rank k < life_rank k'"
    and "\<And>n. life_inv k' n \<Longrightarrow> life_inv k' (after n)"
  shows "\<exists>m'. dispatch_pdu on_pdu after m = Inr m' \<and> life_inv k' m'"
proof -
  obtain n where "transition_to k' m = Inr n" "life_inv k' n"
    using transition_to_life [OF assms(1), of k'] assms(3) by blast
  with assms(1,2,4) show ?thesis by (intro dispatch_accepted) auto
qed

lemmas v2_handler_defs = v2_handle_bind_def v2_handle_bind_resp_def v2_handle_unbind_def v2_handle_unbind_resp_def
  v2_handle_enquire_link_def v2_handle_enquire_link_resp_def v2_handle_submit_sm_def v2_handle_submit_sm_resp_def
  v2_handle_deliver_sm_def v2_handle_deliver_sm_resp_def

lemmas v2_state_defs = on_bind_def on_bind_resp_def on_unbind_def on_unbind_resp_def on_enquire_link_def
  on_enquire_link_resp_def on_submit_sm_def on_submit_sm_resp_def on_deliver_sm_def on_deliver_sm_resp_def

lemma unbind_resp_life:
  assumes "life_inv k m"
  shows "\<exists>m'. v2_handle_unbind_resp st m = Inr m' \<and> life_inv (next_kind k (Unbind_resp st)) m'"
proof -
  consider "k \<noteq> Unbinding" | "k = Unbinding" "st = 0" | "k = Unbinding" "st \<noteq> 0" by blast
  then show ?thesis
  proof cases
    case 1
    with assms show ?thesis
      by (auto simp: v2_handle_unbind_resp_def v2_state_defs intro: dispatch_rejected)
  next
    case 2
    with assms show ?thesis
      by (auto simp: v2_handle_unbind_resp_def v2_state_defs intro!: dispatch_transition [where k' = Disconnected])
  next
    case 3
    obtain n where "transition_to_error ''UNBIND failed'' m = Inr n" "life_inv Error n"
      using transition_to_error_life [OF assms] by blast
    with 3 assms show ?thesis
      by (auto simp: v2_handle_unbind_resp_def v2_state_defs intro!: dispatch_accepted [where m' = n])
  qed
qed

lemma bind_resp_life:
  assumes "life_inv k m"
  shows "\<exists>m'. v2_handle_bind_resp t st m = Inr m' \<and> life_inv (next_kind k (Bind_resp t st)) m'"
proof (cases "k = Binding \<and> next_kind k (Bind_resp t st) \<noteq> Binding")
  case True
  with assms show ?thesis unfolding v2_handle_bind_resp_def
    by (intro dispatch_transition [where k = k]) (auto simp: on_bind_resp_def split: if_splits)
next
  case False
  then consider "k \<noteq> Binding" | "k = Binding" "next_kind k (Bind_resp t st) = Binding" by blast
  then show ?thesis
  proof cases
    case 1
    with assms show ?thesis
      by (auto simp: v2_handle_bind_resp_def v2_state_defs intro: dispatch_rejected)
  next
    case 2
    with assms show ?thesis unfolding v2_handle_bind_resp_def
      by (intro dispatch_accepted [where k = k and m' = m]) (auto simp: on_bind_resp_def split: if_splits)
  qed
qed

lemma handle_op_life:
  assumes "life_inv k m"
  shows "\<exists>m'. handle_op a m = Inr m' \<and> life_inv (next_kind k a) m'"
proof (cases a)
  case (Bind_resp t st)
  then show ?thesis using bind_resp_life [OF assms] by simp
next
  case (Unbind_resp st)
  then show ?thesis using unbind_resp_life [OF assms] by simp
qed (use assms in \<open>cases k; auto simp: v2_handler_defs v2_state_defs
    intro: dispatch_rejected dispatch_transition dispatch_accepted\<close>)+

lemma run_ops_life:
  "life_inv k m \<Longrightarrow> \<exists>m'. run_ops as m = Inr m' \<and> life_inv (foldl next_kind k as) m'"
proof (induction as arbitrary: k m)
  case (Cons a as)
  from handle_op_life [OF Cons.prems] obtain n where "handle_op a m = Inr n" "life_inv (next_kind k a) n" by blast
  with Cons.IH [of "next_kind k a" n] show ?case by auto
qed simp

lemma init_states_life: "life_inv Idle init_states"
proof -
  have "heap init_states (slot_address k) = Some k" for k by (cases k) (simp_all add: init_states_def)
  then show ?thesis by (simp add: life_inv_def init_states_def)
qed

lemma connected_life: "\<exists>m. transition_to_connected init_states = Inr m \<and> life_inv Connected m"
  unfolding transition_to_connected_def by (rule transition_to_life [OF init_states_life]) simp

subsection \<open>Ownership\<close>

lemma delete_all_dead: "heap m p = None \<Longrightarrow> p \<in> set ps \<Longrightarrow> delete_all ps m = Inl Double_free"
  by (induction ps arbitrary: m) (auto simp: fbind_def delete_def split: option.splits)

lemma delete_all_twice: "\<not> distinct ps \<Longrightarrow> delete_all ps m = Inl Double_free"
proof (induction ps arbitrary: m)
  case (Cons p ps)
  show ?case
  proof (cases "heap m p")
    case (Some k)
    have "delete_all ps (m\<lparr>heap := (heap m)(p := None)\<rparr>) = Inl Double_free"
    proof (cases "p \<in> set ps")
      case True
      then show ?thesis by (intro delete_all_dead) simp_all
    next
      case False
      with Cons.prems show ?thesis by (intro Cons.IH) simp
    qed
    with Some show ?thesis by (simp add: delete_def)
  qed (simp add: delete_def)
qed simp

lemma destroy_double_free:
  assumes "life_inv k m" and "k \<noteq> Idle"
  shows "destroy m = Inl Double_free"
proof -
  have "current m = slots m k" using assms by (auto simp: life_inv_def)
  then show ?thesis unfolding destroy_def by (intro delete_all_twice) (cases k; simp)
qed

lemma evolves_notify [simp]: "evolves m (notify b n m') = evolves m m'"
  by (simp add: evolves_def)

lemma evolves_refl [simp]: "evolves m m"
  by (simp add: evolves_def)

lemma transition_to_evolves: "transition_to k m = Inr m' \<Longrightarrow> evolves m m'"
  by (auto simp: transition_to_def fbind_def delete_def evolves_def map_le_def
      split: sum.splits option.splits if_splits)

lemma transition_to_error_evolves: "transition_to_error msg m = Inr m' \<Longrightarrow> evolves m m'"
  by (auto simp: transition_to_error_def fbind_def split: sum.splits dest: transition_to_evolves)

lemma dispatch_evolves:
  assumes "dispatch_pdu on_pdu after m = Inr m'" and "\<And>k n. on_pdu k m = Inr (Inr n) \<Longrightarrow> evolves m n"
    and "\<And>n. evolves m n \<Longrightarrow> evolves m (after n)"
  shows "evolves m m'"
  using assms by (auto simp: dispatch_pdu_def fbind_def split: sum.splits dest: transition_to_error_evolves)

lemma accepted_evolves:
  "accepted (Inr m) = Inr (Inr n) \<Longrightarrow> evolves m n"
  "accepted (transition_to k m) = Inr (Inr n) \<Longrightarrow> evolves m n"
  "accepted (transition_to_error msg m) = Inr (Inr n) \<Longrightarrow> evolves m n"
  by (auto simp: accepted_def fbind_def split: sum.splits dest: transition_to_evolves transition_to_error_evolves)

lemma handle_op_evolves: "handle_op a m = Inr m' \<Longrightarrow> evolves m m'"
  by (cases a) (auto simp: v2_handler_defs v2_state_defs not_accepted_def split: if_splits
      dest: accepted_evolves elim!: dispatch_evolves)

lemma next_kind_not_Idle: "next_kind k a = Idle \<Longrightarrow> k = Idle"
  by (cases a) (auto split: if_splits)

lemma foldl_next_not_Idle: "k \<noteq> Idle \<Longrightarrow> foldl next_kind k as \<noteq> Idle"
  by (induction as arbitrary: k) (auto dest: next_kind_not_Idle)

lemma run_ops_frees_connected:
  assumes "life_inv k m" and "k \<noteq> Idle" and "k = Connected \<or> heap m (slot_address Connected) = None"
    and "run_ops as m = Inr m'"
  shows "foldl next_kind k as = Connected \<or> heap m' (slot_address Connected) = None"
  using assms
proof (induction as arbitrary: k m)
  case (Cons a as)
  from handle_op_life [OF Cons.prems(1)] obtain n where n: "handle_op a m = Inr n" "life_inv (next_kind k a) n" by blast
  have e: "evolves m n" by (rule handle_op_evolves [OF n(1)])
  have "next_kind k a \<noteq> Idle" using Cons.prems(2) next_kind_not_Idle by blast
  moreover have "next_kind k a = Connected \<or> heap n (slot_address Connected) = None"
    using e n(2) Cons.prems(1,2,3) \<open>next_kind k a \<noteq> Idle\<close>
    by (auto simp: evolves_def life_inv_def map_le_def dom_def)
  ultimately show ?case using Cons.IH [OF n(2)] Cons.prems(4) n(1) by simp
qed simp

section \<open>Properties\<close>



text \<open>
  A machine that left CONNECTED cannot be connected again: the instance was deleted when it was
  left, so the second connect installs a dangling pointer and the next call goes through it.
\<close>

theorem v2_reconnect_dangles:
  assumes "transition_to_connected init_states = Inr m" and "run_ops as m = Inr m'"
    and "foldl next_kind Connected as \<noteq> Connected" and "transition_to_connected m' = Inr m''"
  shows "get_current_state m'' = Inl Use_after_free"
proof -
  have l: "life_inv Connected m" using connected_life assms(1) by simp
  then have dead: "heap m' (slot_address Connected) = None"
    using run_ops_frees_connected [OF l _ _ assms(2)] assms(3) by simp
  obtain n where "run_ops as m = Inr n" "life_inv (foldl next_kind Connected as) n" using run_ops_life [OF l] by blast
  with assms(2) have l': "life_inv (foldl next_kind Connected as) m'" by simp
  have "slots m' = slot_address" using l' by (simp add: life_inv_def)
  with transition_to_eq [OF l'] assms(3,4) have "current m'' = slot_address Connected"
    unfolding transition_to_connected_def by auto
  moreover have "heap m'' (slot_address Connected) = None"
    using transition_to_evolves [OF assms(4) [unfolded transition_to_connected_def]] dead
    by (auto simp: evolves_def map_le_def dom_def)
  ultimately show ?thesis by (simp add: get_current_state_def current_kind_def)
qed

text \<open>
  A successful response to a bind with the command id that the session component uses for
  receivers (0x80000003) leaves the machine in BINDING but reports success.
\<close>

theorem v2_unknown_bind_response:
  assumes "life_inv Binding m"
  shows "v2_handle_bind_resp 0x80000003 0 m = Inr (notify (bind_success_callback m) (Bind_succeeded 0x80000003) m)"
  using assms by (simp add: v2_handle_bind_resp_def dispatch_pdu_def current_kind_life on_bind_resp_def accepted_def)

text \<open>
  The wrapper never connects its machine, so a bind request through it always ends in ERROR_STATE, and
  destroying the handler afterwards frees the error state twice.
\<close>

theorem handler_bind_request_fails:
  "\<exists>h. handle_bind_request cmd (new_client_handler fd) = Inr h
     \<and> get_current_state (state_machine h) = Inr ''ERROR_STATE'' \<and> handler_destroy h = Inl Double_free"
proof -
  have "life_inv Idle (state_machine (new_client_handler fd))"
    by (simp add: new_client_handler_def init_states_life)
  from handle_op_life [OF this, of "Bind cmd [] []"] obtain m where
    m: "v2_handle_bind cmd [] [] (state_machine (new_client_handler fd)) = Inr m" "life_inv Error m"
    by auto
  from destroy_double_free [OF m(2)] have "destroy m = Inl Double_free" by simp
  with m show ?thesis
    by (simp add: handle_bind_request_def with_machine_def get_current_state_def current_kind_life handler_destroy_def
        handler_stop_def)
qed

end
