(* ===== verification/Pdu_Framer.thy ===== *)
theory Pdu_Framer
  imports Smpp_Pdu
begin

text \<open>
  The stream reassembler of the server (SMPPServer/include/smpp_pdu_framer.hpp and
  SMPPServer/src/smpp_pdu_framer.cpp). The framer collects the bytes of one PDU in \<open>full_pdu\<close>;
  \<open>size_t\<close> differences are computed on 64-bit words, as in the source, and the lemmas show that
  they never wrap. The theorems show that it reassembles a PDU from any split into reads that end
  at the header, and what it does with reads that do not.
\<close>

section \<open>Definitions\<close>

datatype framer_state = WAITING_HEADER | WAITING_BODY | PDU_COMPLETE

record framer =
  fr_state :: framer_state
  full_pdu :: "byte list"
  fr_command_length :: u32
  fr_command_id :: u32
  fr_command_status :: u32
  fr_sequence_number :: u32

definition new_framer :: framer where
  "new_framer = \<lparr>fr_state = WAITING_HEADER, full_pdu = [], fr_command_length = 0, fr_command_id = 0,
     fr_command_status = 0, fr_sequence_number = 0\<rparr>"

definition be32_to_host :: "byte list \<Rightarrow> nat \<Rightarrow> u32" where
  "be32_to_host p off = be_join (p ! off) (p ! (off + 1)) (p ! (off + 2)) (p ! (off + 3))"

definition reset :: "framer \<Rightarrow> framer" where
  "reset f = f\<lparr>fr_state := WAITING_HEADER, full_pdu := [], fr_command_length := 0, fr_command_id := 0,
     fr_command_status := 0, fr_sequence_number := 0\<rparr>"

definition parse_header :: "framer \<Rightarrow> framer" where
  "parse_header f =
     (if length (full_pdu f) < 16 then f
      else f\<lparr>fr_command_length := be32_to_host (full_pdu f) 0,
             fr_command_id := be32_to_host (full_pdu f) 4,
             fr_command_status := be32_to_host (full_pdu f) 8,
             fr_sequence_number := be32_to_host (full_pdu f) 12\<rparr>)"

definition bytes_needed :: "framer \<Rightarrow> u64" where
  "bytes_needed f =
     (case fr_state f of
        WAITING_HEADER \<Rightarrow> 16 - of_nat (length (full_pdu f))
      | WAITING_BODY \<Rightarrow> ucast (fr_command_length f) - of_nat (length (full_pdu f))
      | PDU_COMPLETE \<Rightarrow> 0)"

definition feed_bytes :: "byte list \<Rightarrow> framer \<Rightarrow> bool \<times> framer" where
  "feed_bytes input f =
     (if input = [] then (False, f)
      else
        let to_read = unat (bytes_needed f);
            can_read = min (length input) to_read;
            f = f\<lparr>full_pdu := full_pdu f @ take can_read input\<rparr>
        in case fr_state f of
             WAITING_HEADER \<Rightarrow>
               if 16 \<le> length (full_pdu f) then
                 let f = parse_header f
                 in if 16 \<le> fr_command_length f then (False, f\<lparr>fr_state := WAITING_BODY\<rparr>) else (False, f)
               else (False, f)
           | WAITING_BODY \<Rightarrow>
               if unat (fr_command_length f) \<le> length (full_pdu f) then (True, f\<lparr>fr_state := PDU_COMPLETE\<rparr>)
               else (False, f)
           | PDU_COMPLETE \<Rightarrow> (False, f))"

text \<open>Successive reads, with the verdict of each.\<close>

fun feed_all :: "byte list list \<Rightarrow> framer \<Rightarrow> bool list \<times> framer" where
  "feed_all [] f = ([], f)"
| "feed_all (c # cs) f = (let (b, f) = feed_bytes c f; (bs, f) = feed_all cs f in (b # bs, f))"

subsection \<open>Vocabulary of the properties\<close>

inductive framer_step :: "framer \<Rightarrow> framer \<Rightarrow> bool" where
  feed: "framer_step f (snd (feed_bytes input f))"
| reset: "framer_step f (reset f)"

definition framer_start :: "framer \<Rightarrow> bool" where
  "framer_start f \<longleftrightarrow> f = new_framer"

definition framer_header :: "framer \<Rightarrow> header" where
  "framer_header f = \<lparr>command_length = fr_command_length f, command_id = fr_command_id f,
     command_status = fr_command_status f, sequence_number = fr_sequence_number f\<rparr>"

text \<open>The size at which the framer leaves its current state.\<close>

definition framer_goal :: "framer \<Rightarrow> nat" where
  "framer_goal f = (if fr_state f = WAITING_HEADER then 16 else unat (fr_command_length f))"

definition framer_inv :: "framer \<Rightarrow> bool" where
  "framer_inv f \<longleftrightarrow>
     length (full_pdu f) \<le> framer_goal f
     \<and> (fr_state f = PDU_COMPLETE \<longrightarrow> length (full_pdu f) = framer_goal f)
     \<and> (fr_state f \<noteq> WAITING_HEADER \<longrightarrow>
          16 \<le> length (full_pdu f) \<and> framer_header f = decode_header (full_pdu f))"

text \<open>Non-empty reads that do not cross the end of the header, after \<open>n\<close> bytes.\<close>

fun header_aligned :: "nat \<Rightarrow> byte list list \<Rightarrow> bool" where
  "header_aligned n [] \<longleftrightarrow> True"
| "header_aligned n (c # cs) \<longleftrightarrow>
     c \<noteq> [] \<and> (if n < 16 then n + length c \<le> 16 else True) \<and> header_aligned (n + length c) cs"

text \<open>The framer after the bytes \<open>p\<close> of a PDU of \<open>n\<close> bytes.\<close>

definition framer_after :: "nat \<Rightarrow> byte list \<Rightarrow> framer" where
  "framer_after n p =
     (if length p < 16 then new_framer\<lparr>full_pdu := p\<rparr>
      else parse_header (new_framer\<lparr>full_pdu := p,
        fr_state := if length p = n then PDU_COMPLETE else WAITING_BODY\<rparr>))"

section \<open>Lemmas\<close>

lemma be32_to_host_read: "be32_to_host p off = read_u32 p off"
  by (simp add: be32_to_host_def read_u32_def)

lemma parse_header_simps [simp]:
  "full_pdu (parse_header f) = full_pdu f" "fr_state (parse_header f) = fr_state f"
  by (simp_all add: parse_header_def)

lemma parse_header_decodes:
  "16 \<le> length (full_pdu f) \<Longrightarrow> framer_header (parse_header f) = decode_header (full_pdu f)"
  by (simp add: parse_header_def framer_header_def decode_header_def be32_to_host_read)

lemma framer_header_cong [simp]:
  "framer_header (f\<lparr>fr_state := st\<rparr>) = framer_header f"
  "framer_header (f\<lparr>full_pdu := p\<rparr>) = framer_header f"
  by (simp_all add: framer_header_def)

lemma read_u32_append: "off + 3 < length p \<Longrightarrow> read_u32 (p @ q) off = read_u32 p off"
  by (simp add: read_u32_def nth_append)

lemma decode_header_append: "16 \<le> length p \<Longrightarrow> decode_header (p @ q) = decode_header p"
  by (simp add: decode_header_def read_u32_append)

lemma reset_new: "reset f = new_framer"
  by (simp add: reset_def new_framer_def)

text \<open>The \<open>size_t\<close> differences do not wrap while the invariant holds.\<close>

lemma bytes_needed_eq:
  assumes "framer_inv f"
  shows "unat (bytes_needed f) = framer_goal f - length (full_pdu f)"
proof -
  have below: "framer_goal f < 2 ^ 32"
    using unsigned_less [of "fr_command_length f"] by (auto simp: framer_goal_def)
  then have "framer_goal f < 2 ^ 64" by (rule less_trans) simp
  moreover have "length (full_pdu f) \<le> framer_goal f" using assms by (simp add: framer_inv_def)
  ultimately have "unat (of_nat (framer_goal f) - of_nat (length (full_pdu f)) :: u64)
      = framer_goal f - length (full_pdu f)"
    by (simp add: unat_sub_if_size word_size unat_of_nat take_bit_nat_eq_self flip: of_nat_diff)
  moreover have "bytes_needed f = of_nat (framer_goal f) - of_nat (length (full_pdu f))"
    using assms by (cases "fr_state f") (auto simp: bytes_needed_def framer_goal_def framer_inv_def
        unsigned_ucast_eq)
  ultimately show ?thesis by simp
qed

lemma feed_bytes_inv:
  assumes "framer_inv f"
  shows "framer_inv (snd (feed_bytes input f))"
proof (cases "input = []")
  case False
  define k where "k = min (length input) (framer_goal f - length (full_pdu f))"
  define g where "g = f\<lparr>full_pdu := full_pdu f @ take k input\<rparr>"
  have k: "length (take k input) = k" by (simp add: k_def)
  have fed: "feed_bytes input f = (case fr_state g of
      WAITING_HEADER \<Rightarrow> if 16 \<le> length (full_pdu g) then
          let h = parse_header g in if 16 \<le> fr_command_length h then (False, h\<lparr>fr_state := WAITING_BODY\<rparr>) else (False, h)
        else (False, g)
    | WAITING_BODY \<Rightarrow> if unat (fr_command_length g) \<le> length (full_pdu g) then (True, g\<lparr>fr_state := PDU_COMPLETE\<rparr>)
        else (False, g)
    | PDU_COMPLETE \<Rightarrow> (False, g))"
    using False by (cases "fr_state f") (simp_all add: feed_bytes_def bytes_needed_eq [OF assms] g_def k_def Let_def)
  have g: "framer_inv g"
    using assms k by (auto simp: framer_inv_def g_def framer_goal_def decode_header_append k_def)
  show ?thesis
  proof (cases "fr_state g")
    case WAITING_HEADER
    then have "length (full_pdu g) \<le> 16" using g by (simp add: framer_inv_def framer_goal_def)
    moreover have "16 \<le> fr_command_length (parse_header g) \<Longrightarrow> 16 \<le> unat (fr_command_length (parse_header g))"
      by (simp add: word_le_nat_alt)
    ultimately show ?thesis
      using WAITING_HEADER g by (auto simp: fed framer_inv_def framer_goal_def parse_header_decodes Let_def)
  qed (use g in \<open>auto simp: fed framer_inv_def framer_goal_def\<close>)
qed (use assms in \<open>simp add: feed_bytes_def\<close>)

lemma new_framer_inv: "framer_inv new_framer"
  by (simp add: framer_inv_def new_framer_def framer_goal_def)

interpretation framing: inductive_invariant framer_start framer_step framer_inv
  by unfold_locales
    (auto simp: framer_start_def new_framer_inv reset_new elim!: framer_step.cases intro: feed_bytes_inv)

lemma framer_after_inv:
  assumes "length p \<le> n" and "16 \<le> length p \<Longrightarrow> unat (read_u32 p 0) = n"
  shows "framer_inv (framer_after n p)"
  using assms
  by (auto simp: framer_after_def framer_inv_def framer_goal_def new_framer_def parse_header_def
      framer_header_def decode_header_def be32_to_host_read)

text \<open>One read that does not cross the end of the header or of the PDU.\<close>

lemma feed_after:
  assumes c: "c \<noteq> []" and n: "16 < n" "length (p @ c) \<le> n"
    and aligned: "length p < 16 \<Longrightarrow> length (p @ c) \<le> 16"
    and announced: "16 \<le> length (p @ c) \<Longrightarrow> unat (read_u32 (p @ c) 0) = n"
  shows "feed_bytes c (framer_after n p) = (length (p @ c) = n, framer_after n (p @ c))"
proof (cases "length p < 16")
  case True
  then have "framer_inv (framer_after n p)" using n by (intro framer_after_inv) auto
  from bytes_needed_eq [OF this] True
  have "unat (bytes_needed (framer_after n p)) = 16 - length p"
    by (simp add: framer_after_def framer_goal_def new_framer_def)
  then show ?thesis
    using True c n aligned announced
    by (auto simp: feed_bytes_def framer_after_def new_framer_def parse_header_def be32_to_host_read
        word_le_nat_alt Let_def)
next
  case False
  have head: "read_u32 (p @ c) k = read_u32 p k" if "k \<le> 12" for k
    using False that by (simp add: read_u32_append)
  have "framer_inv (framer_after n p)" using n False announced head by (intro framer_after_inv) auto
  from bytes_needed_eq [OF this] False announced head
  have "unat (bytes_needed (framer_after n p)) = n - length p"
    by (simp add: framer_after_def framer_goal_def new_framer_def parse_header_def be32_to_host_read)
  moreover have "length p \<noteq> n" using c n by auto
  ultimately show ?thesis
    using False c n announced head
    by (auto simp: feed_bytes_def framer_after_def new_framer_def parse_header_def be32_to_host_read Let_def)
qed

lemma feed_all_after:
  assumes "16 < length (p @ concat cs)" and "unat (read_u32 (p @ concat cs) 0) = length (p @ concat cs)"
    and "header_aligned (length p) cs"
  shows "feed_all cs (framer_after (length (p @ concat cs)) p) =
    (if cs = [] then [] else replicate (length cs - 1) False @ [True],
     framer_after (length (p @ concat cs)) (p @ concat cs))"
  using assms
proof (induction cs arbitrary: p)
  case (Cons c cs)
  let ?n = "length (p @ concat (c # cs))"
  have "16 \<le> length (p @ c) \<Longrightarrow> read_u32 (p @ c) 0 = read_u32 (p @ concat (c # cs)) 0"
    using read_u32_append [of 0 "p @ c" "concat cs"] by simp
  then have fed: "feed_bytes c (framer_after ?n p) = (length (p @ c) = ?n, framer_after ?n (p @ c))"
    using Cons.prems by (intro feed_after) (auto split: if_splits)
  have last: "length (p @ c) = ?n \<longleftrightarrow> cs = []"
    using Cons.prems(3) by (cases cs) auto
  have rest: "feed_all cs (framer_after ?n (p @ c)) =
      (if cs = [] then [] else replicate (length cs - 1) False @ [True], framer_after ?n (p @ concat (c # cs)))"
    using Cons.IH [of "p @ c"] Cons.prems by simp
  show ?case
  proof (cases cs)
    case (Cons d ds)
    then show ?thesis using fed last rest by simp
  qed (use fed last in simp)
qed simp

section \<open>Properties\<close>

text \<open>
  C23: reassembly. A PDU longer than its header that arrives in any number of non-empty reads, none
  of which crosses the end of the header, is completed by the last read and by no earlier one, with
  exactly its bytes and its decoded header.
\<close>

theorem framer_reassembles:
  assumes "16 < length p" and "unat (command_length (decode_header p)) = length p"
    and "concat cs = p" and "header_aligned 0 cs"
  shows "\<exists>f. feed_all cs new_framer = (replicate (length cs - 1) False @ [True], f)
    \<and> fr_state f = PDU_COMPLETE \<and> full_pdu f = p \<and> framer_header f = decode_header p"
proof -
  have "cs \<noteq> []" using assms(1,3) by auto
  moreover have "framer_after (length p) [] = new_framer" by (simp add: framer_after_def new_framer_def)
  ultimately have "feed_all cs new_framer = (replicate (length cs - 1) False @ [True], framer_after (length p) p)"
    using feed_all_after [of "[]" cs] assms by (simp add: decode_header_def)
  moreover have "framer_header (framer_after (length p) p) = decode_header p"
    using assms(1) parse_header_decodes [of "new_framer\<lparr>full_pdu := p, fr_state := PDU_COMPLETE\<rparr>"]
    by (simp add: framer_after_def)
  ultimately show ?thesis using assms(1) by (simp add: framer_after_def)
qed

theorem framer_reassembles_witness:
  "\<exists>f. feed_all [[0, 0, 0, 18, 0, 0, 0, 2], [0, 0, 0, 0, 0, 0, 0, 7], [65], [0]] new_framer
      = ([False, False, False, True], f)
    \<and> fr_state f = PDU_COMPLETE \<and> fr_sequence_number f = 7"
proof -
  let ?p = "[0, 0, 0, 18, 0, 0, 0, 2, 0, 0, 0, 0, 0, 0, 0, 7, 65, 0] :: byte list"
  have d: "decode_header ?p = \<lparr>command_length = 18, command_id = 2, command_status = 0, sequence_number = 7\<rparr>"
    by (simp add: decode_header_def read_u32_def be_join_def)
  let ?cs = "[[0, 0, 0, 18, 0, 0, 0, 2], [0, 0, 0, 0, 0, 0, 0, 7], [65], [0]] :: byte list list"
  obtain f where "feed_all ?cs new_framer = (replicate (length ?cs - 1) False @ [True], f)"
      "fr_state f = PDU_COMPLETE" "framer_header f = decode_header ?p"
    using framer_reassembles [of ?p ?cs] by (auto simp del: feed_all.simps simp: d)
  then show ?thesis
    by (intro exI [of _ f]) (simp del: feed_all.simps add: d framer_header_def)
qed

text \<open>
  C24: the framer never overruns. In every reachable state the bytes it asks for are exactly those
  that are missing (the unsigned difference does not wrap), and a completed PDU has the length it
  announces and the header fields the framer reports.
\<close>

theorem framer_never_overruns:
  assumes "reachable framer_start framer_step f"
  shows "length (full_pdu f) + unat (bytes_needed f) = framer_goal f
    \<and> (fr_state f = PDU_COMPLETE \<longrightarrow>
         length (full_pdu f) = unat (fr_command_length f) \<and> framer_header f = decode_header (full_pdu f))"
  using framing.holds [OF assms] bytes_needed_eq [of f] by (auto simp: framer_inv_def framer_goal_def)

theorem framer_never_overruns_witness:
  "unat (bytes_needed (snd (feed_bytes [0, 0, 0] new_framer))) = 13"
proof -
  have "reachable framer_start framer_step (snd (feed_bytes [0, 0, 0] new_framer))"
    by (rule reach_step [of _ _ new_framer]) (simp_all add: reach_start framer_start_def feed)
  from framer_never_overruns [OF this] show ?thesis
    by (simp add: feed_bytes_def new_framer_def bytes_needed_def framer_goal_def)
qed

text \<open>
  A read that holds a whole PDU is cut at the header: the framer keeps the header, drops the rest
  of the read and waits for a body that has already arrived.
\<close>

theorem framer_drops_body:
  assumes "16 \<le> length p" and "16 \<le> command_length (decode_header p)"
  shows "feed_bytes (p @ q) new_framer =
    (False, (framer_after (2 ^ 32) (take 16 p))\<lparr>fr_state := WAITING_BODY\<rparr>)"
proof -
  have "p \<noteq> []" using assms(1) by auto
  moreover have "read_u32 (take 16 p) k = read_u32 p k" if "k \<le> 12" for k
    using assms(1) that by (simp add: read_u32_def)
  ultimately show ?thesis
    using assms by (simp add: feed_bytes_def bytes_needed_def new_framer_def framer_after_def
        parse_header_def be32_to_host_read decode_header_def Let_def min_def)
qed

text \<open>
  A PDU that is only a header is not completed by its own bytes but by the next read, which is
  dropped.
\<close>

theorem framer_header_only_waits:
  assumes "framer_inv f" and "fr_state f = WAITING_BODY" and "length (full_pdu f) = unat (fr_command_length f)"
    and "c \<noteq> []"
  shows "feed_bytes c f = (True, f\<lparr>fr_state := PDU_COMPLETE\<rparr>)"
  using assms bytes_needed_eq [OF assms(1)] by (simp add: feed_bytes_def framer_goal_def)

text \<open>A header that announces fewer than 16 bytes blocks the framer: no read changes it again.\<close>

theorem framer_short_length_blocks:
  assumes "fr_state f = WAITING_HEADER" and "length (full_pdu f) = 16" and "parse_header f = f"
    and "fr_command_length f < 16"
  shows "feed_all cs f = (replicate (length cs) False, f)"
proof (induction cs)
  case (Cons c cs)
  have "feed_bytes c f = (False, f)"
    using assms by (simp add: feed_bytes_def bytes_needed_def Let_def)
  with Cons show ?case by simp
qed simp

end
