(* ===== verification/Server_Handler.thy ===== *)
theory Server_Handler
  imports Pdu_Framer
begin

text \<open>
  The in-process client handler of the server: SmppSession (SMPPServer/src/smpp_session.cpp),
  SmppHandler (SMPPServer/src/smpp_handler.cpp), SmppServiceManager
  (SMPPServer/src/smpp_service_manager.cpp) and SmppClientHandler
  (SMPPServer/src/smpp_client_handler.cpp). The PDU classes of the smppcxx library are a
  parameter: \<open>bind_parser\<close> is the constructor of the bind request class of a command id, with the
  text of the exception it throws or the system id and password it holds.

  All handlers run on one strand, so they are atomic and a send_pdu from a handler is executed
  inline. The asio operations in progress are explicit: \<open>reading\<close> is an outstanding
  async_read_some, \<open>writing\<close> the buffers of the outstanding async_writes. A completion may carry any
  result, also after the socket was closed. \<open>handed\<close> lists the PDUs given to enqueue_pdu and
  \<open>completed\<close> the buffers whose write succeeded; the code does not read them.
\<close>

section \<open>Definitions\<close>

subsection \<open>SmppSession\<close>

datatype bound_state = UNBOUND | BOUND_TRANSMITTER | BOUND_RECEIVER | BOUND_TRANSCEIVER

record smpp_session =
  ss_state :: bound_state
  ss_system_id :: string
  sequence_counter :: u32

definition new_smpp_session :: smpp_session where
  "new_smpp_session = \<lparr>ss_state = UNBOUND, ss_system_id = [], sequence_counter = 0\<rparr>"

definition set_state :: "bound_state \<Rightarrow> smpp_session \<Rightarrow> smpp_session" where
  "set_state new_state ses = ses\<lparr>ss_state := new_state\<rparr>"

definition set_system_id :: "string \<Rightarrow> smpp_session \<Rightarrow> smpp_session" where
  "set_system_id sys_id ses = ses\<lparr>ss_system_id := sys_id\<rparr>"

definition next_sequence_number :: "smpp_session \<Rightarrow> u32 \<times> smpp_session" where
  "next_sequence_number ses =
     (let ses = ses\<lparr>sequence_counter := sequence_counter ses + 1\<rparr> in (sequence_counter ses, ses))"

definition ss_is_bound :: "smpp_session \<Rightarrow> bool" where
  "ss_is_bound ses \<longleftrightarrow> ss_state ses \<noteq> UNBOUND"

subsection \<open>SmppHandler\<close>

abbreviation (input) CMD_BIND_RECEIVER :: u32 where "CMD_BIND_RECEIVER \<equiv> 0x00000001"
abbreviation (input) CMD_BIND_TRANSMITTER :: u32 where "CMD_BIND_TRANSMITTER \<equiv> 0x00000002"
abbreviation (input) CMD_BIND_TRANSCEIVER :: u32 where "CMD_BIND_TRANSCEIVER \<equiv> 0x00000009"
abbreviation (input) CMD_UNBIND :: u32 where "CMD_UNBIND \<equiv> 0x00000006"
abbreviation (input) CMD_ENQUIRE_LINK :: u32 where "CMD_ENQUIRE_LINK \<equiv> 0x0000000F"

datatype response_class =
  BindReceiverResp | BindTransmitterResp | BindTransceiverResp | UnbindResp | EnquireLinkResp | GenericNack

record response =
  resp_class :: response_class
  resp_status :: u32
  resp_sequence :: u32
  resp_system_id :: string

type_synonym bind_parser = "u32 \<Rightarrow> byte list \<Rightarrow> string + string \<times> string"

definition ntoh32 :: "byte list \<Rightarrow> nat \<Rightarrow> u32" where
  "ntoh32 p off = be_join (p ! off) (p ! (off + 1)) (p ! (off + 2)) (p ! (off + 3))"

text \<open>The encoder is a placeholder in the source: it returns an empty vector.\<close>

definition encode_pdu :: "response \<Rightarrow> byte list" where
  "encode_pdu resp = []"

definition validate_credentials :: "string \<Rightarrow> string \<Rightarrow> bool" where
  "validate_credentials username password \<longleftrightarrow> username = ''test'' \<and> password = ''test''"

definition bind_response :: "u32 \<Rightarrow> u32 \<Rightarrow> u32 \<Rightarrow> string \<Rightarrow> response" where
  "bind_response cmd status sequence sys_id =
     \<lparr>resp_class = (if cmd = CMD_BIND_RECEIVER then BindReceiverResp
                    else if cmd = CMD_BIND_TRANSMITTER then BindTransmitterResp
                    else BindTransceiverResp),
      resp_status = status, resp_sequence = sequence, resp_system_id = sys_id\<rparr>"

definition bound_state_of :: "u32 \<Rightarrow> bound_state" where
  "bound_state_of cmd =
     (if cmd = CMD_BIND_RECEIVER then BOUND_RECEIVER
      else if cmd = CMD_BIND_TRANSMITTER then BOUND_TRANSMITTER
      else BOUND_TRANSCEIVER)"

text \<open>An \<open>Inl\<close> result is an exception that leaves the function.\<close>

definition build_bind_resp ::
    "bind_parser \<Rightarrow> u32 \<Rightarrow> byte list \<Rightarrow> u32 \<Rightarrow> smpp_session \<Rightarrow> string + byte list \<times> smpp_session" where
  "build_bind_resp parse cmd raw_pdu sequence ses =
     (if ss_is_bound ses then Inr (encode_pdu (bind_response cmd 0x05 sequence []), ses)
      else case parse cmd raw_pdu of
        Inl ex \<Rightarrow> Inr (encode_pdu (bind_response cmd 0x0E sequence []), ses)
      | Inr (username, password) \<Rightarrow>
          if \<not> validate_credentials username password
          then Inr (encode_pdu (bind_response cmd 0x0E sequence []), ses)
          else
            let ses = set_system_id username ses;
                ses = set_state (bound_state_of cmd) ses
            in Inr (encode_pdu (bind_response cmd 0x00 sequence ''TestServer''), ses))"

definition build_unbind_resp :: "u32 \<Rightarrow> u32 \<Rightarrow> byte list" where
  "build_unbind_resp status sequence = encode_pdu
     \<lparr>resp_class = UnbindResp, resp_status = status, resp_sequence = sequence, resp_system_id = []\<rparr>"

definition build_enquire_link_resp :: "u32 \<Rightarrow> u32 \<Rightarrow> byte list" where
  "build_enquire_link_resp status sequence = encode_pdu
     \<lparr>resp_class = EnquireLinkResp, resp_status = status, resp_sequence = sequence, resp_system_id = []\<rparr>"

definition build_generic_nack :: "u32 \<Rightarrow> u32 \<Rightarrow> byte list" where
  "build_generic_nack status sequence = encode_pdu
     \<lparr>resp_class = GenericNack, resp_status = status, resp_sequence = sequence, resp_system_id = []\<rparr>"

subsection \<open>SmppClientHandler\<close>

record srv_handler =
  srv_session_id :: string
  srv_socket_open :: bool
  srv_framer :: framer
  srv_session :: smpp_session
  write_queue :: "byte list list"
  write_in_progress :: bool
  close_after_write :: bool
  reading :: bool
  writing :: "byte list list"
  handed :: "byte list list"
  completed :: "byte list list"
  stop_requests :: "string list"

definition new_srv_handler :: "string \<Rightarrow> srv_handler" where
  "new_srv_handler sid =
     \<lparr>srv_session_id = sid, srv_socket_open = True, srv_framer = new_framer, srv_session = new_smpp_session,
      write_queue = [], write_in_progress = False, close_after_write = False,
      reading = False, writing = [], handed = [], completed = [], stop_requests = []\<rparr>"

text \<open>SmppServiceManager only logs the request and reports success.\<close>

definition stop_authenticator :: "string \<Rightarrow> srv_handler \<Rightarrow> bool \<times> srv_handler" where
  "stop_authenticator sid h = (True, h\<lparr>stop_requests := stop_requests h @ [sid]\<rparr>)"

definition srv_close :: "srv_handler \<Rightarrow> srv_handler" where
  "srv_close h = (let h = snd (stop_authenticator (srv_session_id h) h) in h\<lparr>srv_socket_open := False\<rparr>)"

definition do_read :: "srv_handler \<Rightarrow> srv_handler" where
  "do_read h = h\<lparr>reading := True\<rparr>"

definition srv_start :: "srv_handler \<Rightarrow> srv_handler" where
  "srv_start h = do_read h"

definition do_write :: "srv_handler \<Rightarrow> srv_handler" where
  "do_write h =
     (if write_queue h = [] then h\<lparr>write_in_progress := False\<rparr>
      else h\<lparr>writing := writing h @ [hd (write_queue h)]\<rparr>)"

definition enqueue_pdu :: "byte list \<Rightarrow> srv_handler \<Rightarrow> srv_handler" where
  "enqueue_pdu pdu h =
     (let h = h\<lparr>write_queue := write_queue h @ [pdu], handed := handed h @ [pdu]\<rparr>
      in if \<not> write_in_progress h then do_write (h\<lparr>write_in_progress := True\<rparr>) else h)"

definition srv_send_pdu :: "byte list \<Rightarrow> srv_handler \<Rightarrow> srv_handler" where
  "srv_send_pdu pdu h = enqueue_pdu pdu h"

definition on_write :: "string option \<Rightarrow> srv_handler \<Rightarrow> srv_handler" where
  "on_write ec h =
     (case ec of
        Some e \<Rightarrow> srv_close h
      | None \<Rightarrow>
          let h = h\<lparr>write_queue := tl (write_queue h)\<rparr>
          in if close_after_write h then srv_close h
             else if write_queue h \<noteq> [] then do_write h
             else h\<lparr>write_in_progress := False\<rparr>)"

definition srv_handle_bind :: "bind_parser \<Rightarrow> u32 \<Rightarrow> byte list \<Rightarrow> u32 \<Rightarrow> srv_handler \<Rightarrow> srv_handler" where
  "srv_handle_bind parse cmd raw_pdu sequence h =
     (case build_bind_resp parse cmd raw_pdu sequence (srv_session h) of
        Inr (resp, ses) \<Rightarrow> srv_send_pdu resp (h\<lparr>srv_session := ses\<rparr>)
      | Inl ex \<Rightarrow> srv_send_pdu (build_generic_nack 0x03 sequence) h)"

definition srv_handle_unbind :: "u32 \<Rightarrow> srv_handler \<Rightarrow> srv_handler" where
  "srv_handle_unbind sequence h =
     (if \<not> ss_is_bound (srv_session h) then srv_send_pdu (build_unbind_resp 0x0D sequence) h
      else
        let h = h\<lparr>close_after_write := True\<rparr>;
            h = srv_send_pdu (build_unbind_resp 0x00 sequence) h
        in h\<lparr>srv_session := set_state UNBOUND (srv_session h)\<rparr>)"

definition srv_handle_enquire_link :: "u32 \<Rightarrow> srv_handler \<Rightarrow> srv_handler" where
  "srv_handle_enquire_link sequence h =
     (if \<not> ss_is_bound (srv_session h) then srv_send_pdu (build_enquire_link_resp 0x0D sequence) h
      else srv_send_pdu (build_enquire_link_resp 0x00 sequence) h)"

definition handle_unknown :: "u32 \<Rightarrow> u32 \<Rightarrow> srv_handler \<Rightarrow> srv_handler" where
  "handle_unknown cmd sequence h = srv_send_pdu (build_generic_nack 0x03 sequence) h"

definition srv_dispatch_pdu :: "bind_parser \<Rightarrow> byte list \<Rightarrow> srv_handler \<Rightarrow> srv_handler" where
  "srv_dispatch_pdu parse pdu h =
     (if length pdu < 16 then h
      else
        let cmd = ntoh32 pdu 4; sequence = ntoh32 pdu 12
        in if cmd = CMD_BIND_RECEIVER \<or> cmd = CMD_BIND_TRANSMITTER
              \<or> cmd = CMD_BIND_TRANSCEIVER
           then srv_handle_bind parse cmd pdu sequence h
           else if cmd = CMD_UNBIND then srv_handle_unbind sequence h
           else if cmd = CMD_ENQUIRE_LINK then srv_handle_enquire_link sequence h
           else handle_unknown cmd sequence h)"

text \<open>
  The loop of on_read runs while the framer holds a complete PDU; reset ends it after one round.
\<close>

function drain_framer :: "bind_parser \<Rightarrow> srv_handler \<Rightarrow> srv_handler" where
  "drain_framer parse h =
     (if fr_state (srv_framer h) = PDU_COMPLETE then
        let h = srv_dispatch_pdu parse (full_pdu (srv_framer h)) h;
            h = h\<lparr>srv_framer := reset (srv_framer h)\<rparr>
        in drain_framer parse h
      else h)"
  by pat_completeness auto
termination
  by (relation "measure (\<lambda>(parse, h). if fr_state (srv_framer h) = PDU_COMPLETE then 1 else 0)")
    (auto simp: reset_new new_framer_def)

declare drain_framer.simps [simp del]

definition on_read :: "bind_parser \<Rightarrow> string + byte list \<Rightarrow> srv_handler \<Rightarrow> srv_handler" where
  "on_read parse result h =
     (case result of
        Inl ec \<Rightarrow> srv_close h
      | Inr input \<Rightarrow>
          let h = h\<lparr>srv_framer := snd (feed_bytes input (srv_framer h))\<rparr>
          in do_read (drain_framer parse h))"

subsection \<open>Runs\<close>

inductive srv_step :: "bind_parser \<Rightarrow> srv_handler \<Rightarrow> srv_handler \<Rightarrow> bool" for parse where
  read: "reading h \<Longrightarrow> srv_step parse h (on_read parse result (h\<lparr>reading := False\<rparr>))"
| wrote: "writing h = ps @ p # qs \<Longrightarrow>
    srv_step parse h (on_write None (h\<lparr>writing := ps @ qs, completed := completed h @ [p]\<rparr>))"
| write_failed: "writing h = ps @ p # qs \<Longrightarrow> srv_step parse h (on_write (Some e) (h\<lparr>writing := ps @ qs\<rparr>))"
| send: "srv_step parse h (srv_send_pdu pdu h)"

definition srv_started :: "srv_handler \<Rightarrow> bool" where
  "srv_started h \<longleftrightarrow> (\<exists>sid. h = srv_start (new_srv_handler sid))"

definition writer_inv :: "srv_handler \<Rightarrow> bool" where
  "writer_inv h \<longleftrightarrow>
     handed h = completed h @ write_queue h
     \<and> (writing h = [] \<or> write_queue h \<noteq> [] \<and> writing h = [hd (write_queue h)] \<and> write_in_progress h)
     \<and> (if write_in_progress h then writing h = [] \<longrightarrow> \<not> srv_socket_open h else write_queue h = [])"

definition login_inv :: "srv_handler \<Rightarrow> bool" where
  "login_inv h \<longleftrightarrow> (ss_is_bound (srv_session h) \<longrightarrow> ss_system_id (srv_session h) = ''test'')"

text \<open>A fragment of the state on which the handlers of a PDU act through enqueue_pdu only.\<close>

definition one_reply :: "srv_handler \<Rightarrow> srv_handler \<Rightarrow> bool" where
  "one_reply h h' \<longleftrightarrow> (\<exists>g. (g = h \<or> g = h\<lparr>close_after_write := True\<rparr>)
     \<and> (\<exists>ses. h' = (enqueue_pdu [] g)\<lparr>srv_session := ses\<rparr>
          \<and> (ss_is_bound ses \<longrightarrow> ses = srv_session h \<or> ss_system_id ses = ''test'')))"

text \<open>A run for the witnesses: a bind_transceiver in two reads, parsed as the built-in account.\<close>

definition example_parser :: bind_parser where
  "example_parser cmd raw = Inr (''test'', ''test'')"

definition example_connected :: srv_handler where
  "example_connected = srv_start (new_srv_handler ''s1'')"

definition example_header_read :: srv_handler where
  "example_header_read = on_read example_parser (Inr [0, 0, 0, 17, 0, 0, 0, 9, 0, 0, 0, 0, 0, 0, 0, 1])
     (example_connected\<lparr>reading := False\<rparr>)"

definition example_logged_in :: srv_handler where
  "example_logged_in = on_read example_parser (Inr [0]) (example_header_read\<lparr>reading := False\<rparr>)"

section \<open>Lemmas\<close>

lemma build_bind_resp_total: "\<exists>ses. build_bind_resp parse cmd raw sequence ses' = Inr ([], ses)
    \<and> (ss_is_bound ses \<longrightarrow> ses = ses' \<or> ss_system_id ses = ''test'')"
  by (auto simp: build_bind_resp_def encode_pdu_def validate_credentials_def set_system_id_def
      set_state_def Let_def split: sum.split prod.split)

lemma enqueue_pdu_session [simp]:
  "enqueue_pdu pdu (h\<lparr>srv_session := ses\<rparr>) = (enqueue_pdu pdu h)\<lparr>srv_session := ses\<rparr>"
  "srv_session (enqueue_pdu pdu h) = srv_session h"
  "srv_framer (enqueue_pdu pdu h) = srv_framer h"
  by (simp_all add: enqueue_pdu_def do_write_def Let_def)

lemma srv_session_same: "h\<lparr>srv_session := srv_session h\<rparr> = h" for h :: srv_handler
  by simp

lemma srv_dispatch_pdu_reply: "srv_dispatch_pdu parse pdu h = h \<or> one_reply h (srv_dispatch_pdu parse pdu h)"
proof (cases "length pdu < 16")
  case False
  let ?cmd = "ntoh32 pdu 4" and ?seq = "ntoh32 pdu 12"
  have keep: "one_reply h (enqueue_pdu [] h)"
    unfolding one_reply_def by (intro exI [of _ h] conjI exI [of _ "srv_session h"]) auto
  have "one_reply h (srv_handle_bind parse ?cmd pdu ?seq h)"
    using build_bind_resp_total [of parse ?cmd pdu ?seq "srv_session h"]
    by (force simp: srv_handle_bind_def srv_send_pdu_def one_reply_def)
  moreover have "one_reply h (srv_handle_unbind ?seq h)"
  proof (cases "ss_is_bound (srv_session h)")
    case True
    then show ?thesis
      unfolding one_reply_def srv_handle_unbind_def Let_def
      by (intro exI [of _ "h\<lparr>close_after_write := True\<rparr>"] conjI exI [of _ "set_state UNBOUND (srv_session h)"])
        (simp_all add: srv_send_pdu_def build_unbind_resp_def encode_pdu_def ss_is_bound_def set_state_def)
  qed (simp add: srv_handle_unbind_def srv_send_pdu_def build_unbind_resp_def encode_pdu_def keep)
  moreover have "one_reply h (srv_handle_enquire_link ?seq h)"
    by (simp add: srv_handle_enquire_link_def srv_send_pdu_def build_enquire_link_resp_def encode_pdu_def keep)
  moreover have "one_reply h (handle_unknown ?cmd ?seq h)"
    by (simp add: handle_unknown_def srv_send_pdu_def build_generic_nack_def encode_pdu_def keep)
  ultimately show ?thesis using False by (auto simp: srv_dispatch_pdu_def Let_def)
qed (simp add: srv_dispatch_pdu_def)

lemma drain_framer_eq:
  "drain_framer parse h =
     (if fr_state (srv_framer h) = PDU_COMPLETE
      then (srv_dispatch_pdu parse (full_pdu (srv_framer h)) h)\<lparr>srv_framer := new_framer\<rparr> else h)"
proof -
  have "fr_state new_framer \<noteq> PDU_COMPLETE" by (simp add: new_framer_def)
  then show ?thesis
    by (simp add: drain_framer.simps [of parse h] drain_framer.simps [of parse "_\<lparr>srv_framer := new_framer\<rparr>"]
        reset_new Let_def)
qed

text \<open>A read closes the handler, or feeds the framer and answers at most one PDU.\<close>

lemma on_read_cases:
  obtains (closed) "on_read parse result h = srv_close h"
  | (fed) g f where "g = h \<or> one_reply (h\<lparr>srv_framer := f\<rparr>) g \<or> g = h\<lparr>srv_framer := f\<rparr>"
      "\<exists>f'. on_read parse result h = do_read (g\<lparr>srv_framer := f'\<rparr>)"
proof (cases result)
  case (Inr input)
  let ?f = "snd (feed_bytes input (srv_framer h))"
  have same: "x = x\<lparr>srv_framer := srv_framer x\<rparr>" for x :: srv_handler by simp
  consider "on_read parse result h = do_read ((h\<lparr>srv_framer := ?f\<rparr>)\<lparr>srv_framer := ?f\<rparr>)"
    | g where "g = h\<lparr>srv_framer := ?f\<rparr> \<or> one_reply (h\<lparr>srv_framer := ?f\<rparr>) g"
        "on_read parse result h = do_read (g\<lparr>srv_framer := new_framer\<rparr>)"
    using srv_dispatch_pdu_reply [of parse "full_pdu ?f" "h\<lparr>srv_framer := ?f\<rparr>"]
    by (cases "fr_state ?f = PDU_COMPLETE") (auto simp: on_read_def drain_framer_eq Inr Let_def)
  then show thesis by cases (blast intro: fed)+
qed (use closed in \<open>simp add: on_read_def\<close>)

subsection \<open>Invariants\<close>

lemma enqueue_writer: "writer_inv h \<Longrightarrow> writer_inv (enqueue_pdu pdu h)"
  by (auto simp: writer_inv_def enqueue_pdu_def do_write_def Let_def hd_append split: if_splits)

lemma writer_cong [simp]:
  "writer_inv (h\<lparr>srv_framer := f\<rparr>) = writer_inv h"
  "writer_inv (h\<lparr>srv_session := ses\<rparr>) = writer_inv h"
  "writer_inv (h\<lparr>close_after_write := b\<rparr>) = writer_inv h"
  "writer_inv (h\<lparr>reading := r\<rparr>) = writer_inv h"
  by (simp_all add: writer_inv_def)

lemma close_writer: "writer_inv h \<Longrightarrow> writer_inv (srv_close h)"
  by (auto simp: writer_inv_def srv_close_def stop_authenticator_def Let_def)

lemma one_reply_writer: "one_reply h h' \<Longrightarrow> writer_inv h \<Longrightarrow> writer_inv h'"
  by (auto simp: one_reply_def intro!: enqueue_writer)

lemma on_read_writer: "writer_inv h \<Longrightarrow> writer_inv (on_read parse result h)"
  by (cases rule: on_read_cases [of parse result h])
    (auto simp: close_writer do_read_def dest: one_reply_writer)

lemma on_write_writer:
  assumes "writer_inv h" and "writing h = ps @ p # qs"
  shows "writer_inv (on_write None (h\<lparr>writing := ps @ qs, completed := completed h @ [p]\<rparr>))"
    and "writer_inv (on_write (Some e) (h\<lparr>writing := ps @ qs\<rparr>))"
proof -
  from assms have w: "ps = []" "qs = []" "write_queue h \<noteq> []" "hd (write_queue h) = p" "write_in_progress h"
    "handed h = completed h @ write_queue h"
    by (auto simp: writer_inv_def append_eq_Cons_conv)
  then have "write_queue h = p # tl (write_queue h)" by (metis list.collapse)
  with w show "writer_inv (on_write None (h\<lparr>writing := ps @ qs, completed := completed h @ [p]\<rparr>))"
    by (auto simp: on_write_def writer_inv_def srv_close_def stop_authenticator_def do_write_def Let_def)
  from w show "writer_inv (on_write (Some e) (h\<lparr>writing := ps @ qs\<rparr>))"
    by (auto simp: on_write_def writer_inv_def srv_close_def stop_authenticator_def Let_def)
qed

interpretation writer: inductive_invariant srv_started "srv_step parse" writer_inv for parse
proof unfold_locales
  fix h :: srv_handler assume "srv_started h"
  then show "writer_inv h"
    by (auto simp: srv_started_def writer_inv_def srv_start_def do_read_def new_srv_handler_def)
next
  fix h t assume "writer_inv h" "srv_step parse h t"
  then show "writer_inv t"
    by (auto elim!: srv_step.cases intro: on_read_writer on_write_writer enqueue_writer simp: srv_send_pdu_def)
qed

lemma login_keeps:
  "login_inv (srv_close h) = login_inv h" "login_inv (do_read h) = login_inv h"
  "login_inv (h\<lparr>srv_framer := f\<rparr>) = login_inv h" "login_inv (do_write h) = login_inv h"
  "login_inv (on_write ec h) = login_inv h" "login_inv (enqueue_pdu pdu h) = login_inv h"
  "login_inv (h\<lparr>reading := r\<rparr>) = login_inv h"
  "login_inv (h\<lparr>writing := w\<rparr>) = login_inv h"
  "login_inv (h\<lparr>writing := w, completed := c\<rparr>) = login_inv h"
  by (simp_all add: login_inv_def srv_close_def stop_authenticator_def do_read_def do_write_def
      on_write_def Let_def split: option.split)

lemma one_reply_login: "one_reply h h' \<Longrightarrow> login_inv h \<Longrightarrow> login_inv h'"
  by (auto simp: one_reply_def login_inv_def)

lemma on_read_login: "login_inv h \<Longrightarrow> login_inv (on_read parse result h)"
  by (cases rule: on_read_cases [of parse result h]) (auto simp: login_keeps dest: one_reply_login)

interpretation login: inductive_invariant srv_started "srv_step parse" login_inv for parse
proof unfold_locales
  fix h :: srv_handler assume "srv_started h"
  then show "login_inv h"
    by (auto simp: srv_started_def login_inv_def srv_start_def do_read_def new_srv_handler_def
        new_smpp_session_def ss_is_bound_def)
next
  fix h t assume "login_inv h" "srv_step parse h t"
  then show "login_inv t"
    by (auto elim!: srv_step.cases intro: on_read_login simp: srv_send_pdu_def login_keeps)
qed

section \<open>Properties\<close>



text \<open>
  C38: the in-process handler is bound only by the built-in account: in every reachable state a
  bound session has the system id test, whatever the clients send.
\<close>

theorem bound_by_test_account:
  assumes "reachable srv_started (srv_step parse) h" and "ss_is_bound (srv_session h)"
  shows "ss_system_id (srv_session h) = ''test''"
  using login.holds [OF assms(1)] assms(2) by (simp add: login_inv_def)

theorem bound_by_test_account_witness:
  "ss_is_bound (srv_session example_logged_in) \<and> ss_system_id (srv_session example_logged_in) = ''test''"
proof -
  have r: "reading example_connected" "reading example_header_read" "ss_is_bound (srv_session example_logged_in)"
    by code_simp+
  have "reachable srv_started (srv_step example_parser) example_connected"
    by (auto intro!: reach_start simp: srv_started_def example_connected_def)
  then have "reachable srv_started (srv_step example_parser) example_header_read"
    unfolding example_header_read_def using r(1) by (blast intro: reach_step read)
  then have "reachable srv_started (srv_step example_parser) example_logged_in"
    unfolding example_logged_in_def using r(2) by (blast intro: reach_step read)
  with r(3) show ?thesis using bound_by_test_account by blast
qed

text \<open>Every answer of the in-process handler to a client PDU is empty: nothing reaches the wire.\<close>

theorem replies_are_empty:
  "handed (on_read parse result h) = handed h \<or> handed (on_read parse result h) = handed h @ [[]]"
proof -
  have reply: "one_reply x y \<Longrightarrow> handed y = handed x @ [[]]" for x y
    by (auto simp: one_reply_def enqueue_pdu_def do_write_def Let_def)
  show ?thesis
    by (cases rule: on_read_cases [of parse result h])
      (auto simp: srv_close_def stop_authenticator_def do_read_def Let_def dest: reply)
qed

text \<open>
  An unbind closes the connection after the write in progress, not after its own response: when
  another PDU is being written the unbind response stays in the queue of a closed socket.
\<close>

theorem unbind_response_dropped:
  assumes "close_after_write h" and "write_queue h = p # q # rest"
  shows "\<not> srv_socket_open (on_write None h)" and "write_queue (on_write None h) = q # rest"
  using assms by (simp_all add: on_write_def srv_close_def stop_authenticator_def Let_def)

text \<open>A bind request that arrives in one read is not answered: the framer cuts it at the header.\<close>

theorem one_read_bind_ignored:
  assumes "16 \<le> length p" and "16 \<le> command_length (decode_header p)"
  shows "srv_session (on_read parse (Inr p) (srv_start (new_srv_handler sid))) = new_smpp_session
    \<and> handed (on_read parse (Inr p) (srv_start (new_srv_handler sid))) = []"
  using framer_drops_body [OF assms, of "[]"]
  by (simp add: on_read_def drain_framer_eq srv_start_def do_read_def new_srv_handler_def Let_def)

end
