(* ===== verification/Config_Load.thy ===== *)
theory Config_Load
  imports Auth_Service Session_Launch
begin

text \<open>
  Configuration: Config::load of Common/src/config.cpp on the toml accessors of Auth_Service,
  level_from_string of SMPPServer/include/logger.hpp, and the command lines of the three mains
  (SMPPServer/src/main.cpp, SmppClientHandler/src/main.cpp, Authenticator/src/main.cpp). The
  environment is an argument, \<open>argv\<close> the arguments after the program name. The theorems give the
  precedence of the sources of each setting and show that a launched handler reads back the
  session id and address that the server put on its command line.
\<close>

section \<open>Definitions\<close>

type_synonym environment = "string \<Rightarrow> string option"

text \<open>
  \<open>std::stoul\<close>: as strtoul, white space, an optional sign, digits; a minus sign negates modulo
  \<open>2^64\<close>; no digits and a value of more than 64 bits throw.
\<close>

definition stoul :: "string \<Rightarrow> stoi_error + u64" where
  "stoul s =
     (let s = dropWhile isspace s;
          (neg, s) = (case s of CHR ''-'' # r \<Rightarrow> (True, r) | CHR ''+'' # r \<Rightarrow> (False, r) | _ \<Rightarrow> (False, s));
          ds = takeWhile isdigit s
      in if ds = [] then Inl Invalid_argument
         else
           let n = digits_value 0 ds
           in if 2 ^ 64 \<le> n then Inl Out_of_range
              else Inr (if neg then - of_nat n else of_nat n))"

subsection \<open>Config\<close>

record server_config =
  port :: u16
  ip_whitelist :: string
  max_connections_per_ip :: u32

record session_config =
  enquire_link_interval_sec :: u32
  enquire_link_timeout_sec :: u32

record auth_config =
  credentials_file :: string

record logging_config =
  level :: string

record config =
  cfg_server :: server_config
  cfg_session :: session_config
  cfg_auth :: auth_config
  cfg_logging :: logging_config

definition default_config :: config where
  "default_config =
     \<lparr>cfg_server = \<lparr>port = 2775, ip_whitelist = ''/etc/smpp-server/allowed_ips.conf'', max_connections_per_ip = 5\<rparr>,
      cfg_session = \<lparr>enquire_link_interval_sec = 60, enquire_link_timeout_sec = 10\<rparr>,
      cfg_auth = \<lparr>credentials_file = ''/etc/smpp-server/credentials.toml''\<rparr>,
      cfg_logging = \<lparr>level = ''info''\<rparr>\<rparr>"

datatype config_error = Runtime_error string | Bad_number stoi_error

definition env_uint16 :: "environment \<Rightarrow> string \<Rightarrow> u16 \<Rightarrow> config_error + u16" where
  "env_uint16 env var fallback =
     (case env var of
        Some v \<Rightarrow> (case stoul v of Inl e \<Rightarrow> Inl (Bad_number e) | Inr n \<Rightarrow> Inr (ucast n))
      | None \<Rightarrow> Inr fallback)"

definition table_at :: "'n toml \<Rightarrow> 'n \<Rightarrow> string \<Rightarrow> 'n option" where
  "table_at api n k = (case node_at api n k of None \<Rightarrow> None | Some v \<Rightarrow> as_table api v)"

definition int_at :: "'n toml \<Rightarrow> 'n \<Rightarrow> string \<Rightarrow> int option" where
  "int_at api n k = (case node_at api n k of None \<Rightarrow> None | Some v \<Rightarrow> value_int64 api v)"

text \<open>\<open>if (auto v = e) x = f(*v);\<close>\<close>

definition if_value :: "'a option \<Rightarrow> ('a \<Rightarrow> 'b \<Rightarrow> 'b) \<Rightarrow> 'b \<Rightarrow> 'b" where
  "if_value v f x = (case v of None \<Rightarrow> x | Some a \<Rightarrow> f a x)"

definition load_server :: "'n toml \<Rightarrow> 'n \<Rightarrow> server_config \<Rightarrow> server_config" where
  "load_server api s c =
     (let c = if_value (int_at api s ''port'') (\<lambda>v c. c\<lparr>port := of_int v\<rparr>) c;
          c = if_value (string_at api s ''ip_whitelist'') (\<lambda>v c. c\<lparr>ip_whitelist := v\<rparr>) c;
          c = if_value (int_at api s ''max_connections_per_ip'') (\<lambda>v c. c\<lparr>max_connections_per_ip := of_int v\<rparr>) c
      in c)"

definition load_session :: "'n toml \<Rightarrow> 'n \<Rightarrow> session_config \<Rightarrow> session_config" where
  "load_session api s c =
     (let c = if_value (int_at api s ''enquire_link_interval_sec'') (\<lambda>v c. c\<lparr>enquire_link_interval_sec := of_int v\<rparr>) c;
          c = if_value (int_at api s ''enquire_link_timeout_sec'') (\<lambda>v c. c\<lparr>enquire_link_timeout_sec := of_int v\<rparr>) c
      in c)"

definition load_auth :: "'n toml \<Rightarrow> 'n \<Rightarrow> auth_config \<Rightarrow> auth_config" where
  "load_auth api s c = if_value (string_at api s ''credentials_file'') (\<lambda>v c. c\<lparr>credentials_file := v\<rparr>) c"

definition load_logging :: "'n toml \<Rightarrow> 'n \<Rightarrow> logging_config \<Rightarrow> logging_config" where
  "load_logging api s c = if_value (string_at api s ''level'') (\<lambda>v c. c\<lparr>level := v\<rparr>) c"

definition Config_load :: "'n toml \<Rightarrow> environment \<Rightarrow> string + 'n \<Rightarrow> config_error + config" where
  "Config_load api env parsed =
     (case parsed of
        Inl e \<Rightarrow> Inl (Runtime_error (''Failed to parse config: '' @ e))
      | Inr tbl \<Rightarrow>
          let cfg = default_config;
              cfg = if_value (table_at api tbl ''server'') (\<lambda>s c. c\<lparr>cfg_server := load_server api s (cfg_server c)\<rparr>) cfg;
              cfg = if_value (table_at api tbl ''session'') (\<lambda>s c. c\<lparr>cfg_session := load_session api s (cfg_session c)\<rparr>) cfg;
              cfg = if_value (table_at api tbl ''auth'') (\<lambda>s c. c\<lparr>cfg_auth := load_auth api s (cfg_auth c)\<rparr>) cfg;
              cfg = if_value (table_at api tbl ''logging'') (\<lambda>s c. c\<lparr>cfg_logging := load_logging api s (cfg_logging c)\<rparr>) cfg
          in case env_uint16 env ''SMPP_PORT'' (port (cfg_server cfg)) of
               Inl e \<Rightarrow> Inl e
             | Inr p \<Rightarrow> Inr (cfg\<lparr>cfg_server := (cfg_server cfg)\<lparr>port := p\<rparr>\<rparr>))"

subsection \<open>Log levels\<close>

datatype log_level = Trace | Debug | Info | Warn | Err | Critical

fun severity :: "log_level \<Rightarrow> nat" where
  "severity Trace = 0"
| "severity Debug = 1"
| "severity Info = 2"
| "severity Warn = 3"
| "severity Err = 4"
| "severity Critical = 5"

instantiation log_level :: linorder
begin
definition less_eq_log_level where "a \<le> b \<longleftrightarrow> severity a \<le> severity b"
definition less_log_level where "a < b \<longleftrightarrow> severity a < severity b" for a b :: log_level
instance
proof
  fix a b :: log_level
  assume "a \<le> b" "b \<le> a"
  then show "a = b" by (cases a; cases b) (simp_all add: less_eq_log_level_def)
qed (auto simp: less_eq_log_level_def less_log_level_def)
end

definition level_from_string :: "string \<Rightarrow> log_level" where
  "level_from_string s =
     (if s = ''trace'' then Trace
      else if s = ''debug'' then Debug
      else if s = ''info'' then Info
      else if s = ''warn'' \<or> s = ''warning'' then Warn
      else if s = ''error'' \<or> s = ''err'' then Err
      else if s = ''critical'' \<or> s = ''fatal'' then Critical
      else Info)"

text \<open>A message passes the level of the logger; from warn on it is flushed at once.\<close>

definition passes :: "log_level \<Rightarrow> log_level \<Rightarrow> bool" where
  "passes configured lvl \<longleftrightarrow> configured \<le> lvl"

definition flushed_at_once :: "log_level \<Rightarrow> log_level \<Rightarrow> bool" where
  "flushed_at_once configured lvl \<longleftrightarrow> passes configured lvl \<and> Warn \<le> lvl"

subsection \<open>Command lines\<close>

definition starts_with :: "string \<Rightarrow> string \<Rightarrow> bool" where
  "starts_with p s \<longleftrightarrow> take (length p) s = p"

datatype server_command_line = Help | Uncaught stoi_error | Serve u16 string string

fun server_args_loop :: "string list \<Rightarrow> u16 \<Rightarrow> string \<Rightarrow> string \<Rightarrow> server_command_line" where
  "server_args_loop [] prt ip_config log_level_str = Serve prt ip_config log_level_str"
| "server_args_loop (arg # args) prt ip_config log_level_str =
     (if starts_with ''--port='' arg then
        (case stoul (drop 7 arg) of
           Inl e \<Rightarrow> Uncaught e
         | Inr n \<Rightarrow> server_args_loop args (ucast n) ip_config log_level_str)
      else if starts_with ''--ip-config='' arg then server_args_loop args prt (drop 12 arg) log_level_str
      else if starts_with ''--log-level='' arg then server_args_loop args prt ip_config (drop 12 arg)
      else if arg = ''--help'' \<or> arg = ''-h'' then Help
      else server_args_loop args prt ip_config log_level_str)"

definition server_args :: "environment \<Rightarrow> string list \<Rightarrow> server_command_line" where
  "server_args env argv =
     (let log_level_str = (case env ''SMPP_LOG_LEVEL'' of Some v \<Rightarrow> v | None \<Rightarrow> ''info'')
      in case env ''SMPP_PORT'' of
           None \<Rightarrow> server_args_loop argv 2775 ''/etc/simple_smpp_server/allowed_ips.conf'' log_level_str
         | Some v \<Rightarrow>
             (case stoul v of
                Inl e \<Rightarrow> Uncaught e
              | Inr n \<Rightarrow> server_args_loop argv (ucast n) ''/etc/simple_smpp_server/allowed_ips.conf'' log_level_str))"

fun client_args_loop :: "string list \<Rightarrow> string \<Rightarrow> string \<Rightarrow> string \<Rightarrow> string \<times> string \<times> string" where
  "client_args_loop [] uid ip server_svc = (uid, ip, server_svc)"
| "client_args_loop (a # args) uid ip server_svc =
     (if starts_with ''--uuid='' a then client_args_loop args (drop 7 a) ip server_svc
      else if starts_with ''--client-ip='' a then client_args_loop args uid (drop 12 a) server_svc
      else if starts_with ''--server-svc='' a then client_args_loop args uid ip (drop 13 a)
      else client_args_loop args uid ip server_svc)"

definition client_args :: "string list \<Rightarrow> (string \<times> string \<times> string) option" where
  "client_args argv =
     (let (uid, ip, server_svc) = client_args_loop argv [] [] ''com.telecom.smpp.Server''
      in if uid = [] \<or> ip = [] then None else Some (uid, ip, server_svc))"

definition creds_path :: "environment \<Rightarrow> string list \<Rightarrow> string" where
  "creds_path env argv =
     fold (\<lambda>arg path. if starts_with ''--credentials='' arg then drop 14 arg else path) argv
       (case env ''SMPP_CREDENTIALS'' of Some v \<Rightarrow> v | None \<Rightarrow> ''/etc/smpp-server/credentials.toml'')"

subsection \<open>Vocabulary of the properties\<close>

text \<open>The words of a command line without special characters, separated by blanks.\<close>

fun words_from :: "string \<Rightarrow> string \<Rightarrow> string list" where
  "words_from w [] = [w]"
| "words_from w (c # cs) = (if c = CHR '' '' then w # words_from [] cs else words_from (w @ [c]) cs)"

definition words :: "string \<Rightarrow> string list" where
  "words s = filter (\<lambda>w. w \<noteq> []) (words_from [] s)"

text \<open>The arguments systemd-run passes to the program it starts.\<close>

definition handler_argv :: "string \<Rightarrow> string list" where
  "handler_argv cmd = tl (dropWhile (\<lambda>w. w \<noteq> HANDLER_BIN) (words cmd))"

definition int_setting :: "'n toml \<Rightarrow> 'n \<Rightarrow> string \<Rightarrow> string \<Rightarrow> int option" where
  "int_setting api tbl section k = (case table_at api tbl section of None \<Rightarrow> None | Some s \<Rightarrow> int_at api s k)"

definition string_setting :: "'n toml \<Rightarrow> 'n \<Rightarrow> string \<Rightarrow> string \<Rightarrow> string option" where
  "string_setting api tbl section k = (case table_at api tbl section of None \<Rightarrow> None | Some s \<Rightarrow> string_at api s k)"

definition or_default :: "'a option \<Rightarrow> 'a \<Rightarrow> 'a" where
  "or_default v d = (case v of None \<Rightarrow> d | Some a \<Rightarrow> a)"

section \<open>Lemmas\<close>

lemma words_from_word: "CHR '' '' \<notin> set u \<Longrightarrow> words_from w (u @ CHR '' '' # s) = (w @ u) # words_from [] s"
  by (induction u arbitrary: w) auto

lemma words_from_last: "CHR '' '' \<notin> set u \<Longrightarrow> words_from w u = [w @ u]"
  by (induction u arbitrary: w) auto

lemma launch_words:
  assumes "CHR '' '' \<notin> set uid" and "CHR '' '' \<notin> set ip"
  shows "words (build_launch_command uid ip) =
    [''systemd-run'', ''--unit=smpp-client-'' @ uid, ''--collect'', ''--property=User=smpp-client'', HANDLER_BIN,
     ''--uuid='' @ uid, ''--client-ip='' @ ip]"
proof -
  have "CHR '' '' \<notin> set HANDLER_BIN" "HANDLER_BIN \<noteq> []" by (simp_all add: HANDLER_BIN_def)
  then show ?thesis
    using assms by (simp add: words_def build_launch_command_def words_from_word words_from_last)
qed

lemma plain_no_blank:
  "CHR '' '' \<notin> set (generate_session_id ts rnd)"
  "list_all address_char ip \<Longrightarrow> CHR '' '' \<notin> set ip"
proof -
  have "\<not> is_hex_char (CHR '' '')" by (simp add: is_hex_char_def)
  then show "CHR '' '' \<notin> set (generate_session_id ts rnd)"
    using hex_fixed_hex by (auto simp: generate_session_id_eq list_all_iff)
  show "list_all address_char ip \<Longrightarrow> CHR '' '' \<notin> set ip"
    by (auto simp: list_all_iff address_char_def)
qed

lemma session_id_not_empty: "generate_session_id ts rnd \<noteq> []"
  by (simp flip: length_0_conv)

text \<open>Loading a section changes that part of the configuration only.\<close>

lemma section_lift:
  "if_value v (\<lambda>s c. c\<lparr>cfg_server := f1 s (cfg_server c)\<rparr>) c = c\<lparr>cfg_server := if_value v f1 (cfg_server c)\<rparr>"
  "if_value v (\<lambda>s c. c\<lparr>cfg_session := f2 s (cfg_session c)\<rparr>) c = c\<lparr>cfg_session := if_value v f2 (cfg_session c)\<rparr>"
  "if_value v (\<lambda>s c. c\<lparr>cfg_auth := f3 s (cfg_auth c)\<rparr>) c = c\<lparr>cfg_auth := if_value v f3 (cfg_auth c)\<rparr>"
  "if_value v (\<lambda>s c. c\<lparr>cfg_logging := f4 s (cfg_logging c)\<rparr>) c = c\<lparr>cfg_logging := if_value v f4 (cfg_logging c)\<rparr>"
  for c :: config
  by (simp_all add: if_value_def split: option.split)

lemmas section_defs = load_server_def load_session_def load_auth_def load_logging_def if_value_def or_default_def int_setting_def
  string_setting_def Let_def

lemma server_section:
  "if_value (table_at api tbl ''server'') (load_server api) \<lparr>port = p, ip_whitelist = w, max_connections_per_ip = m\<rparr> =
    \<lparr>port = or_default (map_option of_int (int_setting api tbl ''server'' ''port'')) p,
     ip_whitelist = or_default (string_setting api tbl ''server'' ''ip_whitelist'') w,
     max_connections_per_ip = or_default (map_option of_int (int_setting api tbl ''server'' ''max_connections_per_ip'')) m\<rparr>"
  by (simp add: section_defs split: option.split)

lemma session_section:
  "if_value (table_at api tbl ''session'') (load_session api)
     \<lparr>enquire_link_interval_sec = a, enquire_link_timeout_sec = b\<rparr> =
    \<lparr>enquire_link_interval_sec = or_default (map_option of_int (int_setting api tbl ''session'' ''enquire_link_interval_sec'')) a,
     enquire_link_timeout_sec = or_default (map_option of_int (int_setting api tbl ''session'' ''enquire_link_timeout_sec'')) b\<rparr>"
  by (simp add: section_defs split: option.split)

lemma auth_section:
  "if_value (table_at api tbl ''auth'') (load_auth api) \<lparr>credentials_file = f\<rparr> = \<lparr>credentials_file = or_default (string_setting api tbl ''auth'' ''credentials_file'') f\<rparr>"
  by (simp add: section_defs split: option.split)

lemma logging_section:
  "if_value (table_at api tbl ''logging'') (load_logging api) \<lparr>level = l\<rparr> = \<lparr>level = or_default (string_setting api tbl ''logging'' ''level'') l\<rparr>"
  by (simp add: section_defs split: option.split)

section \<open>Properties\<close>

text \<open>
  A launched handler serves the session it was launched for. The arguments that follow the
  program in the command line built by the server are parsed by the main of the handler to exactly
  the session id and the client address that the server registered, with the default bus name of
  the server, for every session id and every printed address.
\<close>

theorem handler_gets_its_session:
  assumes "list_all address_char ip" and "ip \<noteq> []"
  shows "client_args (handler_argv (build_launch_command (generate_session_id ts rnd) ip))
    = Some (generate_session_id ts rnd, ip, ''com.telecom.smpp.Server'')"
proof -
  let ?uid = "generate_session_id ts rnd"
  have "handler_argv (build_launch_command ?uid ip) = [''--uuid='' @ ?uid, ''--client-ip='' @ ip]"
    by (simp add: handler_argv_def launch_words [OF plain_no_blank(1) plain_no_blank(2) [OF assms(1)]] HANDLER_BIN_def)
  then show ?thesis
    using assms(2) session_id_not_empty [of ts rnd] by (simp add: client_args_def starts_with_def)
qed

text \<open>
  Configuration. A load fails exactly when the file does not parse or SMPP_PORT is not a
  number; otherwise the port comes from the environment, else from the file, else from the
  defaults, and every other setting from the file, else from the defaults. Integers are reduced
  to their width.
\<close>

theorem config_precedence:
  "Config_load api env parsed =
     (case parsed of
        Inl e \<Rightarrow> Inl (Runtime_error (''Failed to parse config: '' @ e))
      | Inr tbl \<Rightarrow>
          (case map_option stoul (env ''SMPP_PORT'') of
             Some (Inl e) \<Rightarrow> Inl (Bad_number e)
           | from_env \<Rightarrow> Inr
               \<lparr>cfg_server =
                  \<lparr>port = (case from_env of Some (Inr n) \<Rightarrow> ucast n
                           | _ \<Rightarrow> or_default (map_option of_int (int_setting api tbl ''server'' ''port'')) 2775),
                   ip_whitelist = or_default (string_setting api tbl ''server'' ''ip_whitelist'') ''/etc/smpp-server/allowed_ips.conf'',
                   max_connections_per_ip = or_default (map_option of_int (int_setting api tbl ''server'' ''max_connections_per_ip'')) 5\<rparr>,
                cfg_session =
                  \<lparr>enquire_link_interval_sec = or_default (map_option of_int (int_setting api tbl ''session'' ''enquire_link_interval_sec'')) 60,
                   enquire_link_timeout_sec = or_default (map_option of_int (int_setting api tbl ''session'' ''enquire_link_timeout_sec'')) 10\<rparr>,
                cfg_auth = \<lparr>credentials_file = or_default (string_setting api tbl ''auth'' ''credentials_file'') ''/etc/smpp-server/credentials.toml''\<rparr>,
                cfg_logging = \<lparr>level = or_default (string_setting api tbl ''logging'' ''level'') ''info''\<rparr>\<rparr>))"
proof (cases parsed)
  case (Inr tbl)
  then show ?thesis
    by (simp add: Config_load_def section_lift server_section session_section auth_section logging_section
        env_uint16_def default_config_def Let_def split: option.split sum.split)
qed (simp add: Config_load_def)

text \<open>A port of the file that does not fit 16 bits is accepted and wraps.\<close>

theorem config_port_wraps:
  assumes "env ''SMPP_PORT'' = None" and "int_setting api tbl ''server'' ''port'' = Some 67311"
  shows "\<exists>cfg. Config_load api env (Inr tbl) = Inr cfg \<and> port (cfg_server cfg) = 1775"
  using assms by (simp add: config_precedence or_default_def)

text \<open>Errors are logged and flushed at once at every configured level but critical.\<close>

theorem errors_are_logged:
  "flushed_at_once (level_from_string s) Err \<longleftrightarrow> s \<noteq> ''critical'' \<and> s \<noteq> ''fatal''"
  by (simp add: flushed_at_once_def passes_def level_from_string_def less_eq_log_level_def)

text \<open>
  A port argument that is not a number ends the server by an uncaught exception, before the
  handler of exceptions of main is entered.
\<close>

theorem bad_port_is_uncaught:
  assumes "stoul (drop 7 a) = Inl e" and "starts_with ''--port='' a" and "env ''SMPP_PORT'' = None"
  shows "server_args env (a # args) = Uncaught e"
  using assms by (simp add: server_args_def)

end
