(* ===== verification/Handler_Startup.thy ===== *)
theory Handler_Startup
  imports Config_Load Session_Runs
begin

text \<open>
  The start of a client handler process (SmppClientHandler/src/main.cpp): it parses its command
  line, requests its bus name, claims its socket from the server and starts a session on it.
  Whether the bus grants a name is a parameter. The theorem follows a connection from accept to the
  running session.
\<close>

section \<open>Definitions\<close>

datatype startup = Usage_error | Start_failed | Running int session

text \<open>The bus name of the server; a call to any other name is answered with an error.\<close>

definition SERVICE_NAME :: string where
  "SERVICE_NAME = ''com.telecom.smpp.Server''"

definition call_GetSocket :: "string \<Rightarrow> string \<Rightarrow> server \<Rightarrow> int option \<times> server" where
  "call_GetSocket svc uid v =
     (if svc = SERVICE_NAME
      then (case GetSocket uid v of (Inl err, v) \<Rightarrow> (None, v) | (Inr f, v) \<Rightarrow> (Some f, v))
      else (None, v))"

definition client_main :: "(string \<Rightarrow> bool) \<Rightarrow> int \<Rightarrow> string list \<Rightarrow> server \<Rightarrow> startup \<times> server" where
  "client_main request_name now argv v =
     (case client_args argv of
        None \<Rightarrow> (Usage_error, v)
      | Some (uid, ip, server_svc) \<Rightarrow>
          let svc_name = ''com.telecom.smpp.Client.'' @ uid
          in if \<not> request_name svc_name then (Start_failed, v)
             else case call_GetSocket server_svc uid v of
                 (None, v) \<Rightarrow> (Start_failed, v)
               | (Some f, v) \<Rightarrow> (Running f (start (new_session uid ip 60 10 0 now)), v))"

section \<open>Properties\<close>



text \<open>
  With a bus that follows the naming rules of the D-Bus specification no handler starts: the name
  it requests has an element that begins with a digit, for every session id of the first five
  thousand years of the epoch.
\<close>

theorem no_handler_starts_on_a_strict_bus:
  fixes ts rnd
  defines "u \<equiv> generate_session_id ts rnd"
  assumes "unat (ts AND 0x0000FFFFFFFFFFFF) < 10 * 16 ^ 11"
    and "\<And>s. request_name (''com.telecom.smpp.Client.'' @ s) \<Longrightarrow> bus_element_ok s"
    and "list_all address_char ip" and "ip \<noteq> []"
  shows "client_main request_name now (handler_argv (build_launch_command u ip)) v = (Start_failed, v)"
proof -
  have "\<not> request_name (''com.telecom.smpp.Client.'' @ u)"
    using client_bus_element_invalid [OF assms(2)] assms(3) unfolding u_def by blast
  then show ?thesis
    using handler_gets_its_session [OF assms(4,5)] by (simp add: client_main_def u_def Let_def)
qed

end
