(* ===== verification/Server_Main.thy ===== *)
theory Server_Main
  imports Handler_Startup "HOL-Library.Multiset"
begin

text \<open>
  The server process: main of SMPPServer/src/main.cpp, the constructor of TcpServer and its accept
  loop (SMPPServer/src/tcp_server.cpp). The files of the machine, whether the bus grants a name and
  whether a port can be listened on are parameters. One accept is outstanding at a time, so
  connections are handled one after the other although several threads run the io context; the
  D-Bus thread executes the IServer methods in between. Runs of the process are the steps
  \<open>process_step\<close>.
\<close>

section \<open>Definitions\<close>

subsection \<open>The accept loop\<close>

record server_process =
  tcp :: tcp_server
  accepts :: nat
  io_running :: bool

datatype accept_result = Accepted int "string option" | Accept_error

definition do_accept :: "server_process \<Rightarrow> server_process" where
  "do_accept p = p\<lparr>accepts := accepts p + 1\<rparr>"

text \<open>The completion handler of an accept; an aborted accept differs from a failed one in its log line only.\<close>

definition on_accept ::
    "inet_pton \<Rightarrow> (string \<Rightarrow> int) \<Rightarrow> accept_result \<Rightarrow> u64 \<Rightarrow> u64 \<Rightarrow> server_process \<Rightarrow> server_process" where
  "on_accept pton sys res ts rnd p =
     (let p = p\<lparr>accepts := accepts p - 1\<rparr>;
          p = (case res of
                 Accepted raw_fd remote \<Rightarrow> p\<lparr>tcp := handle_connection pton sys remote raw_fd ts rnd (tcp p)\<rparr>
               | Accept_error \<Rightarrow> p)
      in do_accept p)"

definition new_tcp_server :: "ip_validator \<Rightarrow> server \<Rightarrow> server_process" where
  "new_tcp_server vld svc =
     do_accept \<lparr>tcp = \<lparr>service = svc, validator = vld, closed_fds = [], released_fds = [], launched = []\<rparr>,
                accepts = 0, io_running = True\<rparr>"

subsection \<open>The main function\<close>

text \<open>
  How the process ends before it serves. \<open>Thread_unwound\<close> is the end by \<open>std::terminate\<close> when an
  exception destroys the joinable D-Bus thread on its way to the handler in main.
\<close>

datatype server_exit = Exit_success | Exit_failure | Uncaught_exception stoi_error | Thread_unwound

definition DEFAULT_MAX_PER_IP :: u32 where
  "DEFAULT_MAX_PER_IP = 5"

definition server_main ::
    "inet_pton \<Rightarrow> (string \<Rightarrow> string list option) \<Rightarrow> (string \<Rightarrow> bool) \<Rightarrow> (u16 \<Rightarrow> bool) \<Rightarrow>
     environment \<Rightarrow> string list \<Rightarrow> server_exit + server_process" where
  "server_main pton files request_name can_listen env argv =
     (case server_args env argv of
        Uncaught e \<Rightarrow> Inl (Uncaught_exception e)
      | Help \<Rightarrow> Inl Exit_success
      | Serve prt ip_config log_level_str \<Rightarrow>
          (case load_config pton (files ip_config) empty_validator of
             (Some err, vld) \<Rightarrow> Inl Exit_failure
           | (None, vld) \<Rightarrow>
               if \<not> request_name SERVICE_NAME then Inl Exit_failure
               else if \<not> can_listen prt then Inl Thread_unwound
               else Inr (new_tcp_server vld (new_server DEFAULT_MAX_PER_IP))))"

text \<open>SIGINT and SIGTERM stop the io context and the D-Bus loop, after which main returns.\<close>

definition on_signal :: "server_process \<Rightarrow> server_process" where
  "on_signal p = p\<lparr>io_running := False\<rparr>"

subsection \<open>Runs\<close>

text \<open>The IServer methods that change the state; the other operations are called in process only.\<close>

fun bus_op :: "server_op \<Rightarrow> bool" where
  "bus_op (Register u f ip) \<longleftrightarrow> False"
| "bus_op (Unregister u) \<longleftrightarrow> False"
| "bus_op _ \<longleftrightarrow> True"

definition on_bus_call :: "server_op \<Rightarrow> server_process \<Rightarrow> server_process" where
  "on_bus_call a p = p\<lparr>tcp := (tcp p)\<lparr>service := server_step a (service (tcp p))\<rparr>\<rparr>"

inductive process_step :: "inet_pton \<Rightarrow> (string \<Rightarrow> int) \<Rightarrow> server_process \<Rightarrow> server_process \<Rightarrow> bool"
  for pton sys where
  accept: "io_running p \<Longrightarrow> 0 < accepts p \<Longrightarrow> process_step pton sys p (on_accept pton sys res ts rnd p)"
| bus_call: "io_running p \<Longrightarrow> bus_op a \<Longrightarrow> process_step pton sys p (on_bus_call a p)"
| signal: "io_running p \<Longrightarrow> process_step pton sys p (on_signal p)"

subsection \<open>Vocabulary of the properties\<close>

text \<open>Every address the server knows of satisfies a predicate: listed, announced, launched or pending.\<close>

definition addresses_satisfy :: "(string \<Rightarrow> bool) \<Rightarrow> tcp_server \<Rightarrow> bool" where
  "addresses_satisfy ok t \<longleftrightarrow>
     (\<forall>u info. session_view (service t) u = Some info \<longrightarrow> ok (info_ip info))
     \<and> (\<forall>u it. reg_sessions (conn_registry (service t)) u = Some it \<longrightarrow> ok (entry_ip it))
     \<and> list_all (\<lambda>(u, ip). ok ip) (started (service t))
     \<and> list_all (\<lambda>(u, ip). ok ip) (launched t)"

definition process_inv :: "inet_pton \<Rightarrow> ip_validator \<Rightarrow> server_process \<Rightarrow> bool" where
  "process_inv pton vld p \<longleftrightarrow>
     validator (tcp p) = vld \<and> std_ordered (svc_sessions (service (tcp p)))
     \<and> addresses_satisfy (\<lambda>ip. is_allowed pton ip vld) (tcp p) \<and> accepts p = 1"

text \<open>The descriptors that a sequence of accept completions brings.\<close>

definition accepted_fds :: "(accept_result \<times> u64 \<times> u64) list \<Rightarrow> int list" where
  "accepted_fds rs = concat (map (\<lambda>(res, ts, rnd). case res of Accepted f remote \<Rightarrow> [f] | Accept_error \<Rightarrow> []) rs)"

definition accept_all ::
    "inet_pton \<Rightarrow> (string \<Rightarrow> int) \<Rightarrow> (accept_result \<times> u64 \<times> u64) list \<Rightarrow> server_process \<Rightarrow> server_process" where
  "accept_all pton sys rs p = fold (\<lambda>(res, ts, rnd). on_accept pton sys res ts rnd) rs p"

text \<open>
  The accepted descriptors are split between the closed and the released ones; a socket that can be
  claimed is a released one, and there are no more launched handlers than released descriptors.
\<close>

definition owned_inv :: "tcp_server \<Rightarrow> int list \<Rightarrow> bool" where
  "owned_inv t fs \<longleftrightarrow>
     mset (closed_fds t) + mset (released_fds t) = mset fs
     \<and> length (launched t) \<le> length (released_fds t)
     \<and> (\<forall>u f. pending_fd (conn_registry (service t)) u = Some f \<longrightarrow> f \<in> set (released_fds t))"

text \<open>A machine with a one-line whitelist file, for the examples.\<close>

definition example_loopback :: ip_validator where
  "example_loopback = \<lparr>exact_set = {''127.0.0.1''}, cidrs = []\<rparr>"

abbreviation example_start :: "server_exit + server_process" where
  "example_start \<equiv>
     server_main example_pton (\<lambda>name. Some [''127.0.0.1'']) (\<lambda>name. True) (\<lambda>prt. True) (\<lambda>name. None) []"

section \<open>Lemmas\<close>

lemma process_start:
  assumes "server_main pton files request_name can_listen env argv = Inr p"
  obtains prt ip_config lvl ls vld where "server_args env argv = Serve prt ip_config lvl"
    and "files ip_config = Some ls" and "load_config pton (Some ls) empty_validator = (None, vld)"
    and "p = new_tcp_server vld (new_server DEFAULT_MAX_PER_IP)" and "can_listen prt"
  using assms
  by (auto simp: server_main_def load_config_def Let_def split: server_command_line.splits prod.splits
      option.splits if_splits)

lemma on_accept_eq:
  "0 < accepts p \<Longrightarrow> on_accept pton sys res ts rnd p =
    (case res of
       Accepted f remote \<Rightarrow> p\<lparr>tcp := handle_connection pton sys remote f ts rnd (tcp p)\<rparr>
     | Accept_error \<Rightarrow> p)"
  by (simp add: on_accept_def do_accept_def split: accept_result.split)

lemma handle_connection_cases:
  "\<not> (\<exists>ip. remote = Some ip \<and> is_allowed pton ip (validator t)) \<Longrightarrow>
    handle_connection pton sys remote f ts rnd t = t\<lparr>closed_fds := closed_fds t @ [f]\<rparr>"
  "is_allowed pton ip (validator t) \<Longrightarrow>
    handle_connection pton sys (Some ip) f ts rnd t =
      (let u = generate_session_id ts rnd
       in t\<lparr>service := register_session u f ip (service t), released_fds := released_fds t @ [f],
            launched := launched t @ (if sys (build_launch_command u ip) = 0 then [(u, ip)] else [])\<rparr>)"
  by (auto simp: handle_connection_def launch_client_handler_def Let_def split: option.split)

text \<open>An operation keeps the addresses of the server good when it registers a good one only.\<close>

lemma addresses_server_step:
  assumes "addresses_satisfy ok t" and "std_ordered (svc_sessions (service t))"
    and "\<And>u f ip. a = Register u f ip \<Longrightarrow> ok ip"
  shows "addresses_satisfy ok (t\<lparr>service := server_step a (service t)\<rparr>)"
  using assms
  by (cases a) (auto simp: addresses_satisfy_def session_view_def server_step_defs add_eq set_max_per_ip_def
      std.find_assign std_find_erase split: option.split if_split_asm)

lemma handle_connection_inv:
  fixes sys remote f ts rnd
  assumes "validator t = vld" and "std_ordered (svc_sessions (service t))"
    and "addresses_satisfy (\<lambda>ip. is_allowed pton ip vld) t"
  defines "t' \<equiv> handle_connection pton sys remote f ts rnd t"
  shows "validator t' = vld \<and> std_ordered (svc_sessions (service t'))
    \<and> addresses_satisfy (\<lambda>ip. is_allowed pton ip vld) t'"
proof (cases "\<exists>ip. remote = Some ip \<and> is_allowed pton ip (validator t)")
  case True
  then obtain ip where r: "remote = Some ip" and ok: "is_allowed pton ip vld" using assms(1) by auto
  let ?a = "Register (generate_session_id ts rnd) f ip"
  have "addresses_satisfy (\<lambda>ip. is_allowed pton ip vld) (t\<lparr>service := server_step ?a (service t)\<rparr>)"
    by (rule addresses_server_step [OF assms(3,2)]) (use ok in auto)
  moreover have "std_ordered (svc_sessions (server_step ?a (service t)))"
    by (rule server_step_ordered [OF assms(2)])
  ultimately show ?thesis
    using ok assms(1) by (simp add: t'_def r handle_connection_cases Let_def addresses_satisfy_def)
qed (use assms in \<open>simp add: handle_connection_cases addresses_satisfy_def\<close>)

interpretation process: inductive_invariant
  "\<lambda>p. p = new_tcp_server vld (new_server DEFAULT_MAX_PER_IP)" "process_step pton sys" "process_inv pton vld"
  for vld pton sys
proof
  fix p
  assume "p = new_tcp_server vld (new_server DEFAULT_MAX_PER_IP)"
  then show "process_inv pton vld p"
    by (simp add: process_inv_def new_tcp_server_def do_accept_def new_server_def new_registry_def
        addresses_satisfy_def session_view_def std_find_map_of)
next
  fix p q
  assume "process_inv pton vld p"
  then have p: "validator (tcp p) = vld" "std_ordered (svc_sessions (service (tcp p)))"
      "addresses_satisfy (\<lambda>ip. is_allowed pton ip vld) (tcp p)" "accepts p = 1"
    by (auto simp: process_inv_def)
  assume "process_step pton sys p q"
  then show "process_inv pton vld q"
  proof cases
    case (accept res ts rnd)
    then show ?thesis
      using handle_connection_inv [OF p(1-3)] p
      by (simp add: process_inv_def on_accept_eq split: accept_result.split)
  next
    case (bus_call a)
    then have "addresses_satisfy (\<lambda>ip. is_allowed pton ip vld)
        ((tcp p)\<lparr>service := server_step a (service (tcp p))\<rparr>)"
      by (intro addresses_server_step p) auto
    with bus_call p show ?thesis by (simp add: process_inv_def on_bus_call_def server_step_ordered)
  qed (use p in \<open>simp add: process_inv_def on_signal_def\<close>)
qed

lemma accepted_fds_Cons [simp]:
  "accepted_fds ((res, ts, rnd) # rs) = (case res of Accepted f remote \<Rightarrow> [f] | Accept_error \<Rightarrow> []) @ accepted_fds rs"
  by (simp add: accepted_fds_def)

lemma accept_all_Cons [simp]:
  "accept_all pton sys ((res, ts, rnd) # rs) p = accept_all pton sys rs (on_accept pton sys res ts rnd p)"
  "accept_all pton sys [] p = p"
  by (simp_all add: accept_all_def)

lemma handle_connection_accounts:
  fixes sys remote f ts rnd
  assumes "owned_inv t fs"
  shows "owned_inv (handle_connection pton sys remote f ts rnd t) (fs @ [f])"
proof (cases "\<exists>ip. remote = Some ip \<and> is_allowed pton ip (validator t)")
  case True
  then obtain ip where r: "remote = Some ip" and ok: "is_allowed pton ip (validator t)" by auto
  show ?thesis
    using assms ok
    by (auto simp: owned_inv_def r handle_connection_cases Let_def register_session_eq reg.lookup_add
        split: if_splits)
qed (use assms in \<open>simp add: owned_inv_def handle_connection_cases\<close>)

lemma accept_all_accounts:
  "accepts p = 1 \<Longrightarrow> owned_inv (tcp p) fs \<Longrightarrow>
    accepts (accept_all pton sys rs p) = 1 \<and> owned_inv (tcp (accept_all pton sys rs p)) (fs @ accepted_fds rs)"
proof (induction rs arbitrary: p fs)
  case (Cons r rs)
  obtain res ts rnd where r: "r = (res, ts, rnd)" by (cases r)
  show ?case
  proof (cases res)
    case (Accepted f remote)
    have "owned_inv (handle_connection pton sys remote f ts rnd (tcp p)) (fs @ [f])"
      by (rule handle_connection_accounts [OF Cons.prems(2)])
    then show ?thesis
      using Cons.IH [of "on_accept pton sys res ts rnd p" "fs @ [f]"] Cons.prems(1)
      by (simp add: r Accepted on_accept_eq)
  next
    case Accept_error
    then show ?thesis using Cons by (simp add: r on_accept_eq)
  qed
qed (simp add: accepted_fds_def)

lemma example_start_eq:
  "\<exists>p. example_start = Inr p \<and> validator (tcp p) = example_loopback \<and> launched (tcp p) = []
    \<and> accepts p = 1 \<and> io_running p"
proof -
  have "load_config example_pton (Some [''127.0.0.1'']) empty_validator = (None, example_loopback)" by code_simp
  then show ?thesis
    by (simp add: server_main_def server_args_def new_tcp_server_def do_accept_def)
qed

section \<open>Properties\<close>

text \<open>
  C6: only whitelisted peers are served. Whatever connections arrive, accepts fail and IServer
  methods are called, from the start of the server process on: the address of every listed session,
  of every SessionStarted signal, of every launched handler process and of every socket that
  can be claimed is allowed by a line of the whitelist file named on the command line, and an
  accept is outstanding.
\<close>

theorem only_whitelisted_are_served:
  assumes "server_main pton files request_name can_listen env argv = Inr p"
    and "(process_step pton sys)\<^sup>*\<^sup>* p q"
  shows "\<exists>prt ip_config lvl ls. server_args env argv = Serve prt ip_config lvl \<and> files ip_config = Some ls
    \<and> addresses_satisfy (\<lambda>ip. list_ex (line_allows pton ip) ls) (tcp q) \<and> accepts q = 1"
proof -
  obtain prt ip_config lvl ls vld where cl: "server_args env argv = Serve prt ip_config lvl"
      "files ip_config = Some ls" and vld: "load_config pton (Some ls) empty_validator = (None, vld)"
      and p: "p = new_tcp_server vld (new_server DEFAULT_MAX_PER_IP)"
    using assms(1) by (rule process_start)
  have "process_inv pton vld q"
    using process.holds_from [OF assms(2)] process.inv_start [OF p] by blast
  moreover have "is_allowed pton ip vld \<longleftrightarrow> list_ex (line_allows pton ip) ls" for ip
    using vld load_lines_allows [of pton ls "empty_validator\<lparr>exact_set := {}, cidrs := []\<rparr>" vld ip] empty_denies
    by (simp add: load_config_def)
  ultimately show ?thesis using cl by (auto simp: process_inv_def)
qed

theorem only_whitelisted_are_served_witness:
  "\<exists>p q. example_start = Inr p \<and> (process_step example_pton (\<lambda>c. 0))\<^sup>*\<^sup>* p q
    \<and> launched (tcp q) = [(generate_session_id 1 1, ''127.0.0.1'')] \<and> accepts q = 1"
proof -
  obtain p where p: "example_start = Inr p" "validator (tcp p) = example_loopback" "launched (tcp p) = []"
      "accepts p = 1" "io_running p"
    using example_start_eq by blast
  let ?q = "on_accept example_pton (\<lambda>c. 0) (Accepted 9 (Some ''127.0.0.1'')) 1 1 p"
  have run: "(process_step example_pton (\<lambda>c. 0))\<^sup>*\<^sup>* p ?q" 
    by (intro r_into_rtranclp process_step.accept) (simp_all add: p)
  have "accepts ?q = 1" using only_whitelisted_are_served [OF p(1) run] by blast
  moreover have "launched (tcp ?q) = [(generate_session_id 1 1, ''127.0.0.1'')]"
    using p by (simp add: on_accept_eq handle_connection_cases Let_def is_allowed_def example_loopback_def)
  ultimately show ?thesis using p(1) run by blast
qed

text \<open>
  C33: every accepted descriptor is accounted for. Over any sequence of successful and failed accepts
  after the start, each accepted descriptor is closed or released, and only once; only released
  descriptors can be claimed, no more handlers are launched than descriptors released, and the
  loop goes on accepting.
\<close>

theorem accepted_descriptors_accounted:
  assumes "server_main pton files request_name can_listen env argv = Inr p"
  shows "accepts (accept_all pton sys rs p) = 1 \<and> owned_inv (tcp (accept_all pton sys rs p)) (accepted_fds rs)"
proof -
  obtain vld where "p = new_tcp_server vld (new_server DEFAULT_MAX_PER_IP)"
    using assms by (rule process_start)
  then have "accepts p = 1" "owned_inv (tcp p) []"
    by (simp_all add: new_tcp_server_def do_accept_def owned_inv_def new_server_def new_registry_def pending_fd_def)
  from accept_all_accounts [OF this] show ?thesis by simp
qed

theorem accepted_descriptors_accounted_witness:
  "\<exists>p. example_start = Inr p \<and>
    owned_inv (tcp (accept_all example_pton (\<lambda>c. 0)
      [(Accepted 9 (Some ''127.0.0.1''), 1, 1), (Accept_error, 2, 2), (Accepted 10 (Some ''10.1.2.3''), 3, 3)] p)) [9, 10]"
proof -
  obtain p where "example_start = Inr p" using example_start_eq by blast
  moreover from accepted_descriptors_accounted [OF this, of "\<lambda>c. 0"
      "[(Accepted 9 (Some ''127.0.0.1''), 1, 1), (Accept_error, 2, 2), (Accepted 10 (Some ''10.1.2.3''), 3, 3)]"]
  have "owned_inv (tcp (accept_all example_pton (\<lambda>c. 0)
      [(Accepted 9 (Some ''127.0.0.1''), 1, 1), (Accept_error, 2, 2), (Accepted 10 (Some ''10.1.2.3''), 3, 3)] p)) [9, 10]"
    by (simp add: accepted_fds_def)
  ultimately show ?thesis by blast
qed

text \<open>
  A port that is in use ends the server by \<open>std::terminate\<close> and not by the logged exit of main: the
  constructor of TcpServer throws while the D-Bus thread is joinable. A missing whitelist file and a
  whitelist entry that \<open>std::stoi\<close> rejects do take the logged exit.
\<close>

theorem start_failures:
  assumes "server_args env argv = Serve prt ip_config lvl"
  shows "fst (load_config pton (files ip_config) empty_validator) \<noteq> None \<Longrightarrow>
      server_main pton files request_name can_listen env argv = Inl Exit_failure"
    and "fst (load_config pton (files ip_config) empty_validator) = None \<Longrightarrow> request_name SERVICE_NAME \<Longrightarrow>
      \<not> can_listen prt \<Longrightarrow> server_main pton files request_name can_listen env argv = Inl Thread_unwound"
  using assms by (auto simp: server_main_def split: prod.split)

end
