(* ===== verification/Auth_Main.thy ===== *)
theory Auth_Main
  imports Config_Load
begin

text \<open>
  The authenticator process: main of Authenticator/src/main.cpp with its SIGHUP handler. The event
  loop executes the IAuth methods on the main thread, which the signal interrupts; a method that
  holds the mutex of the store is therefore a state of the process, its \<open>phase\<close>. The file system
  and the TOML parser are an argument of the steps that read the credentials file, and whether the
  bus grants a name is a parameter.
\<close>

section \<open>Definitions\<close>

type_synonym auth_request = "string \<times> string \<times> string \<times> string"

text \<open>Authenticate holds the mutex shared, a load that has parsed its file holds it exclusively.\<close>

datatype 'n phase = Waiting | In_authenticate auth_request | In_load 'n

text \<open>
  \<open>Blocked\<close>: the main thread waits for a mutex that it holds itself. \<open>Killed\<close>: an exception has
  left a signal handler.
\<close>

datatype auth_status = Alive | Blocked | Killed

text \<open>\<open>loaded\<close> is a history variable, the documents of the completed loads, the newest last.\<close>

record 'n auth_process =
  creds :: credentials
  phase :: "'n phase"
  answers :: "(auth_request \<times> bool \<times> u32) list"
  status :: auth_status
  loaded :: "'n list"

definition AUTH_SERVICE_NAME :: string where
  "AUTH_SERVICE_NAME = ''com.telecom.smpp.Auth''"

definition auth_main ::
    "'n toml \<Rightarrow> (string \<Rightarrow> string + 'n) \<Rightarrow> (string \<Rightarrow> bool) \<Rightarrow> environment \<Rightarrow> string list \<Rightarrow>
     int + 'n auth_process" where
  "auth_main api parse_file request_name env argv =
     (case parse_file (creds_path env argv) of
        Inl err \<Rightarrow> Inl 1
      | Inr tbl \<Rightarrow>
          if \<not> request_name AUTH_SERVICE_NAME then Inl 1
          else Inr \<lparr>creds = snd (store_load api (Inr tbl) Map.empty), phase = Waiting, answers = [],
                    status = Alive, loaded = [tbl]\<rparr>)"

definition finish_authenticate :: "auth_request \<Rightarrow> 'n auth_process \<Rightarrow> 'n auth_process" where
  "finish_authenticate req p =
     (case req of (uid, sid, pwd, ip) \<Rightarrow>
        p\<lparr>phase := Waiting, answers := answers p @ [(req, Authenticate (creds p) uid sid pwd ip)]\<rparr>)"

definition install :: "'n toml \<Rightarrow> 'n \<Rightarrow> 'n auth_process \<Rightarrow> 'n auth_process" where
  "install api tbl p = p\<lparr>creds := snd (store_load api (Inr tbl) (creds p)), loaded := loaded p @ [tbl]\<rparr>"

text \<open>The start of ReloadCredentials: an exception of the parser becomes the error reply of the call.\<close>

definition begin_reload :: "string + 'n \<Rightarrow> 'n auth_process \<Rightarrow> 'n auth_process" where
  "begin_reload parsed p = (case parsed of Inl err \<Rightarrow> p | Inr tbl \<Rightarrow> p\<lparr>phase := In_load tbl\<rparr>)"

definition sighup_handler :: "'n toml \<Rightarrow> string + 'n \<Rightarrow> 'n auth_process \<Rightarrow> 'n auth_process" where
  "sighup_handler api parsed p =
     (case parsed of
        Inl err \<Rightarrow> p\<lparr>status := Killed\<rparr>
      | Inr tbl \<Rightarrow>
          (case phase p of Waiting \<Rightarrow> install api tbl p | _ \<Rightarrow> p\<lparr>status := Blocked\<rparr>))"

inductive auth_step :: "'n toml \<Rightarrow> 'n auth_process \<Rightarrow> 'n auth_process \<Rightarrow> bool" for api where
  call_authenticate: "status p = Alive \<Longrightarrow> phase p = Waiting \<Longrightarrow> auth_step api p (p\<lparr>phase := In_authenticate req\<rparr>)"
| return_authenticate: "status p = Alive \<Longrightarrow> phase p = In_authenticate req \<Longrightarrow>
    auth_step api p (finish_authenticate req p)"
| call_reload: "status p = Alive \<Longrightarrow> phase p = Waiting \<Longrightarrow> auth_step api p (begin_reload parsed p)"
| return_reload: "status p = Alive \<Longrightarrow> phase p = In_load tbl \<Longrightarrow>
    auth_step api p (install api tbl (p\<lparr>phase := Waiting\<rparr>))"
| sighup: "status p = Alive \<Longrightarrow> auth_step api p (sighup_handler api parsed p)"

subsection \<open>Vocabulary of the properties\<close>

text \<open>The verdict that a document gives: its last complete entry for a system id counts.\<close>

definition verdict :: "'n toml \<Rightarrow> 'n \<Rightarrow> string \<Rightarrow> string \<Rightarrow> bool \<times> u32" where
  "verdict api tbl sid pwd =
     (case map_of (rev (document_pairs api tbl)) sid of
        None \<Rightarrow> (False, RINVSYSID)
      | Some p \<Rightarrow> if p = pwd then (True, OK) else (False, RINVPASWD))"

definition auth_process_inv :: "'n toml \<Rightarrow> 'n auth_process \<Rightarrow> bool" where
  "auth_process_inv api p \<longleftrightarrow>
     creds p = map_of (rev (document_pairs api (last (loaded p)))) \<and> loaded p \<noteq> []
     \<and> list_all (\<lambda>((uid, sid, pwd, ip), ans). \<exists>tbl \<in> set (loaded p). ans = verdict api tbl sid pwd) (answers p)"

section \<open>Lemmas\<close>

lemma load_document: "snd (store_load api (Inr tbl) c) = map_of (rev (document_pairs api tbl))"
  by (simp add: store_load_def fold_load_entries document_pairs_def)

lemma Authenticate_verdict:
  "c = map_of (rev (document_pairs api tbl)) \<Longrightarrow> Authenticate c uid sid pwd ip = verdict api tbl sid pwd"
  by (auto simp: Authenticate_def store_authenticate_def verdict_def split: option.split)

lemmas auth_process_defs = finish_authenticate_def install_def begin_reload_def sighup_handler_def

lemma auth_step_inv:
  assumes "auth_step api p q" and "auth_process_inv api p"
  shows "auth_process_inv api q"
  using assms
proof cases
  case (return_authenticate req)
  obtain uid sid pwd ip where req: "req = (uid, sid, pwd, ip)" by (cases req)
  have "Authenticate (creds p) uid sid pwd ip = verdict api (last (loaded p)) sid pwd"
    using assms(2) by (intro Authenticate_verdict) (simp add: auth_process_inv_def)
  moreover have "last (loaded p) \<in> set (loaded p)" using assms(2) by (simp add: auth_process_inv_def)
  ultimately show ?thesis
    using assms(2) return_authenticate by (auto simp: auth_process_inv_def finish_authenticate_def req)
qed (auto simp: auth_process_inv_def auth_process_defs load_document list_all_iff
    split: sum.splits phase.splits)

interpretation auth: inductive_invariant
  "\<lambda>p. auth_main api parse_file request_name env argv = Inr p" "auth_step api" "auth_process_inv api"
  for api parse_file request_name env argv
proof
  fix p
  assume "auth_main api parse_file request_name env argv = Inr p"
  then show "auth_process_inv api p"
    by (auto simp: auth_main_def auth_process_inv_def load_document split: sum.splits if_splits)
qed (rule auth_step_inv)

section \<open>Properties\<close>

text \<open>
  C32: every answer of the authenticator is the verdict of one completely loaded document, whatever
  calls, reloads, failing reloads and signals interleave, and at every moment the answer that a
  request would get is that of the document loaded last: no bind is ever judged by a map that is
  half replaced.
\<close>

theorem answers_from_loaded_documents:
  assumes "auth_main api parse_file request_name env argv = Inr p"
    and "(auth_step api)\<^sup>*\<^sup>* p q"
  shows "list_all (\<lambda>((uid, sid, pwd, ip), ans). \<exists>tbl \<in> set (loaded q). ans = verdict api tbl sid pwd) (answers q)
    \<and> Authenticate (creds q) uid sid pwd ip = verdict api (last (loaded q)) sid pwd"
proof -
  have "auth_process_inv api q"
    using auth.holds_from [OF assms(2)] auth.inv_start [OF assms(1)] by blast
  then show ?thesis by (simp add: auth_process_inv_def Authenticate_verdict)
qed

theorem answers_from_loaded_documents_witness:
  "\<exists>p q. auth_main doc_toml (\<lambda>f. Inr (Table [])) (\<lambda>n. True) (\<lambda>n. None) [] = Inr p
    \<and> (auth_step doc_toml)\<^sup>*\<^sup>* p q \<and> last (loaded q) = example_doc
    \<and> Authenticate (creds q) ''u'' ''esme1'' ''secret9'' ''ip'' = (True, OK)"
proof -
  obtain p where p: "auth_main doc_toml (\<lambda>f. Inr (Table [])) (\<lambda>n. True) (\<lambda>n. None) [] = Inr p"
      "phase p = Waiting" "status p = Alive"
    by (simp add: auth_main_def)
  let ?q = "sighup_handler doc_toml (Inr example_doc) p"
  have run: "(auth_step doc_toml)\<^sup>*\<^sup>* p ?q" by (intro r_into_rtranclp auth_step.sighup) (rule p)
  have l: "last (loaded ?q) = example_doc" by (simp add: sighup_handler_def install_def p)
  have "verdict doc_toml example_doc ''esme1'' ''secret9'' = (True, OK)"
    by (simp add: verdict_def document_pairs_def credentials_array_def entry_pair_def doc_toml_def
        example_doc_def string_at_def)
  then have "Authenticate (creds ?q) ''u'' ''esme1'' ''secret9'' ''ip'' = (True, OK)"
    using answers_from_loaded_documents [OF p(1) run] l by metis
  with p(1) run l show ?thesis by blast
qed

text \<open>
  A SIGHUP that arrives while the main thread is inside Authenticate blocks the process for good:
  the handler runs on the thread that holds the mutex and waits for it. One that finds a file which
  cannot be parsed kills the process, at any time.
\<close>

theorem sighup_ends_service:
  "phase p = In_authenticate req \<Longrightarrow> status (sighup_handler api (Inr tbl) p) = Blocked"
  "status (sighup_handler api (Inl err) p) = Killed"
  "status q \<noteq> Alive \<Longrightarrow> \<not> auth_step api q r"
  by (auto simp: sighup_handler_def elim: auth_step.cases)

text \<open>Without signals the service stays alive: no sequence of calls blocks or kills it.\<close>

theorem calls_keep_service_alive:
  assumes "auth_step api p q" and "status p = Alive" and "\<And>parsed. q \<noteq> sighup_handler api parsed p"
  shows "status q = Alive"
  using assms by cases (auto simp: auth_process_defs split: prod.split sum.split)

end
