(* ===== verification/System_Composition.thy ===== *)
theory System_Composition
  imports Session_Runs Server_Service Auth_Service
begin

text \<open>
  The services together: the session table of the server (Server_Service), one session per client
  handler process (Session_Runs) and the credentials of the authenticator (Auth_Service). The
  D-Bus calls that a session logs are executed on the other components in the order of the log:
  UpdateSessionDetails on the table and RouteMessage on the table and on the handler it selects,
  whose DeliverSm is called through its bus name. A bus name that no handler owns makes the call
  fail, as an unknown service does. Arguments arrive unchanged; Bus_Composition shows this for the
  strings that D-Bus can carry, and what happens to others.
\<close>

section \<open>Definitions\<close>

record system =
  srv :: server
  clients :: "string \<rightharpoonup> session"
  creds :: credentials

text \<open>The environment of a handler whose authentication service is the Authenticator.\<close>

definition client_env :: "credentials \<Rightarrow> env \<Rightarrow> env" where
  "client_env cr e = e\<lparr>authenticate := (\<lambda>u i p a. Some (Authenticate cr u i p a))\<rparr>"

definition call_DeliverSm ::
    "string \<Rightarrow> string \<Rightarrow> string \<Rightarrow> string \<Rightarrow> (string \<rightharpoonup> session) \<Rightarrow> u32 option \<times> (string \<rightharpoonup> session)" where
  "call_DeliverSm svc src dst msg w =
     (let u = drop (length (client_service [])) svc
      in case w u of
           None \<Rightarrow> (None, w)
         | Some t \<Rightarrow>
             (case DeliverSm src dst msg t of
                (Inl err, t) \<Rightarrow> (None, w(u \<mapsto> t))
              | (Inr seq, t) \<Rightarrow> (Some seq, w(u \<mapsto> t))))"

fun perform :: "action \<Rightarrow> system \<Rightarrow> system" where
  "perform (CallUpdateSessionDetails u i st) y = y\<lparr>srv := UpdateSessionDetails u i st (srv y)\<rparr>"
| "perform (CallRouteMessage src dst msg i) y =
     y\<lparr>clients := snd (RouteMessage call_DeliverSm src dst msg i (srv y) (clients y))\<rparr>"
| "perform _ y = y"

text \<open>The session of a handler moves to \<open>t\<close>; the calls it has made are executed.\<close>

definition move :: "string \<Rightarrow> session \<Rightarrow> session \<Rightarrow> system \<Rightarrow> system" where
  "move u s t y = fold perform (drop (length (out s)) (out t)) (y\<lparr>clients := (clients y)(u \<mapsto> t)\<rparr>)"

text \<open>The body of a PDU arrives at the handler of session \<open>u\<close>.\<close>

definition pdu_arrives :: "env \<Rightarrow> header \<Rightarrow> byte list \<Rightarrow> string \<Rightarrow> system \<Rightarrow> system" where
  "pdu_arrives e hdr body u y =
     (case clients y u of
        None \<Rightarrow> y
      | Some s \<Rightarrow> move u s (on_body (client_env (creds y) e) hdr (Inr body) s) y)"

definition new_system :: "u32 \<Rightarrow> credentials \<Rightarrow> system" where
  "new_system limit cr = \<lparr>srv = new_server limit, clients = Map.empty, creds = cr\<rparr>"

definition system_start :: "system \<Rightarrow> bool" where
  "system_start y \<longleftrightarrow> (\<exists>limit cr. y = new_system limit cr)"

inductive system_step :: "system \<Rightarrow> system \<Rightarrow> bool" where
  connect: "clients y u = None \<Longrightarrow> fst (add u f ip (conn_registry (srv y))) \<Longrightarrow>
    system_step y (y\<lparr>srv := register_session u f ip (srv y),
      clients := (clients y)(u \<mapsto> start (new_session u ip interval tmo rate now))\<rparr>)"
| session: "clients y u = Some s \<Longrightarrow> session_step s t \<Longrightarrow> system_step y (move u s t y)"
| claim: "system_step y (y\<lparr>srv := snd (GetSocket u (srv y))\<rparr>)"
| limit: "system_step y (y\<lparr>srv := SetMaxConnectionsPerIp ip n (srv y)\<rparr>)"
| reload: "system_step y (y\<lparr>creds := cr\<rparr>)"

text \<open>The table is right about every session that has not ended.\<close>

definition listed :: "server \<Rightarrow> string \<Rightarrow> session \<Rightarrow> bool" where
  "listed v u s \<longleftrightarrow> uuid s = u
     \<and> (\<exists>info. session_view v u = Some info \<and> (state s = UNBOUND \<or> info_state info = state_name (state s)))"

definition table_inv :: "system \<Rightarrow> bool" where
  "table_inv y \<longleftrightarrow> std_ordered (svc_sessions (srv y))
     \<and> (\<forall>u s. clients y u = Some s \<longrightarrow> listed (srv y) u s \<and> lifecycle_inv s)"

text \<open>Sessions that keep their identity and state, and whose life cycle stays sound.\<close>

definition same_sessions :: "(string \<rightharpoonup> session) \<Rightarrow> (string \<rightharpoonup> session) \<Rightarrow> bool" where
  "same_sessions w w' \<longleftrightarrow>
     (\<forall>u s'. w' u = Some s' \<longrightarrow>
       (\<exists>s. w u = Some s \<and> uuid s' = uuid s \<and> state s' = state s \<and> (lifecycle_inv s \<longrightarrow> lifecycle_inv s')))"

text \<open>What the calls of one session do to the table: its last report is recorded.\<close>

definition recorded :: "string \<Rightarrow> action list \<Rightarrow> server \<Rightarrow> server \<Rightarrow> bool" where
  "recorded u acts v v' \<longleftrightarrow> std_ordered (svc_sessions v')
     \<and> (\<forall>u'. u' \<noteq> u \<longrightarrow> session_view v' u' = session_view v u')
     \<and> session_view v' u =
        (if reports acts = [] then session_view v u
         else map_option (\<lambda>info. info\<lparr>info_system_id := fst (snd (last (reports acts))),
           info_state := snd (snd (last (reports acts)))\<rparr>) (session_view v u))"

text \<open>What a peer reads from a deliver_sm built from a well-formed submit_sm.\<close>

definition carries :: "byte list \<Rightarrow> submit_sm \<Rightarrow> bool" where
  "carries p sm \<longleftrightarrow>
     command_id (decode_header p) = DELIVER_SM
     \<and> unat (command_length (decode_header p)) = length p
     \<and> src_addr (parse_submit_sm (drop 16 p)) = src_addr sm
     \<and> dst_addr (parse_submit_sm (drop 16 p)) = dst_addr sm
     \<and> short_message (parse_submit_sm (drop 16 p)) = short_message sm"

text \<open>Systems for the witnesses: a transmitter and a receiver, and a session about to bind.\<close>

definition example_system :: system where
  "example_system =
     \<lparr>srv = (new_server 5)\<lparr>svc_sessions :=
        [(''rx'', \<lparr>info_ip = ''10.0.0.1'', info_system_id = ''esme1'', info_state = ''BOUND_TRX''\<rparr>),
         (''tx'', \<lparr>info_ip = ''10.0.0.1'', info_system_id = ''esme1'', info_state = ''BOUND_TRX''\<rparr>)]\<rparr>,
      clients = [''rx'' \<mapsto> example_bound, ''tx'' \<mapsto> example_bound], creds = Map.empty\<rparr>"

definition example_open_system :: system where
  "example_open_system =
     \<lparr>srv = (new_server 5)\<lparr>svc_sessions :=
        [(''00f1e2d3c4b5'', \<lparr>info_ip = ''10.0.0.1'', info_system_id = [], info_state = ''OPEN''\<rparr>)]\<rparr>,
      clients = [''00f1e2d3c4b5'' \<mapsto> example_start], creds = [''esme1'' \<mapsto> ''pass1'']\<rparr>"

section \<open>Lemmas\<close>

subsection \<open>Calls\<close>

lemma drop_client_service [simp]: "drop (length (client_service [])) (client_service u) = u"
  by (simp add: client_service_def)

lemma DeliverSm_cases:
  obtains (refused) "state t \<noteq> BOUND_RX" "state t \<noteq> BOUND_TRX" "DeliverSm src dst msg t = (Inl InvalidBindState, t)"
  | (sent) "state t = BOUND_RX \<or> state t = BOUND_TRX" "DeliverSm src dst msg t = (Inr (deliver_seq t),
      send_pdu (make_deliver_sm (deliver_seq t) src dst msg 0 0 0 0)
        (t\<lparr>delivering := None, deliver_seq := deliver_seq t + 1\<rparr>))"
  by (cases "state t = BOUND_RX \<or> state t = BOUND_TRX")
    (auto simp: DeliverSm_def deliver_check_def deliver_send_def next_deliver_seq_def)

lemma same_sessions_trans: "same_sessions w w' \<Longrightarrow> same_sessions w' w'' \<Longrightarrow> same_sessions w w''"
  by (fastforce simp: same_sessions_def)

text \<open>A call of DeliverSm keeps every session but its target, whose identity and state it keeps.\<close>

lemma call_DeliverSm_keeps:
  "same_sessions w (snd (call_DeliverSm svc src dst msg w))"
proof (cases "w (drop (length (client_service [])) svc)")
  case (Some t)
  have "lifecycle_inv t \<Longrightarrow> lifecycle_inv (send_pdu p (t\<lparr>delivering := None, deliver_seq := q\<rparr>))" for p q
    by (intro lifecycle.I_send lifecycle.I_deliver_seq lifecycle.I_idle TrueI)
  with Some show ?thesis
    by (cases rule: DeliverSm_cases [of t src dst msg])
      (auto simp: same_sessions_def call_DeliverSm_def send_pdu_def emit_def)
qed (simp add: same_sessions_def call_DeliverSm_def)

lemma RouteMessage_snd:
  "snd (RouteMessage deliver src dst msg i v w) =
    (if route_target v = [] then w else snd (deliver (client_service (route_target v)) src dst msg w))"
  by (auto simp: RouteMessage_def Let_def split: prod.split option.split)

lemma session_view_update:
  assumes "std_ordered (svc_sessions v)"
  shows "session_view (UpdateSessionDetails u i st v) =
    (session_view v)(u := map_option (\<lambda>info. info\<lparr>info_system_id := i, info_state := st\<rparr>) (session_view v u))"
  using assms
  by (auto simp: UpdateSessionDetails_def session_view_def std.find_assign fun_eq_iff split: option.split)

lemma UpdateSessionDetails_ordered:
  "std_ordered (svc_sessions v) \<Longrightarrow> std_ordered (svc_sessions (UpdateSessionDetails u i st v))"
  using server_step_ordered [of v "Update u i st"] by simp

subsection \<open>The table\<close>

lemma performs_srv:
  assumes "std_ordered (svc_sessions (srv y))" and "list_all (\<lambda>r. fst r = u) (reports acts)"
  shows "recorded u acts (srv y) (srv (fold perform acts y))"
  using assms(2)
proof (induction acts rule: rev_induct)
  case (snoc a acts)
  then have IH: "recorded u acts (srv y) (srv (fold perform acts y))" by simp
  show ?case
  proof (cases a)
    case (CallUpdateSessionDetails x i st)
    with snoc.prems have "x = u" by simp
    with CallUpdateSessionDetails IH show ?thesis
      by (auto simp: recorded_def UpdateSessionDetails_ordered session_view_update option.map_comp comp_def)
  qed (use IH in \<open>simp_all add: recorded_def\<close>)
qed (use assms(1) in \<open>simp add: recorded_def\<close>)

lemma perform_clients: "same_sessions (clients y) (clients (perform a y))"
proof (cases "\<exists>src dst msg i. a = CallRouteMessage src dst msg i")
  case True
  then show ?thesis using call_DeliverSm_keeps by (auto simp: RouteMessage_snd same_sessions_def [of w w for w])
next
  case False
  then have "clients (perform a y) = clients y" by (cases a) auto
  then show ?thesis by (simp add: same_sessions_def)
qed

lemma performs_clients: "same_sessions (clients y) (clients (fold perform acts y))"
proof (induction acts arbitrary: y)
  case (Cons a acts)
  show ?case using same_sessions_trans [OF perform_clients Cons.IH] by simp
qed (simp add: same_sessions_def)

lemma move_table_inv:
  assumes "table_inv y" and "clients y u = Some s" and "tracks s t" and "lifecycle_inv t"
  shows "table_inv (move u s t y)"
proof -
  from assms(3) obtain acts where acts: "out t = out s @ acts" "uuid t = uuid s"
      "list_all (\<lambda>r. fst r = uuid s) (reports acts)" "state s = UNBOUND \<longrightarrow> state t = UNBOUND"
      "state t = UNBOUND \<or> (if reports acts = [] then state t = state s
         else snd (last (reports acts)) = (system_id t, state_name (state t)))"
    unfolding tracks_def by blast
  let ?y = "y\<lparr>clients := (clients y)(u \<mapsto> t)\<rparr>"
  have m: "move u s t y = fold perform acts ?y" by (simp add: move_def acts(1))
  have s: "uuid s = u" "listed (srv y) u s" "std_ordered (svc_sessions (srv ?y))"
    using assms(1,2) by (auto simp: table_inv_def listed_def)
  have p: "recorded u acts (srv y) (srv (fold perform acts ?y))"
    using performs_srv [OF s(3) acts(3) [unfolded s(1)]] by simp
  have "lifecycle_inv x' \<and> listed (srv (fold perform acts ?y)) x x'"
    if "clients (fold perform acts ?y) x = Some x'" for x x'
  proof -
    from that performs_clients [of ?y acts] obtain z where
      z: "clients ?y x = Some z" "uuid x' = uuid z" "state x' = state z" "lifecycle_inv z \<longrightarrow> lifecycle_inv x'"
      unfolding same_sessions_def by blast
    then have "lifecycle_inv x'"
      using assms(1,4) by (auto simp: table_inv_def split: if_splits)
    moreover have "listed (srv (fold perform acts ?y)) x x'"
    proof (cases "x = u")
      case True
      with z s acts(2,4,5) p show ?thesis by (auto simp: listed_def recorded_def split: if_splits)
    next
      case False
      with z assms(1) p show ?thesis by (auto simp: listed_def table_inv_def recorded_def)
    qed
    ultimately show ?thesis ..
  qed
  with p show ?thesis by (simp add: m table_inv_def recorded_def)
qed

lemma connect_table_inv:
  assumes "table_inv y" and "clients y u = None" and "fst (add u f ip (conn_registry (srv y)))"
  shows "table_inv (y\<lparr>srv := register_session u f ip (srv y),
      clients := (clients y)(u \<mapsto> start (new_session u ip interval tmo rate now))\<rparr>)"
proof -
  let ?s = "start (new_session u ip interval tmo rate now)"
  have o: "std_ordered (svc_sessions (srv y))" using assms(1) by (simp add: table_inv_def)
  have v: "session_view (register_session u f ip (srv y)) =
      (session_view (srv y))(u \<mapsto> \<lparr>info_ip = ip, info_system_id = [], info_state = ''OPEN''\<rparr>)"
    using assms(3) o by (simp add: register_session_eq session_view_def std.find_assign)
  have "std_ordered (svc_sessions (register_session u f ip (srv y)))"
    using server_step_ordered [OF o, of "Register u f ip"] by simp
  moreover have "lifecycle_inv ?s"
    by (rule lifecycle.I_start) (unfold session_start_def, blast)
  moreover have "uuid ?s = u" "state ?s = OPEN"
    by (simp_all add: start_def new_session_def read_header_def schedule_enquire_link_def post_def Let_def)
  ultimately show ?thesis
    using assms(1,2) by (auto simp: table_inv_def listed_def v)
qed

interpretation table: inductive_invariant system_start system_step table_inv
proof unfold_locales
  fix y assume "system_start y"
  then show "table_inv y"
    by (auto simp: system_start_def new_system_def table_inv_def new_server_def)
next
  fix y z assume y: "table_inv y" and "system_step y z"
  from this(2) show "table_inv z"
  proof cases
    case (connect u f ip interval tmo rate now)
    with y show ?thesis by (auto intro: connect_table_inv)
  next
    case (session u s t)
    then have "lifecycle_inv s" using y by (auto simp: table_inv_def)
    with session y show ?thesis
      by (auto intro!: move_table_inv step_tracks intro: lifecycle.I_step)
  qed (use y in \<open>auto simp: table_inv_def listed_def session_view_def GetSocket_eq
        SetMaxConnectionsPerIp_def split: option.split\<close>)
qed

subsection \<open>One PDU through the services\<close>

lemma route_live:
  assumes "route_target v = r" and "r \<noteq> []" and "w r = Some t" and "state t = BOUND_RX \<or> state t = BOUND_TRX"
  shows "RouteMessage call_DeliverSm src dst msg i v w =
    (r, w(r \<mapsto> send_pdu (make_deliver_sm (deliver_seq t) src dst msg 0 0 0 0)
       (t\<lparr>delivering := None, deliver_seq := deliver_seq t + 1\<rparr>)))"
  using assms
  by (cases rule: DeliverSm_cases [of t src dst msg]) (auto simp: RouteMessage_def call_DeliverSm_def)

lemma read_header_keeps [simp]:
  "out (read_header s) = out s" "state (read_header s) = state s" "socket_open (read_header s) = socket_open s"
  by (simp_all add: read_header_def post_def)

lemma deliver_sm_carries:
  assumes "wf_submit_sm sm"
  shows "carries (make_deliver_sm seq (src_addr sm) (dst_addr sm) (short_message sm) 0 0 0 0) sm"
proof -
  let ?b = "make_deliver_sm_body (src_addr sm) (dst_addr sm) (short_message sm) 0 0 0 0"
  have wf: "wf_cstr (src_addr sm)" "wf_cstr (dst_addr sm)" "length (short_message sm) < 256"
    using assms by (simp_all add: wf_submit_sm_def)
  then have "16 + length ?b < 2 ^ 32" by (simp add: wf_cstr_def)
  moreover from this have "unat (of_nat (16 + length ?b) :: u32) = 16 + length ?b"
    by (rule unat_small)
  ultimately show ?thesis
    using wf by (simp add: carries_def make_deliver_sm_eq parse_is_stream deliver_sm_stream_cut)
qed

lemma submit_arrives:
  fixes y u s e hdr body
  defines "t \<equiv> on_body (client_env (creds y) e) hdr (Inr body) s"
    and "i \<equiv> message_id (msg_id_prefix s) (msg_seq s + 1)"
  assumes "clients y u = Some s" and "state s = BOUND_TX \<or> state s = BOUND_TRX"
    and "throttle_check (steady_now e) s = (True, s')" and "command_id hdr = SUBMIT_SM"
  shows "state t = state s" and "socket_open t = socket_open s"
    and "sent_pdus (out t) = sent_pdus (out s)
        @ (if socket_open s then [make_response SUBMIT_SM_RESP ESME_ROK (sequence_number hdr) i] else [])"
    and "pdu_arrives e hdr body u y = y\<lparr>clients := snd (RouteMessage call_DeliverSm
        (src_addr (parse_submit_sm body)) (dst_addr (parse_submit_sm body)) (short_message (parse_submit_sm body)) i
        (srv y) ((clients y)(u \<mapsto> t)))\<rparr>"
proof -
  let ?e = "client_env (creds y) e"
  have "throttle_check (steady_now ?e) s = (True, s')" using assms(5) by (simp add: client_env_def)
  note acc = submit_accepted [OF assms(4) this, of hdr body]
  obtain tm k where s': "s' = s\<lparr>tb_last_refill := tm, tb_tokens := k\<rparr>"
    using throttle_check_sessionD [OF assms(5)] by blast
  note defs = t_def i_def on_body_def dispatch_def assms(3,6) acc s' send_pdu_def emit_def
  show "state t = state s" "socket_open t = socket_open s"
    "sent_pdus (out t) = sent_pdus (out s)
        @ (if socket_open s then [make_response SUBMIT_SM_RESP ESME_ROK (sequence_number hdr) i] else [])"
    by (simp_all add: defs)
  show "pdu_arrives e hdr body u y = y\<lparr>clients := snd (RouteMessage call_DeliverSm
        (src_addr (parse_submit_sm body)) (dst_addr (parse_submit_sm body)) (short_message (parse_submit_sm body)) i
        (srv y) ((clients y)(u \<mapsto> t)))\<rparr>"
    by (simp add: pdu_arrives_def move_def defs)
qed

lemma Authenticate_iff: "fst (Authenticate cr u i p a) \<longleftrightarrow> cr i = Some p"
  by (auto simp: Authenticate_def store_authenticate_def split: option.split)

subsection \<open>Lifting the runs of a session\<close>

lemma performs_no_route: "routed_ids acts = [] \<Longrightarrow> clients (fold perform acts y) = clients y"
proof (induction acts arbitrary: y)
  case (Cons a acts)
  then show ?case by (cases a) auto
qed simp

lemma step_lift:
  assumes "table_inv y" and "clients y u = Some s" and "session_step s t" and "routed_ids (out t) = []"
  shows "clients (move u s t y) u = Some t \<and> table_inv (move u s t y)
    \<and> (\<forall>u'. u' \<noteq> u \<longrightarrow> session_view (srv (move u s t y)) u' = session_view (srv y) u')"
proof -
  from step_tracks [OF assms(3)] obtain acts where
    out: "out t = out s @ acts" "list_all (\<lambda>r. fst r = uuid s) (reports acts)"
    unfolding tracks_def by blast
  have y: "std_ordered (svc_sessions (srv y))" "uuid s = u"
    using assms(1,2) by (auto simp: table_inv_def listed_def)
  have "recorded u acts (srv y) (srv (move u s t y))"
    using performs_srv [of "y\<lparr>clients := (clients y)(u \<mapsto> t)\<rparr>" u acts] y out by (simp add: move_def)
  moreover have "table_inv (move u s t y)"
    using table.inv_step [OF assms(1) system_step.session [OF assms(2,3)]] .
  ultimately show ?thesis
    using assms(4) out by (simp add: move_def performs_no_route recorded_def)
qed

lemma steps_lift:
  assumes "session_step\<^sup>*\<^sup>* s t" and "table_inv y" and "clients y u = Some s" and "routed_ids (out t) = []"
  shows "\<exists>y'. system_step\<^sup>*\<^sup>* y y' \<and> table_inv y' \<and> clients y' u = Some t
    \<and> (\<forall>u'. u' \<noteq> u \<longrightarrow> session_view (srv y') u' = session_view (srv y) u')"
  using assms
proof (induction rule: rtranclp.induct)
  case (rtrancl_into_rtrancl s t t')
  from step_tracks [OF rtrancl_into_rtrancl.hyps(2)] obtain acts where "out t' = out t @ acts"
    unfolding tracks_def by blast
  with rtrancl_into_rtrancl.prems(3) have "routed_ids (out t) = []" by simp
  from rtrancl_into_rtrancl.IH [OF rtrancl_into_rtrancl.prems(1,2) this]
  obtain y' where y': "system_step\<^sup>*\<^sup>* y y'" "table_inv y'" "clients y' u = Some t"
    "\<forall>u'. u' \<noteq> u \<longrightarrow> session_view (srv y') u' = session_view (srv y) u'" by blast
  from step_lift [OF y'(2,3) rtrancl_into_rtrancl.hyps(2) rtrancl_into_rtrancl.prems(3)]
    system_step.session [OF y'(3) rtrancl_into_rtrancl.hyps(2)] y'
  show ?case by (intro exI [of _ "move u t t' y'"]) (auto intro: rtranclp.rtrancl_into_rtrancl)
qed auto

lemma route_target_only:
  assumes "std_ordered (svc_sessions v)" and "session_view v u = Some info" and "is_receiver info"
    and "\<forall>u'. u' \<noteq> u \<longrightarrow> session_view v u' = None"
  shows "route_target v = u"
proof (cases "List.find (\<lambda>(uuid, info). is_receiver info) (svc_sessions v)")
  case None
  from std.first_none [OF assms(1) None, of u info] assms(2,3) show ?thesis by (simp add: session_view_def)
next
  case (Some kv)
  obtain k i where kv: "kv = (k, i)" by (cases kv)
  from std.first_least(2) [OF assms(1) Some [unfolded kv]] have "session_view v k = Some i"
    by (simp add: session_view_def)
  with assms(4) have "k = u" by (metis option.distinct(1))
  with Some kv show ?thesis by (simp add: route_target_def)
qed

text \<open>The example session of Session_Runs binds in a system of its own.\<close>

lemma example_system_reachable:
  "\<exists>y. reachable system_start system_step y \<and> clients y ''00f1e2d3c4b5'' = Some example_bound
    \<and> route_target (srv y) = ''00f1e2d3c4b5''"
proof -
  let ?u = "''00f1e2d3c4b5''" and ?y0 = "new_system 5 Map.empty"
  let ?y1 = "?y0\<lparr>srv := register_session ?u 7 ''10.0.0.1'' (srv ?y0), clients := (clients ?y0)(?u \<mapsto> example_start)\<rparr>"
  have s0: "system_start ?y0" by (auto simp: system_start_def)
  have step: "system_step ?y0 ?y1"
    unfolding example_start_def
    by (rule system_step.connect) (simp_all add: new_system_def new_server_def new_registry_def add_def ip_ref_def Let_def)
  then have inv: "table_inv ?y1" using table.inv_step table.inv_start s0 by blast
  from steps_lift [OF example_steps(1) this, of ?u] obtain y where
    y: "system_step\<^sup>*\<^sup>* ?y1 y" "table_inv y" "clients y ?u = Some example_bound"
      "\<forall>u'. u' \<noteq> ?u \<longrightarrow> session_view (srv y) u' = session_view (srv ?y1) u'"
    by (auto simp: example_bound_fields)
  have "\<forall>u'. u' \<noteq> ?u \<longrightarrow> session_view (srv ?y1) u' = None"
    by (auto simp: new_system_def new_server_def session_view_def register_session_eq)
  moreover from y(2,3) obtain info where "session_view (srv y) ?u = Some info" "is_receiver info"
    by (fastforce simp: table_inv_def listed_def is_receiver_def example_bound_fields)
  ultimately have "route_target (srv y) = ?u"
    using y(2,4) by (intro route_target_only) (auto simp: table_inv_def)
  moreover have "reachable system_start system_step y"
    using y(1) step s0 by (intro reachable_rtranclp [of system_step ?y0]) (rule converse_rtranclp_into_rtranclp)
  ultimately show ?thesis using y(3) by blast
qed

section \<open>Properties\<close>



text \<open>
  C2: routing is reliable between live sessions. In every reachable state of the composed system,
  whatever sessions connect, bind, submit, time out and end in whatever order, if the receiver
  that RouteMessage selects has not ended, the call succeeds and the deliver_sm is written to that
  receiver: the table of the server is never wrong about a session that is alive.
\<close>

theorem live_receiver_gets_message:
  assumes "reachable system_start system_step y"
    and "route_target (srv y) = r" and "r \<noteq> []" and "clients y r = Some t" and "state t \<noteq> UNBOUND"
  shows "\<exists>t2. RouteMessage call_DeliverSm src dst msg i (srv y) (clients y) = (r, (clients y)(r \<mapsto> t2))
    \<and> sent_pdus (out t2) = sent_pdus (out t) @ [make_deliver_sm (deliver_seq t) src dst msg 0 0 0 0]"
proof -
  have inv: "std_ordered (svc_sessions (srv y))" "listed (srv y) r t" "lifecycle_inv t"
    using table.holds [OF assms(1)] assms(4) by (auto simp: table_inv_def)
  obtain info where info: "session_view (srv y) r = Some info" "is_receiver info"
    using route_target_least(1) [OF inv(1)] assms(2,3) by auto
  with inv(2) assms(5) have "is_receiver info" "info_state info = state_name (state t)"
    by (auto simp: listed_def)
  then have t: "state t = BOUND_RX \<or> state t = BOUND_TRX" by (cases "state t") (auto simp: is_receiver_def)
  have "socket_open t" using inv(3) assms(5) by (simp add: lifecycle_inv_def)
  with route_live [where w = "clients y", OF assms(2-4) t] show ?thesis
    by (intro exI [of _ "send_pdu (make_deliver_sm (deliver_seq t) src dst msg 0 0 0 0)
          (t\<lparr>delivering := None, deliver_seq := deliver_seq t + 1\<rparr>)"]) simp
qed

theorem live_receiver_gets_message_witness:
  "\<exists>y w. reachable system_start system_step y
    \<and> RouteMessage call_DeliverSm ''1'' ''2'' ''hi'' ''id'' (srv y) (clients y) = (''00f1e2d3c4b5'', w)"
proof -
  from example_system_reachable obtain y where
    "reachable system_start system_step y" "clients y ''00f1e2d3c4b5'' = Some example_bound"
    "route_target (srv y) = ''00f1e2d3c4b5''" by blast
  with live_receiver_gets_message [of y "''00f1e2d3c4b5''" example_bound "''1''" "''2''" "''hi''" "''id''"]
  show ?thesis by (auto simp: example_bound_fields)
qed

text \<open>
  C3: login through the services. A bind that arrives at an open, listed session is granted exactly
  when the credentials of the authenticator hold that password for the system id. If so, the
  session is bound in the requested mode, answers status 0, and the table of the server shows the
  system id and the new state; if not, the session answers a non-zero status and ends, and the
  table is unchanged.
\<close>

theorem login_through_services:
  fixes e hdr body u y
  defines "z \<equiv> pdu_arrives e hdr body u y"
  assumes "clients y u = Some s" and "state s = OPEN" and "socket_open s" and "uuid s = u"
    and "command_id hdr \<in> {BIND_TRANSMITTER, BIND_RECEIVER, BIND_TRANSCEIVER}"
    and "bind_credentials body = (sid, pass)"
    and "std_ordered (svc_sessions (srv y))" and "session_view (srv y) u = Some info"
  shows "\<exists>s2 code. clients z u = Some s2
    \<and> (code = 0 \<longleftrightarrow> creds y sid = Some pass)
    \<and> sent_pdus (out s2) = sent_pdus (out s) @ [make_response (bind_resp_id (command_id hdr)) code
        (sequence_number hdr) (if code = 0 then ''smpp-server'' else [])]
    \<and> state s2 = (if code = 0 then bind_state (command_id hdr) OPEN else UNBOUND)
    \<and> session_view (srv z) u = Some (if code = 0
        then info\<lparr>info_system_id := sid, info_state := state_name (state s2)\<rparr> else info)"
proof -
  let ?e = "client_env (creds y) e"
  let ?r = "Authenticate (creds y) u sid pass (client_ip s)"
  have auth: "authenticate ?e (uuid s) sid pass (client_ip s) = Some ?r"
    by (simp add: client_env_def assms(5))
  have disp: "on_body ?e hdr (Inr body) s = read_header (handle_bind ?e hdr body s)"
    using assms(6) by (auto simp: on_body_def dispatch_def Let_def)
  have z: "z = move u s (read_header (handle_bind ?e hdr body s)) y"
    by (simp add: z_def pdu_arrives_def assms(2) disp)
  show ?thesis
  proof (cases rule: bind_cases [of s ?e hdr body])
    case refused
    with assms(3) show ?thesis by simp
  next
    case (failed sid' pass' err)
    then have r: "?r = (False, err)" using assms(7) auth by (simp add: auth_verdict_def)
    then have "err \<noteq> 0" "creds y sid \<noteq> Some pass"
      using service.refused_code Authenticate_iff [of "creds y" u sid pass "client_ip s"] by auto
    with failed assms(3,4,9) show ?thesis
      by (intro exI [of _ "read_header (handle_bind ?e hdr body s)"] exI [of _ err])
        (simp add: z move_def do_disconnect_def socket_close_def send_pdu_def emit_def Let_def)
  next
    case (bound sid' pass' code)
    then have r: "?r = (True, code)" using assms(7) auth by simp
    then have "creds y sid = Some pass"
      using Authenticate_iff [of "creds y" u sid pass "client_ip s"] by simp
    with bound assms(2-) show ?thesis
      by (intro exI [of _ "read_header (handle_bind ?e hdr body s)"] exI [of _ 0])
        (simp add: z move_def update_session_details_def send_pdu_def emit_def session_view_update)
  qed
qed

theorem login_through_services_witness:
  "\<exists>s2. clients (pdu_arrives example_env
        \<lparr>command_length = 28, command_id = BIND_TRANSCEIVER, command_status = 0, sequence_number = 1\<rparr>
        (bytes_of ''esme1'' @ [0] @ bytes_of ''pass1'' @ [0]) ''00f1e2d3c4b5'' example_open_system) ''00f1e2d3c4b5'' = Some s2
    \<and> state s2 = BOUND_TRX"
proof -
  have c: "bind_credentials (bytes_of ''esme1'' @ [0] @ bytes_of ''pass1'' @ [0]) = (''esme1'', ''pass1'')"
    by code_simp
  show ?thesis
    using login_through_services [OF _ _ _ _ _ c, of example_open_system "''00f1e2d3c4b5''" example_start
        "\<lparr>command_length = 28, command_id = BIND_TRANSCEIVER, command_status = 0, sequence_number = 1\<rparr>"
        "\<lparr>info_ip = ''10.0.0.1'', info_system_id = [], info_state = ''OPEN''\<rparr>" example_env]
    by (auto simp: example_open_system_def example_start_fields session_view_def bind_state_def
        simp del: bytes_of_Cons append.simps)
qed

text \<open>
  An ended receiver stays in the table: an unbind changes neither the table nor the selection, and
  when the selected session has ended every RouteMessage fails, although other receivers may be
  bound.
\<close>

theorem ended_receiver_blocks_routing:
  assumes "clients y r = Some t" and "route_target (srv y) = r" and "r \<noteq> []" and "command_id hdr = UNBIND"
  shows "route_target (srv (pdu_arrives e hdr body r y)) = r
    \<and> fst (RouteMessage call_DeliverSm src dst msg i (srv (pdu_arrives e hdr body r y))
        (clients (pdu_arrives e hdr body r y))) = []"
proof -
  let ?z = "pdu_arrives e hdr body r y"
  let ?t = "on_body (client_env (creds y) e) hdr (Inr body) t"
  have t: "?t = read_header (handle_unbind hdr t)" using assms(4) by (simp add: on_body_def dispatch_def)
  have u: "state ?t = UNBOUND" by (simp add: t handle_unbind_def)
  have "srv ?z = srv y \<and> clients ?z = (clients y)(r \<mapsto> ?t)"
    by (simp add: pdu_arrives_def assms(1) move_def t handle_unbind_def do_disconnect_def socket_close_def send_pdu_def emit_def Let_def)
  moreover have "DeliverSm src dst msg ?t = (Inl InvalidBindState, ?t)"
    by (cases rule: DeliverSm_cases [of ?t src dst msg]) (use u in auto)
  ultimately show ?thesis
    using assms(2,3) by (simp add: RouteMessage_def call_DeliverSm_def)
qed

end
