(* ===== verification/Dbus_Interfaces.thy ===== *)
theory Dbus_Interfaces
  imports Server_Service Client_Session Auth_Service
begin

text \<open>
  The D-Bus interfaces: the adaptors and proxies that are checked in under include/generated of
  SMPPServer, SmppClientHandler and Authenticator, and the calls that the programs write by hand.
  An adaptor registers the virtual methods of its service in a table of interface and method names; a
  proxy method packs its arguments, calls, and unpacks the results. The sdbus library between them is
  a parameter, the function \<open>call\<close>. What the code relies on is the locale \<open>dbus_object\<close>: a call with
  the name and the argument types of a registered method executes that method. D-Bus strings are
  UTF-8 without NUL, so only such strings are known to arrive.
\<close>

section \<open>Definitions\<close>

subsection \<open>Messages\<close>

datatype dbus_value =
    Str string
  | U32 u32
  | U64 u64
  | Boolean bool
  | Unix_fd int
  | Struct_array "(string \<times> string \<times> string \<times> string) list"

primrec signature :: "dbus_value \<Rightarrow> string" where
  "signature (Str s) = ''s''"
| "signature (U32 n) = ''u''"
| "signature (U64 n) = ''t''"
| "signature (Boolean b) = ''b''"
| "signature (Unix_fd f) = ''h''"
| "signature (Struct_array rs) = ''a(ssss)''"

text \<open>Valid UTF-8, byte by byte: no surrogates, no overlong forms, nothing above U+10FFFF.\<close>

definition utf8_tail :: "nat \<Rightarrow> bool" where
  "utf8_tail b \<longleftrightarrow> 0x80 \<le> b \<and> b \<le> 0xBF"

text \<open>What follows the first character of a list of bytes, if it begins with a character.\<close>

fun utf8_char :: "nat list \<Rightarrow> nat list option" where
  "utf8_char [] = None"
| "utf8_char (a # bs) =
     (if a < 0x80 then Some bs
      else if 0xC2 \<le> a \<and> a \<le> 0xDF then
        (if 1 \<le> length bs \<and> list_all utf8_tail (take 1 bs) then Some (drop 1 bs) else None)
      else if 0xE0 \<le> a \<and> a \<le> 0xEF then
        (if 2 \<le> length bs \<and> list_all utf8_tail (take 2 bs) \<and> (a = 0xE0 \<longrightarrow> 0xA0 \<le> hd bs) \<and> (a = 0xED \<longrightarrow> hd bs \<le> 0x9F)
         then Some (drop 2 bs) else None)
      else if 0xF0 \<le> a \<and> a \<le> 0xF4 then
        (if 3 \<le> length bs \<and> list_all utf8_tail (take 3 bs) \<and> (a = 0xF0 \<longrightarrow> 0x90 \<le> hd bs) \<and> (a = 0xF4 \<longrightarrow> hd bs \<le> 0x8F)
         then Some (drop 3 bs) else None)
      else None)"

lemma utf8_char_shorter: "utf8_char bs = Some r \<Longrightarrow> length r < length bs"
  by (cases bs) (auto split: if_splits)

function utf8_valid :: "nat list \<Rightarrow> bool" where
  "utf8_valid bs \<longleftrightarrow> bs = [] \<or> (case utf8_char bs of None \<Rightarrow> False | Some r \<Rightarrow> utf8_valid r)"
  by pat_completeness auto

termination
  by (relation "measure length") (auto simp: utf8_char_shorter)

declare utf8_valid.simps [simp del]

definition dbus_string :: "string \<Rightarrow> bool" where
  "dbus_string s \<longleftrightarrow> CHR 0x00 \<notin> set s \<and> utf8_valid (map of_char s)"

primrec marshallable :: "dbus_value \<Rightarrow> bool" where
  "marshallable (Str s) \<longleftrightarrow> dbus_string s"
| "marshallable (U32 n) \<longleftrightarrow> True"
| "marshallable (U64 n) \<longleftrightarrow> True"
| "marshallable (Boolean b) \<longleftrightarrow> True"
| "marshallable (Unix_fd f) \<longleftrightarrow> True"
| "marshallable (Struct_array rs) \<longleftrightarrow>
     list_all (\<lambda>(a, b, c, d). dbus_string a \<and> dbus_string b \<and> dbus_string c \<and> dbus_string d) rs"

text \<open>A call is answered with results or with the name and message of an error.\<close>

datatype reply = Return "dbus_value list" | Error string string

primrec reply_ok :: "reply \<Rightarrow> bool" where
  "reply_ok (Return vs) \<longleftrightarrow> list_all marshallable vs"
| "reply_ok (Error n m) \<longleftrightarrow> dbus_string m"

text \<open>
  The world \<open>'w\<close> is what the methods act on. A registered method is a lambda expression with typed
  parameters: it is defined on the argument lists of its types only.
\<close>

type_synonym sdbus_error = "string \<times> string"
type_synonym 'w vtable = "((string \<times> string) \<times> (dbus_value list \<Rightarrow> ('w \<Rightarrow> reply \<times> 'w) option)) list"
type_synonym 'w call = "string \<Rightarrow> string \<Rightarrow> dbus_value list \<Rightarrow> 'w \<Rightarrow> reply \<times> 'w"

definition method_of :: "'w vtable \<Rightarrow> string \<Rightarrow> string \<Rightarrow> dbus_value list \<Rightarrow> ('w \<Rightarrow> reply \<times> 'w) option" where
  "method_of vt iface m args = (case map_of vt (iface, m) of None \<Rightarrow> None | Some h \<Rightarrow> h args)"

text \<open>The result of a method, or the \<open>sdbus::Error\<close> it throws, becomes the reply.\<close>

definition answer :: "('a \<Rightarrow> dbus_value list) \<Rightarrow> (sdbus_error + 'a) \<times> 'w \<Rightarrow> reply \<times> 'w" where
  "answer enc res =
     (case res of (Inl (n, m), w) \<Rightarrow> (Error n m, w) | (Inr x, w) \<Rightarrow> (Return (enc x), w))"

text \<open>A caller gets the results it stores, or an exception.\<close>

datatype call_error = Remote string string | Bad_results

definition results :: "(dbus_value list \<Rightarrow> 'a option) \<Rightarrow> reply \<times> 'w \<Rightarrow> (call_error + 'a) \<times> 'w" where
  "results dec res =
     (case res of
        (Error n m, w) \<Rightarrow> (Inl (Remote n m), w)
      | (Return vs, w) \<Rightarrow> ((case dec vs of None \<Rightarrow> Inl Bad_results | Some x \<Rightarrow> Inr x), w))"

fun none_of :: "unit \<Rightarrow> dbus_value list" where "none_of u = []"
fun fd_of :: "int \<Rightarrow> dbus_value list" where "fd_of f = [Unix_fd f]"
fun u32_of :: "u32 \<Rightarrow> dbus_value list" where "u32_of n = [U32 n]"
fun str_of :: "string \<Rightarrow> dbus_value list" where "str_of s = [Str s]"
fun rows_of :: "(string \<times> string \<times> string \<times> string) list \<Rightarrow> dbus_value list" where "rows_of rs = [Struct_array rs]"
fun verdict_of :: "bool \<times> u32 \<Rightarrow> dbus_value list" where "verdict_of (b, n) = [Boolean b, U32 n]"
fun info_of :: "string \<times> string \<times> string \<times> string \<times> u64 \<Rightarrow> dbus_value list" where
  "info_of (a, b, c, d, n) = [Str a, Str b, Str c, Str d, U64 n]"

text \<open>A call without stored results ignores what is returned.\<close>

fun to_none :: "dbus_value list \<Rightarrow> unit option" where "to_none vs = Some ()"
fun to_fd :: "dbus_value list \<Rightarrow> int option" where "to_fd [Unix_fd f] = Some f" | "to_fd _ = None"
fun to_u32 :: "dbus_value list \<Rightarrow> u32 option" where "to_u32 [U32 n] = Some n" | "to_u32 _ = None"
fun to_str :: "dbus_value list \<Rightarrow> string option" where "to_str [Str s] = Some s" | "to_str _ = None"
fun to_rows :: "dbus_value list \<Rightarrow> (string \<times> string \<times> string \<times> string) list option" where
  "to_rows [Struct_array rs] = Some rs" | "to_rows _ = None"
fun to_verdict :: "dbus_value list \<Rightarrow> (bool \<times> u32) option" where
  "to_verdict [Boolean b, U32 n] = Some (b, n)" | "to_verdict _ = None"
fun to_info :: "dbus_value list \<Rightarrow> (string \<times> string \<times> string \<times> string \<times> u64) option" where
  "to_info [Str a, Str b, Str c, Str d, U64 n] = Some (a, b, c, d, n)" | "to_info _ = None"

subsection \<open>IServer\<close>

definition ISERVER_IFACE :: string where
  "ISERVER_IFACE = ''com.telecom.smpp.IServer''"

definition ISERVER_PATH :: string where
  "ISERVER_PATH = ''/com/telecom/smpp/server''"

text \<open>The pure virtual methods, as a service implements them.\<close>

record 'w IServer =
  v_GetSocket :: "string \<Rightarrow> 'w \<Rightarrow> (sdbus_error + int) \<times> 'w"
  v_UpdateSessionDetails :: "string \<Rightarrow> string \<Rightarrow> string \<Rightarrow> 'w \<Rightarrow> (sdbus_error + unit) \<times> 'w"
  v_GetConnectionCount :: "string \<Rightarrow> 'w \<Rightarrow> (sdbus_error + u32) \<times> 'w"
  v_GetAllSessions :: "'w \<Rightarrow> (sdbus_error + (string \<times> string \<times> string \<times> string) list) \<times> 'w"
  v_SetMaxConnectionsPerIp :: "string \<Rightarrow> u32 \<Rightarrow> 'w \<Rightarrow> (sdbus_error + unit) \<times> 'w"
  v_DisconnectAll :: "string \<Rightarrow> string \<Rightarrow> 'w \<Rightarrow> (sdbus_error + unit) \<times> 'w"
  v_RouteMessage :: "string \<Rightarrow> string \<Rightarrow> string \<Rightarrow> string \<Rightarrow> 'w \<Rightarrow> (sdbus_error + string) \<times> 'w"

definition IServer_adaptor :: "'w IServer \<Rightarrow> 'w vtable" where
  "IServer_adaptor this =
     [((ISERVER_IFACE, ''GetSocket''), \<lambda>args. case args of
         [Str uid] \<Rightarrow> Some (\<lambda>w. answer fd_of (v_GetSocket this uid w)) | _ \<Rightarrow> None),
      ((ISERVER_IFACE, ''UpdateSessionDetails''), \<lambda>args. case args of
         [Str uid, Str sid, Str st] \<Rightarrow>
           Some (\<lambda>w. answer none_of (v_UpdateSessionDetails this uid sid st w)) | _ \<Rightarrow> None),
      ((ISERVER_IFACE, ''GetConnectionCount''), \<lambda>args. case args of
         [Str ip] \<Rightarrow> Some (\<lambda>w. answer u32_of (v_GetConnectionCount this ip w)) | _ \<Rightarrow> None),
      ((ISERVER_IFACE, ''GetAllSessions''), \<lambda>args. case args of
         [] \<Rightarrow> Some (\<lambda>w. answer rows_of (v_GetAllSessions this w)) | _ \<Rightarrow> None),
      ((ISERVER_IFACE, ''SetMaxConnectionsPerIp''), \<lambda>args. case args of
         [Str ip, U32 limit] \<Rightarrow> Some (\<lambda>w. answer none_of (v_SetMaxConnectionsPerIp this ip limit w)) | _ \<Rightarrow> None),
      ((ISERVER_IFACE, ''DisconnectAll''), \<lambda>args. case args of
         [Str ip, Str reason] \<Rightarrow> Some (\<lambda>w. answer none_of (v_DisconnectAll this ip reason w)) | _ \<Rightarrow> None),
      ((ISERVER_IFACE, ''RouteMessage''), \<lambda>args. case args of
         [Str src, Str dst, Str msg, Str i] \<Rightarrow>
           Some (\<lambda>w. answer str_of (v_RouteMessage this src dst msg i w))
       | _ \<Rightarrow> None)]"

definition proxy_GetSocket :: "'w call \<Rightarrow> string \<Rightarrow> 'w \<Rightarrow> (call_error + int) \<times> 'w" where
  "proxy_GetSocket call uid w = results to_fd (call ISERVER_IFACE ''GetSocket'' [Str uid] w)"

definition proxy_UpdateSessionDetails ::
    "'w call \<Rightarrow> string \<Rightarrow> string \<Rightarrow> string \<Rightarrow> 'w \<Rightarrow> (call_error + unit) \<times> 'w" where
  "proxy_UpdateSessionDetails call uid sid st w =
     results to_none (call ISERVER_IFACE ''UpdateSessionDetails'' [Str uid, Str sid, Str st] w)"

definition proxy_GetConnectionCount :: "'w call \<Rightarrow> string \<Rightarrow> 'w \<Rightarrow> (call_error + u32) \<times> 'w" where
  "proxy_GetConnectionCount call ip w = results to_u32 (call ISERVER_IFACE ''GetConnectionCount'' [Str ip] w)"

definition proxy_GetAllSessions ::
    "'w call \<Rightarrow> 'w \<Rightarrow> (call_error + (string \<times> string \<times> string \<times> string) list) \<times> 'w" where
  "proxy_GetAllSessions call w = results to_rows (call ISERVER_IFACE ''GetAllSessions'' [] w)"

definition proxy_SetMaxConnectionsPerIp :: "'w call \<Rightarrow> string \<Rightarrow> u32 \<Rightarrow> 'w \<Rightarrow> (call_error + unit) \<times> 'w" where
  "proxy_SetMaxConnectionsPerIp call ip limit w =
     results to_none (call ISERVER_IFACE ''SetMaxConnectionsPerIp'' [Str ip, U32 limit] w)"

definition proxy_DisconnectAll :: "'w call \<Rightarrow> string \<Rightarrow> string \<Rightarrow> 'w \<Rightarrow> (call_error + unit) \<times> 'w" where
  "proxy_DisconnectAll call ip reason w =
     results to_none (call ISERVER_IFACE ''DisconnectAll'' [Str ip, Str reason] w)"

definition proxy_RouteMessage ::
    "'w call \<Rightarrow> string \<Rightarrow> string \<Rightarrow> string \<Rightarrow> string \<Rightarrow> 'w \<Rightarrow> (call_error + string) \<times> 'w" where
  "proxy_RouteMessage call src dst msg i w =
     results to_str (call ISERVER_IFACE ''RouteMessage''
       [Str src, Str dst, Str msg, Str i] w)"

text \<open>A signal is its interface, its name and its arguments; a proxy registers a handler for it.\<close>

type_synonym dbus_signal = "string \<times> string \<times> dbus_value list"

definition emitSessionStarted :: "string \<Rightarrow> string \<Rightarrow> dbus_signal" where
  "emitSessionStarted uid ip = (ISERVER_IFACE, ''SessionStarted'', [Str uid, Str ip])"

definition IServer_proxy :: "(string \<Rightarrow> string \<Rightarrow> 'w \<Rightarrow> 'w) \<Rightarrow> dbus_signal \<Rightarrow> 'w \<Rightarrow> 'w" where
  "IServer_proxy onSessionStarted sig w =
     (case sig of (iface, name, args) \<Rightarrow>
        if iface = ISERVER_IFACE \<and> name = ''SessionStarted'' then
          (case args of [Str uid, Str ip] \<Rightarrow> onSessionStarted uid ip w | _ \<Rightarrow> w)
        else w)"

subsection \<open>IClientHandler\<close>

definition ICLIENTHANDLER_IFACE :: string where
  "ICLIENTHANDLER_IFACE = ''com.telecom.smpp.IClientHandler''"

definition ICLIENTHANDLER_PATH :: string where
  "ICLIENTHANDLER_PATH = ''/com/telecom/smpp/client''"

record 'w IClientHandler =
  v_GetSessionInfo :: "'w \<Rightarrow> (sdbus_error + string \<times> string \<times> string \<times> string \<times> u64) \<times> 'w"
  v_Disconnect :: "string \<Rightarrow> 'w \<Rightarrow> (sdbus_error + unit) \<times> 'w"
  v_DeliverSm :: "string \<Rightarrow> string \<Rightarrow> string \<Rightarrow> 'w \<Rightarrow> (sdbus_error + u32) \<times> 'w"

definition IClientHandler_adaptor :: "'w IClientHandler \<Rightarrow> 'w vtable" where
  "IClientHandler_adaptor this =
     [((ICLIENTHANDLER_IFACE, ''GetSessionInfo''), \<lambda>args. case args of
         [] \<Rightarrow> Some (\<lambda>w. answer info_of (v_GetSessionInfo this w)) | _ \<Rightarrow> None),
      ((ICLIENTHANDLER_IFACE, ''Disconnect''), \<lambda>args. case args of
         [Str reason] \<Rightarrow> Some (\<lambda>w. answer none_of (v_Disconnect this reason w)) | _ \<Rightarrow> None),
      ((ICLIENTHANDLER_IFACE, ''DeliverSm''), \<lambda>args. case args of
         [Str src, Str dst, Str msg] \<Rightarrow>
           Some (\<lambda>w. answer u32_of (v_DeliverSm this src dst msg w)) | _ \<Rightarrow> None)]"

definition proxy_GetSessionInfo ::
    "'w call \<Rightarrow> 'w \<Rightarrow> (call_error + string \<times> string \<times> string \<times> string \<times> u64) \<times> 'w" where
  "proxy_GetSessionInfo call w = results to_info (call ICLIENTHANDLER_IFACE ''GetSessionInfo'' [] w)"

definition proxy_Disconnect :: "'w call \<Rightarrow> string \<Rightarrow> 'w \<Rightarrow> (call_error + unit) \<times> 'w" where
  "proxy_Disconnect call reason w = results to_none (call ICLIENTHANDLER_IFACE ''Disconnect'' [Str reason] w)"

definition proxy_DeliverSm :: "'w call \<Rightarrow> string \<Rightarrow> string \<Rightarrow> string \<Rightarrow> 'w \<Rightarrow> (call_error + u32) \<times> 'w" where
  "proxy_DeliverSm call src dst msg w =
     results to_u32 (call ICLIENTHANDLER_IFACE ''DeliverSm'' [Str src, Str dst, Str msg] w)"

definition emitSessionExited :: "string \<Rightarrow> string \<Rightarrow> dbus_signal" where
  "emitSessionExited uid reason = (ICLIENTHANDLER_IFACE, ''SessionExited'', [Str uid, Str reason])"

definition IClientHandler_proxy :: "(string \<Rightarrow> string \<Rightarrow> 'w \<Rightarrow> 'w) \<Rightarrow> dbus_signal \<Rightarrow> 'w \<Rightarrow> 'w" where
  "IClientHandler_proxy onSessionExited sig w =
     (case sig of (iface, name, args) \<Rightarrow>
        if iface = ICLIENTHANDLER_IFACE \<and> name = ''SessionExited'' then
          (case args of [Str uid, Str reason] \<Rightarrow> onSessionExited uid reason w | _ \<Rightarrow> w)
        else w)"

subsection \<open>IAuth\<close>

definition IAUTH_IFACE :: string where
  "IAUTH_IFACE = ''com.telecom.smpp.IAuth''"

definition IAUTH_PATH :: string where
  "IAUTH_PATH = ''/com/telecom/smpp/auth''"

record 'w IAuth =
  v_Authenticate :: "string \<Rightarrow> string \<Rightarrow> string \<Rightarrow> string \<Rightarrow> 'w \<Rightarrow> (sdbus_error + bool \<times> u32) \<times> 'w"
  v_ReloadCredentials :: "'w \<Rightarrow> (sdbus_error + unit) \<times> 'w"

definition IAuth_adaptor :: "'w IAuth \<Rightarrow> 'w vtable" where
  "IAuth_adaptor this =
     [((IAUTH_IFACE, ''Authenticate''), \<lambda>args. case args of
         [Str uid, Str sid, Str pwd, Str ip] \<Rightarrow>
           Some (\<lambda>w. answer verdict_of (v_Authenticate this uid sid pwd ip w)) | _ \<Rightarrow> None),
      ((IAUTH_IFACE, ''ReloadCredentials''), \<lambda>args. case args of
         [] \<Rightarrow> Some (\<lambda>w. answer none_of (v_ReloadCredentials this w)) | _ \<Rightarrow> None)]"

definition proxy_Authenticate ::
    "'w call \<Rightarrow> string \<Rightarrow> string \<Rightarrow> string \<Rightarrow> string \<Rightarrow> 'w \<Rightarrow> (call_error + bool \<times> u32) \<times> 'w" where
  "proxy_Authenticate call uid sid pwd ip w =
     results to_verdict (call IAUTH_IFACE ''Authenticate'' [Str uid, Str sid, Str pwd, Str ip] w)"

definition proxy_ReloadCredentials :: "'w call \<Rightarrow> 'w \<Rightarrow> (call_error + unit) \<times> 'w" where
  "proxy_ReloadCredentials call w = results to_none (call IAUTH_IFACE ''ReloadCredentials'' [] w)"

subsection \<open>The services as implementations of the interfaces\<close>

text \<open>
  A service object is a part of the world: \<open>get\<close> reads it and \<open>put\<close> replaces it. The calls of the
  server to the client handlers act on the whole world.
\<close>

fun server_exception :: "server_error \<Rightarrow> sdbus_error" where
  "server_exception (NotFound m) = (''com.telecom.smpp.Error.NotFound'', m)"

definition SmppServerService ::
    "('w \<Rightarrow> server) \<Rightarrow> (server \<Rightarrow> 'w \<Rightarrow> 'w) \<Rightarrow>
     (string \<Rightarrow> string \<Rightarrow> string \<Rightarrow> string \<Rightarrow> 'w \<Rightarrow> u32 option \<times> 'w) \<Rightarrow>
     (string \<Rightarrow> string \<Rightarrow> 'w \<Rightarrow> 'w) \<Rightarrow> 'w IServer" where
  "SmppServerService get put deliver disconnect =
     \<lparr>v_GetSocket = (\<lambda>u w. case GetSocket u (get w) of (r, v) \<Rightarrow> (map_sum server_exception id r, put v w)),
      v_UpdateSessionDetails = (\<lambda>u sid st w. (Inr (), put (UpdateSessionDetails u sid st (get w)) w)),
      v_GetConnectionCount = (\<lambda>ip w. (Inr (GetConnectionCount ip (get w)), w)),
      v_GetAllSessions = (\<lambda>w. (Inr (GetAllSessions (get w)), w)),
      v_SetMaxConnectionsPerIp = (\<lambda>ip limit w. (Inr (), put (SetMaxConnectionsPerIp ip limit (get w)) w)),
      v_DisconnectAll = (\<lambda>ip reason w. (Inr (), DisconnectAll disconnect ip reason (get w) w)),
      v_RouteMessage = (\<lambda>src dst msg i w. case RouteMessage deliver src dst msg i (get w) w of (t, w) \<Rightarrow> (Inr t, w))\<rparr>"

fun session_exception :: "dbus_error \<Rightarrow> sdbus_error" where
  "session_exception InvalidBindState =
     (''com.telecom.smpp.Error.InvalidBindState'', ''session is not BOUND_RX or BOUND_TRX'')"

definition SmppSession_object :: "('w \<Rightarrow> session) \<Rightarrow> (session \<Rightarrow> 'w \<Rightarrow> 'w) \<Rightarrow> 'w IClientHandler" where
  "SmppSession_object get put =
     \<lparr>v_GetSessionInfo = (\<lambda>w. (Inr (GetSessionInfo (get w)), w)),
      v_Disconnect = (\<lambda>reason w. (Inr (), put (Disconnect reason (get w)) w)),
      v_DeliverSm = (\<lambda>src dst msg w. case DeliverSm src dst msg (get w) of
         (r, s) \<Rightarrow> (map_sum session_exception id r, put s w))\<rparr>"

text \<open>
  The exception of the TOML parser is not an \<open>sdbus::Error\<close>; the name that the library gives it is
  the parameter \<open>exn\<close>.
\<close>

definition AuthService ::
    "'n toml \<Rightarrow> string + 'n \<Rightarrow> string \<Rightarrow> ('w \<Rightarrow> credentials) \<Rightarrow> (credentials \<Rightarrow> 'w \<Rightarrow> 'w) \<Rightarrow> 'w IAuth" where
  "AuthService api parsed exn get put =
     \<lparr>v_Authenticate = (\<lambda>u sid pwd ip w. (Inr (Authenticate (get w) u sid pwd ip), w)),
      v_ReloadCredentials = (\<lambda>w. case ReloadCredentials api parsed (get w) of
         (Some m, c) \<Rightarrow> (Inl (exn, m), put c w) | (None, c) \<Rightarrow> (Inr (), put c w))\<rparr>"

subsection \<open>Calls written by hand\<close>

text \<open>
  A proxy of the library is a service name and an object path; \<open>bus\<close> is the connection. The callers
  catch every exception except in the main function of the client handler, which ends then.
\<close>

type_synonym 'w bus = "string \<Rightarrow> string \<Rightarrow> 'w call"

definition caught :: "(call_error + 'a) \<times> 'w \<Rightarrow> 'a option \<times> 'w" where
  "caught res = (case res of (Inl e, w) \<Rightarrow> (None, w) | (Inr x, w) \<Rightarrow> (Some x, w))"

definition main_GetSocket :: "'w bus \<Rightarrow> string \<Rightarrow> string \<Rightarrow> 'w \<Rightarrow> int option \<times> 'w" where
  "main_GetSocket bus svc uid w =
     caught (results to_fd (bus svc ISERVER_PATH ISERVER_IFACE ''GetSocket'' [Str uid] w))"

definition session_Authenticate ::
    "'w bus \<Rightarrow> string \<Rightarrow> string \<Rightarrow> string \<Rightarrow> string \<Rightarrow> string \<Rightarrow> 'w \<Rightarrow> (bool \<times> u32) option \<times> 'w" where
  "session_Authenticate bus svc uid sid pass ip w =
     caught (results to_verdict (bus svc IAUTH_PATH IAUTH_IFACE ''Authenticate'' [Str uid, Str sid, Str pass, Str ip] w))"

definition session_UpdateSessionDetails :: "'w bus \<Rightarrow> string \<Rightarrow> string \<Rightarrow> string \<Rightarrow> string \<Rightarrow> 'w \<Rightarrow> 'w" where
  "session_UpdateSessionDetails bus svc uid sid st w =
     snd (caught (results to_none
       (bus svc ISERVER_PATH ISERVER_IFACE ''UpdateSessionDetails'' [Str uid, Str sid, Str st] w)))"

definition session_RouteMessage :: "'w bus \<Rightarrow> string \<Rightarrow> string \<Rightarrow> string \<Rightarrow> string \<Rightarrow> string \<Rightarrow> 'w \<Rightarrow> 'w" where
  "session_RouteMessage bus svc src dst msg i w =
     snd (caught (results to_none
       (bus svc ISERVER_PATH ISERVER_IFACE ''RouteMessage'' [Str src, Str dst, Str msg, Str i] w)))"

definition service_Disconnect :: "'w bus \<Rightarrow> string \<Rightarrow> string \<Rightarrow> 'w \<Rightarrow> 'w" where
  "service_Disconnect bus svc reason w =
     snd (caught (results to_none
       (bus svc ICLIENTHANDLER_PATH ICLIENTHANDLER_IFACE ''Disconnect'' [Str reason] w)))"

definition service_DeliverSm :: "'w bus \<Rightarrow> string \<Rightarrow> string \<Rightarrow> string \<Rightarrow> string \<Rightarrow> 'w \<Rightarrow> u32 option \<times> 'w" where
  "service_DeliverSm bus svc src dst msg w =
     caught (results to_u32
       (bus svc ICLIENTHANDLER_PATH ICLIENTHANDLER_IFACE ''DeliverSm'' [Str src, Str dst, Str msg] w))"

subsection \<open>A library without a wire\<close>

text \<open>Calls that execute the registered method at once: an instance of the contract below.\<close>

definition direct_call :: "'w vtable \<Rightarrow> 'w call" where
  "direct_call vt iface m args w =
     (case method_of vt iface m args of
        None \<Rightarrow> (Error ''org.freedesktop.DBus.Error.UnknownMethod'' [], w)
      | Some f \<Rightarrow>
          if \<not> list_all marshallable args then (Error ''org.freedesktop.DBus.Error.InvalidArgs'' [], w)
          else
            case f w of (r, w) \<Rightarrow>
              (if reply_ok r then r else Error ''org.freedesktop.DBus.Error.InvalidArgs'' [], w))"

subsection \<open>What a caller is to observe\<close>

definition remote :: "(sdbus_error + 'a) \<times> 'w \<Rightarrow> (call_error + 'a) \<times> 'w" where
  "remote res = (case res of (Inl (n, m), w) \<Rightarrow> (Inl (Remote n m), w) | (Inr x, w) \<Rightarrow> (Inr x, w))"

definition result_ok :: "('a \<Rightarrow> dbus_value list) \<Rightarrow> sdbus_error + 'a \<Rightarrow> bool" where
  "result_ok enc r = (case r of Inl (n, m) \<Rightarrow> dbus_string m | Inr x \<Rightarrow> list_all marshallable (enc x))"

section \<open>Lemmas\<close>

subsection \<open>The contract of the library\<close>

locale dbus_object =
  fixes call :: "'w call" and vt :: "'w vtable"
  assumes effect: "method_of vt iface m args = Some f \<Longrightarrow> list_all marshallable args \<Longrightarrow>
      snd (call iface m args w) = snd (f w)"
    and reply: "method_of vt iface m args = Some f \<Longrightarrow> list_all marshallable args \<Longrightarrow>
      reply_ok (fst (f w)) \<Longrightarrow> fst (call iface m args w) = fst (f w)"
begin

lemma executes:
  assumes "method_of vt iface m args = Some f" and "list_all marshallable args" and "reply_ok (fst (f w))"
  shows "call iface m args w = f w"
  using effect [OF assms(1,2)] reply [OF assms] by (simp add: prod_eq_iff)

text \<open>A stored result is the result of the method, an exception the error it threw.\<close>

lemma stored:
  assumes "method_of vt iface m args = Some (\<lambda>w. answer enc (g w))" and "list_all marshallable args"
    and "result_ok enc (fst (g w))" and "\<And>x. dec (enc x) = Some x"
  shows "results dec (call iface m args w) = remote (g w)"
proof -
  have "reply_ok (fst (answer enc (g w)))"
    using assms(3) by (cases "g w") (auto simp: answer_def result_ok_def split: sum.splits prod.splits)
  from executes [OF assms(1,2) this] assms(4) show ?thesis
    by (cases "g w") (auto simp: answer_def results_def remote_def split: sum.split prod.split)
qed

end

interpretation direct: dbus_object "direct_call vt" vt for vt :: "'w vtable"
  by unfold_locales (auto simp: direct_call_def split: prod.split)

end
