(* ===== verification/Dbus_Services.thy ===== *)
theory Dbus_Services
  imports Dbus_Interfaces
begin

text \<open>
  The services behind their D-Bus interfaces: for every method of IServer, IClientHandler and IAuth, a
  call through the proxy does what the method of the service does, over every library that meets the
  contract \<open>dbus_object\<close>.
\<close>

section \<open>Lemmas\<close>

subsection \<open>Strings\<close>

lemma utf8_char_append: "utf8_char xs = Some r \<Longrightarrow> utf8_char (xs @ ys) = Some (r @ ys)"
proof (cases xs)
  case (Cons a bs)
  assume "utf8_char xs = Some r"
  with Cons show ?thesis by (cases bs) (auto split: if_splits)
qed simp

lemma utf8_valid_append: "utf8_valid xs \<Longrightarrow> utf8_valid ys \<Longrightarrow> utf8_valid (xs @ ys)"
proof (induction xs rule: utf8_valid.induct)
  case (1 xs)
  show ?case
  proof (cases "xs = []")
    case False
    with "1.prems" obtain r where r: "utf8_char xs = Some r" "utf8_valid r"
      by (auto simp: utf8_valid.simps [of xs] split: option.splits)
    with "1.IH" [OF r] "1.prems" utf8_char_append [OF r(1)] show ?thesis
      by (simp add: utf8_valid.simps [of "xs @ ys"])
  qed (use "1.prems" in simp)
qed

lemma utf8_valid_ascii: "list_all (\<lambda>b. b < 0x80) bs \<Longrightarrow> utf8_valid bs"
  by (induction bs) (simp_all add: utf8_valid.simps [of "_ # _"] utf8_valid.simps [of "[]"])

lemma dbus_string_append: "dbus_string s \<Longrightarrow> dbus_string t \<Longrightarrow> dbus_string (s @ t)"
  by (simp add: dbus_string_def utf8_valid_append)

lemma dbus_string_ascii: "list_all (\<lambda>c. 0 < (of_char c :: nat) \<and> of_char c < (0x80 :: nat)) s \<Longrightarrow> dbus_string s"
proof -
  assume a: "list_all (\<lambda>c. 0 < (of_char c :: nat) \<and> of_char c < (0x80 :: nat)) s"
  then have "utf8_valid (map of_char s)" by (intro utf8_valid_ascii) (auto simp: list_all_iff)
  moreover have "CHR 0x00 \<notin> set s" using a by (auto simp: list_all_iff)
  ultimately show ?thesis by (simp add: dbus_string_def)
qed

lemma dbus_string_Nil [simp]: "dbus_string []"
  by (simp add: dbus_string_ascii)

lemma not_found_string: "dbus_string u \<Longrightarrow> dbus_string (''Unknown uuid: '' @ u)"
  by (rule dbus_string_append) (simp_all add: dbus_string_ascii)

lemma state_name_string: "dbus_string (state_name st)"
  by (cases st) (simp_all add: dbus_string_ascii)

subsection \<open>The methods of the adaptors\<close>

named_theorems methods \<open>the method that a call finds\<close>

lemma IServer_methods [methods]:
  "method_of (IServer_adaptor i) ISERVER_IFACE ''GetSocket'' [Str u] = Some (\<lambda>w. answer fd_of (v_GetSocket i u w))"
  "method_of (IServer_adaptor i) ISERVER_IFACE ''UpdateSessionDetails'' [Str u, Str sid, Str st] =
     Some (\<lambda>w. answer none_of (v_UpdateSessionDetails i u sid st w))"
  "method_of (IServer_adaptor i) ISERVER_IFACE ''GetConnectionCount'' [Str ip] =
     Some (\<lambda>w. answer u32_of (v_GetConnectionCount i ip w))"
  "method_of (IServer_adaptor i) ISERVER_IFACE ''GetAllSessions'' [] = Some (\<lambda>w. answer rows_of (v_GetAllSessions i w))"
  "method_of (IServer_adaptor i) ISERVER_IFACE ''SetMaxConnectionsPerIp'' [Str ip, U32 n] =
     Some (\<lambda>w. answer none_of (v_SetMaxConnectionsPerIp i ip n w))"
  "method_of (IServer_adaptor i) ISERVER_IFACE ''DisconnectAll'' [Str ip, Str reason] =
     Some (\<lambda>w. answer none_of (v_DisconnectAll i ip reason w))"
  "method_of (IServer_adaptor i) ISERVER_IFACE ''RouteMessage'' [Str src, Str dst, Str msg, Str mid] =
     Some (\<lambda>w. answer str_of (v_RouteMessage i src dst msg mid w))"
  by (simp_all add: method_of_def IServer_adaptor_def)

lemma IClientHandler_methods [methods]:
  "method_of (IClientHandler_adaptor i) ICLIENTHANDLER_IFACE ''GetSessionInfo'' [] =
     Some (\<lambda>w. answer info_of (v_GetSessionInfo i w))"
  "method_of (IClientHandler_adaptor i) ICLIENTHANDLER_IFACE ''Disconnect'' [Str reason] =
     Some (\<lambda>w. answer none_of (v_Disconnect i reason w))"
  "method_of (IClientHandler_adaptor i) ICLIENTHANDLER_IFACE ''DeliverSm'' [Str src, Str dst, Str msg] =
     Some (\<lambda>w. answer u32_of (v_DeliverSm i src dst msg w))"
  by (simp_all add: method_of_def IClientHandler_adaptor_def)

lemma IAuth_methods [methods]:
  "method_of (IAuth_adaptor i) IAUTH_IFACE ''Authenticate'' [Str u, Str sid, Str pwd, Str ip] =
     Some (\<lambda>w. answer verdict_of (v_Authenticate i u sid pwd ip w))"
  "method_of (IAuth_adaptor i) IAUTH_IFACE ''ReloadCredentials'' [] = Some (\<lambda>w. answer none_of (v_ReloadCredentials i w))"
  by (simp_all add: method_of_def IAuth_adaptor_def)

lemma decoders [simp]:
  "to_fd (fd_of f) = Some f" "to_u32 (u32_of n) = Some n" "to_str (str_of t) = Some t"
  "to_rows (rows_of rs) = Some rs" "to_none (none_of u) = Some u" "to_verdict (verdict_of v) = Some v"
  "to_info (info_of x) = Some x"
  by (simp_all, cases v, simp, cases x, simp)

lemma verdict_marshallable [simp]: "list_all marshallable (verdict_of v)"
  by (cases v) simp

lemma route_target_key: "route_target v \<in> insert [] (fst ` set (svc_sessions v))"
proof (cases "List.find (\<lambda>(uuid, info). is_receiver info) (svc_sessions v)")
  case (Some kv)
  then have "kv \<in> set (svc_sessions v)" by (metis find_Some_iff nth_mem)
  with Some show ?thesis by (cases kv) (force simp: route_target_def)
qed (simp add: route_target_def)

lemma RouteMessage_result:
  "fst (RouteMessage deliver src dst msg i v w) \<in> insert [] (fst ` set (svc_sessions v))"
  using route_target_key [of v] by (auto simp: RouteMessage_def Let_def split: option.split prod.split)

subsection \<open>The methods of the services, called through their proxies\<close>

locale server_object = dbus_object call "IServer_adaptor (SmppServerService get put deliver disconnect)"
  for call :: "'w call" and get put deliver disconnect
begin

lemma GetSocket_call:
  assumes "dbus_string u"
  shows "proxy_GetSocket call u w = (case GetSocket u (get w) of
        (Inl (NotFound m), v) \<Rightarrow> (Inl (Remote ''com.telecom.smpp.Error.NotFound'' m), put v w)
      | (Inr f, v) \<Rightarrow> (Inr f, put v w))"
  unfolding proxy_GetSocket_def
  by (subst stored [OF IServer_methods(1)])
    (use assms not_found_string [OF assms] in
      \<open>auto simp: SmppServerService_def result_ok_def remote_def GetSocket_eq split: option.split\<close>)

lemma UpdateSessionDetails_call:
  assumes "dbus_string u" and "dbus_string sid" and "dbus_string st"
  shows "proxy_UpdateSessionDetails call u sid st w = (Inr (), put (UpdateSessionDetails u sid st (get w)) w)"
  unfolding proxy_UpdateSessionDetails_def
  by (subst stored [OF IServer_methods(2)]) (use assms in \<open>auto simp: SmppServerService_def result_ok_def remote_def\<close>)

lemma GetConnectionCount_call:
  "dbus_string ip \<Longrightarrow> proxy_GetConnectionCount call ip w = (Inr (GetConnectionCount ip (get w)), w)"
  unfolding proxy_GetConnectionCount_def
  by (subst stored [OF IServer_methods(3)]) (auto simp: SmppServerService_def result_ok_def remote_def)

lemma GetAllSessions_call:
  "marshallable (Struct_array (GetAllSessions (get w))) \<Longrightarrow>
    proxy_GetAllSessions call w = (Inr (GetAllSessions (get w)), w)"
  unfolding proxy_GetAllSessions_def
  by (subst stored [OF IServer_methods(4)]) (auto simp: SmppServerService_def result_ok_def remote_def)

lemma SetMaxConnectionsPerIp_call:
  "dbus_string ip \<Longrightarrow>
    proxy_SetMaxConnectionsPerIp call ip n w = (Inr (), put (SetMaxConnectionsPerIp ip n (get w)) w)"
  unfolding proxy_SetMaxConnectionsPerIp_def
  by (subst stored [OF IServer_methods(5)]) (auto simp: SmppServerService_def result_ok_def remote_def)

lemma DisconnectAll_call:
  "dbus_string ip \<Longrightarrow> dbus_string reason \<Longrightarrow>
    proxy_DisconnectAll call ip reason w = (Inr (), DisconnectAll disconnect ip reason (get w) w)"
  unfolding proxy_DisconnectAll_def
  by (subst stored [OF IServer_methods(6)]) (auto simp: SmppServerService_def result_ok_def remote_def)

lemma RouteMessage_call:
  assumes "list_all dbus_string [src, dst, msg, i]" and "marshallable (Struct_array (GetAllSessions (get w)))"
  shows "proxy_RouteMessage call src dst msg i w =
    (case RouteMessage deliver src dst msg i (get w) w of (t, w) \<Rightarrow> (Inr t, w))"
proof -
  have "dbus_string (fst (RouteMessage deliver src dst msg i (get w) w))"
    using assms(2) RouteMessage_result [of deliver src dst msg i "get w" w]
    by (fastforce simp: GetAllSessions_def list_all_iff)
  then show ?thesis
    unfolding proxy_RouteMessage_def
    by (subst stored [OF IServer_methods(7)])
      (use assms(1) in \<open>auto simp: SmppServerService_def result_ok_def remote_def split: prod.split\<close>)
qed

end

interpretation local_server: server_object
  "direct_call (IServer_adaptor (SmppServerService get put deliver disconnect))" get put deliver disconnect
  for get :: "'w \<Rightarrow> server" and put deliver disconnect
  by unfold_locales

section \<open>Properties\<close>

text \<open>
  C16: the generated proxy of IServer and the generated adaptor fit together. Over any library that
  executes a call on the registered method of its name and argument types, each proxy method called
  with valid strings does to the server exactly what the method of SmppServerService does, and
  returns its result; the one exception, an unknown session id, arrives with its name and message.
\<close>

theorem server_proxy_calls_service:
  assumes "dbus_object call (IServer_adaptor (SmppServerService get put deliver disconnect))"
    and "list_all dbus_string [u, sid, st, ip, reason, src, dst, msg, i]"
    and "marshallable (Struct_array (GetAllSessions (get w)))"
  shows "proxy_GetSocket call u w = (case GetSocket u (get w) of
        (Inl (NotFound m), v) \<Rightarrow> (Inl (Remote ''com.telecom.smpp.Error.NotFound'' m), put v w)
      | (Inr f, v) \<Rightarrow> (Inr f, put v w))
    \<and> proxy_UpdateSessionDetails call u sid st w = (Inr (), put (UpdateSessionDetails u sid st (get w)) w)
    \<and> proxy_GetConnectionCount call ip w = (Inr (GetConnectionCount ip (get w)), w)
    \<and> proxy_GetAllSessions call w = (Inr (GetAllSessions (get w)), w)
    \<and> proxy_SetMaxConnectionsPerIp call ip n w = (Inr (), put (SetMaxConnectionsPerIp ip n (get w)) w)
    \<and> proxy_DisconnectAll call ip reason w = (Inr (), DisconnectAll disconnect ip reason (get w) w)
    \<and> proxy_RouteMessage call src dst msg i w =
      (case RouteMessage deliver src dst msg i (get w) w of (t, w) \<Rightarrow> (Inr t, w))"
proof -
  have obj: "server_object call get put deliver disconnect" using assms(1) by (rule server_object.intro)
  have strings: "dbus_string u" "dbus_string sid" "dbus_string st" "dbus_string ip" "dbus_string reason"
      "list_all dbus_string [src, dst, msg, i]"
    using assms(2) by simp_all
  show ?thesis
    by (intro conjI server_object.GetSocket_call [OF obj] server_object.UpdateSessionDetails_call [OF obj]
        server_object.GetConnectionCount_call [OF obj] server_object.GetAllSessions_call [OF obj]
        server_object.SetMaxConnectionsPerIp_call [OF obj] server_object.DisconnectAll_call [OF obj]
        server_object.RouteMessage_call [OF obj] strings assms(3))
qed

theorem server_proxy_calls_service_witness:
  "fst (proxy_GetSocket (direct_call (IServer_adaptor (SmppServerService id (\<lambda>v w. v) (\<lambda>s a b m w. (None, w)) (\<lambda>s r w. w))))
     ''a'' (register_session ''a'' 7 ''10.0.0.1'' (new_server 5))) = Inr 7"
proof -
  let ?w = "register_session ''a'' 7 ''10.0.0.1'' (new_server 5)"
  have w: "GetAllSessions ?w = [(''a'', ''10.0.0.1'', [], ''OPEN'')]" "pending_fd (conn_registry ?w) ''a'' = Some 7"
    by (simp_all add: GetAllSessions_def register_session_eq new_server_def new_registry_def add_eq count_def pending_fd_def)
  have "list_all dbus_string [''a'', [], [], [], [], [], [], [], []]"
    and "marshallable (Struct_array (GetAllSessions (id ?w)))"
    by (simp_all add: w dbus_string_ascii)
  from server_proxy_calls_service [where get = id and put = "\<lambda>v w. v" and deliver = "\<lambda>s a b m w. (None, w)"
      and disconnect = "\<lambda>s r w. w", OF direct.dbus_object_axioms this] w(2)
  show ?thesis
    by (simp add: GetSocket_eq)
qed

text \<open>
  The same for IClientHandler and the session of a client handler process: Disconnect and
  DeliverSm called through the proxy act on the session as its methods do, GetSessionInfo returns
  its answer, and a DeliverSm that the bind state forbids arrives as its exception.
\<close>

theorem client_proxy_calls_session:
  assumes "dbus_object call (IClientHandler_adaptor (SmppSession_object get put))"
    and "list_all dbus_string [reason, src, dst, msg, uuid (get w), client_ip (get w), system_id (get w)]"
  shows "proxy_GetSessionInfo call w = (Inr (GetSessionInfo (get w)), w)
    \<and> proxy_Disconnect call reason w = (Inr (), put (Disconnect reason (get w)) w)
    \<and> proxy_DeliverSm call src dst msg w = (case DeliverSm src dst msg (get w) of
        (Inl err, s) \<Rightarrow> (Inl (Remote ''com.telecom.smpp.Error.InvalidBindState''
            ''session is not BOUND_RX or BOUND_TRX''), put s w)
      | (Inr seq, s) \<Rightarrow> (Inr seq, put s w))"
proof -
  note stored = dbus_object.stored [OF assms(1)]
  have "proxy_GetSessionInfo call w = (Inr (GetSessionInfo (get w)), w)"
    unfolding proxy_GetSessionInfo_def
    by (subst stored [OF IClientHandler_methods(1)]) (use assms(2) in \<open>auto simp: SmppSession_object_def
        result_ok_def remote_def GetSessionInfo_def state_name_string\<close>)
  moreover have "proxy_Disconnect call reason w = (Inr (), put (Disconnect reason (get w)) w)"
    unfolding proxy_Disconnect_def
    by (subst stored [OF IClientHandler_methods(2)]) (use assms(2) in \<open>auto simp: SmppSession_object_def
        result_ok_def remote_def\<close>)
  moreover have "proxy_DeliverSm call src dst msg w = (case DeliverSm src dst msg (get w) of
        (Inl err, s) \<Rightarrow> (Inl (Remote ''com.telecom.smpp.Error.InvalidBindState''
            ''session is not BOUND_RX or BOUND_TRX''), put s w)
      | (Inr seq, s) \<Rightarrow> (Inr seq, put s w))"
    unfolding proxy_DeliverSm_def
    by (subst stored [OF IClientHandler_methods(3)]) (use assms(2) in \<open>auto simp: SmppSession_object_def
        DeliverSm_def deliver_check_def result_ok_def remote_def dbus_string_ascii split: prod.split\<close>)
  ultimately show ?thesis by blast
qed

theorem client_proxy_calls_session_witness:
  "fst (proxy_DeliverSm (direct_call (IClientHandler_adaptor (SmppSession_object id (\<lambda>v w. v)))) ''1'' ''2'' ''hi''
     (new_session ''a'' ''10.0.0.1'' 60 10 0 0)) =
   Inl (Remote ''com.telecom.smpp.Error.InvalidBindState'' ''session is not BOUND_RX or BOUND_TRX'')"
proof -
  let ?w = "new_session ''a'' ''10.0.0.1'' 60 10 0 0"
  have "list_all dbus_string [[], ''1'', ''2'', ''hi'', uuid (id ?w), client_ip (id ?w), system_id (id ?w)]"
    by (simp add: dbus_string_ascii new_session_def)
  from client_proxy_calls_session [where get = id and put = "\<lambda>v w. v", OF direct.dbus_object_axioms this]
  show ?thesis by (simp add: DeliverSm_def deliver_check_def new_session_def)
qed

text \<open>
  The same for IAuth: an Authenticate call returns the verdict of the credentials, a reload that
  fails arrives as an exception and leaves them.
\<close>

theorem auth_proxy_calls_service:
  assumes "dbus_object call (IAuth_adaptor (AuthService api parsed exn get put))"
    and "list_all dbus_string [u, sid, pwd, ip]" and "\<And>m. parsed = Inl m \<Longrightarrow> dbus_string m"
  shows "proxy_Authenticate call u sid pwd ip w = (Inr (Authenticate (get w) u sid pwd ip), w)
    \<and> proxy_ReloadCredentials call w = (case ReloadCredentials api parsed (get w) of
        (Some m, c) \<Rightarrow> (Inl (Remote exn m), put c w) | (None, c) \<Rightarrow> (Inr (), put c w))"
proof -
  note stored = dbus_object.stored [OF assms(1)]
  have "proxy_Authenticate call u sid pwd ip w = (Inr (Authenticate (get w) u sid pwd ip), w)"
    unfolding proxy_Authenticate_def
    by (subst stored [OF IAuth_methods(1)]) (use assms(2) in \<open>auto simp: AuthService_def result_ok_def remote_def
        split: prod.split\<close>)
  moreover have "proxy_ReloadCredentials call w = (case ReloadCredentials api parsed (get w) of
        (Some m, c) \<Rightarrow> (Inl (Remote exn m), put c w) | (None, c) \<Rightarrow> (Inr (), put c w))"
    unfolding proxy_ReloadCredentials_def
    by (subst stored [OF IAuth_methods(2)]) (use assms(3) in \<open>auto simp: AuthService_def result_ok_def remote_def
        ReloadCredentials_def store_reload_def store_load_def split: sum.split\<close>)
  ultimately show ?thesis by blast
qed

text \<open>A proxy passes the arguments of a signal to its handler and takes no other signal.\<close>

theorem signals_arrive:
  "IServer_proxy h (emitSessionStarted u ip) w = h u ip w"
  "IClientHandler_proxy h (emitSessionExited u reason) w = h u reason w"
  "IServer_proxy h (emitSessionExited u reason) w = w"
  "IClientHandler_proxy h (emitSessionStarted u ip) w = w"
  by (simp_all add: IServer_proxy_def IClientHandler_proxy_def emitSessionStarted_def emitSessionExited_def
      ISERVER_IFACE_def ICLIENTHANDLER_IFACE_def)

end
