(* ===== verification/Bus_Composition.thy ===== *)
theory Bus_Composition
  imports System_Composition Handler_Startup Dbus_Services
begin

text \<open>
  The composed system over D-Bus. The three programs export their objects on one bus: the server and the
  authenticator under fixed names, each client handler under the name of its session. System_Composition
  executes the calls of a session directly on the other components; here the calls are those of the
  source, with service names, object paths, interfaces and packed arguments, and the bus is a
  parameter with the laws of the locale \<open>system_bus\<close>. Both agree on every call whose strings are
  valid.
\<close>

section \<open>Definitions\<close>

text \<open>The default argument of the constructor of SmppSession.\<close>

definition AUTH_SVC :: string where
  "AUTH_SVC = ''com.telecom.smpp.Auth''"

definition server_vtable :: "system bus \<Rightarrow> system vtable" where
  "server_vtable bus =
     IServer_adaptor (SmppServerService srv (\<lambda>v y. y\<lparr>srv := v\<rparr>) (service_DeliverSm bus) (service_Disconnect bus))"

definition client_vtable :: "string \<Rightarrow> session \<Rightarrow> system vtable" where
  "client_vtable u s =
     IClientHandler_adaptor (SmppSession_object (\<lambda>y. s) (\<lambda>t y. y\<lparr>clients := (clients y)(u \<mapsto> t)\<rparr>))"

definition auth_vtable :: "'n toml \<Rightarrow> string + 'n \<Rightarrow> string \<Rightarrow> system vtable" where
  "auth_vtable api parsed exn = IAuth_adaptor (AuthService api parsed exn creds (\<lambda>c y. y\<lparr>creds := c\<rparr>))"

text \<open>The calls of a session in the log, made over the bus.\<close>

fun bus_perform :: "system bus \<Rightarrow> action \<Rightarrow> system \<Rightarrow> system" where
  "bus_perform bus (CallUpdateSessionDetails u i st) y = session_UpdateSessionDetails bus SERVICE_NAME u i st y"
| "bus_perform bus (CallRouteMessage src dst msg i) y = session_RouteMessage bus SERVICE_NAME src dst msg i y"
| "bus_perform bus _ y = y"

fun call_strings :: "action \<Rightarrow> string list" where
  "call_strings (CallUpdateSessionDetails u i st) = [u, i, st]"
| "call_strings (CallRouteMessage src dst msg i) = [src, dst, msg, i]"
| "call_strings _ = []"

text \<open>Disconnect of one handler, as the composed model executes it.\<close>

definition call_Disconnect :: "string \<Rightarrow> string \<Rightarrow> (string \<rightharpoonup> session) \<Rightarrow> (string \<rightharpoonup> session)" where
  "call_Disconnect svc reason w =
     (let u = drop (length (client_service [])) svc
      in case w u of None \<Rightarrow> w | Some s \<Rightarrow> w(u \<mapsto> Disconnect reason s))"

text \<open>A bus inside one process: an instance of the laws below.\<close>

definition client_bus :: "system bus" where
  "client_bus svc path iface m args y =
     (case clients y (drop (length (client_service [])) svc) of
        None \<Rightarrow> (Error ''org.freedesktop.DBus.Error.ServiceUnknown'' [], y)
      | Some s \<Rightarrow> direct_call (client_vtable (drop (length (client_service [])) svc) s) iface m args y)"

definition local_bus :: "'n toml \<Rightarrow> string + 'n \<Rightarrow> string \<Rightarrow> system bus" where
  "local_bus api parsed exn svc path iface m args y =
     (if svc = SERVICE_NAME then direct_call (server_vtable client_bus) iface m args y
      else if svc = AUTH_SVC then direct_call (auth_vtable api parsed exn) iface m args y
      else client_bus svc path iface m args y)"

section \<open>Lemmas\<close>

lemma snd_caught [simp]: "snd (caught (results dec r)) = snd r"
  by (cases r) (auto simp: caught_def results_def split: reply.split option.split)

lemma snd_answer [simp]: "snd (answer enc r) = snd r"
  by (cases r) (auto simp: answer_def split: sum.split)

locale system_bus =
  fixes bus :: "system bus" and api :: "'n toml" and parsed :: "string + 'n" and exn :: string
  assumes server: "dbus_object (bus SERVICE_NAME ISERVER_PATH) (server_vtable bus)"
    and auth: "dbus_object (bus AUTH_SVC IAUTH_PATH) (auth_vtable api parsed exn)"
    and client_effect: "clients y u = Some s \<Longrightarrow> method_of (client_vtable u s) iface m args = Some f \<Longrightarrow>
      list_all marshallable args \<Longrightarrow>
      snd (bus (client_service u) ICLIENTHANDLER_PATH iface m args y) = snd (f y)"
    and client_reply: "clients y u = Some s \<Longrightarrow> method_of (client_vtable u s) iface m args = Some f \<Longrightarrow>
      list_all marshallable args \<Longrightarrow> reply_ok (fst (f y)) \<Longrightarrow>
      fst (bus (client_service u) ICLIENTHANDLER_PATH iface m args y) = fst (f y)"
    and no_client: "clients y u = None \<Longrightarrow>
      \<exists>n t. bus (client_service u) ICLIENTHANDLER_PATH iface m args y = (Error n t, y)"
begin

lemma DeliverSm_on_bus:
  assumes "list_all dbus_string [src, dst, msg]"
  shows "service_DeliverSm bus (client_service u) src dst msg y =
    (case call_DeliverSm (client_service u) src dst msg (clients y) of (r, w) \<Rightarrow> (r, y\<lparr>clients := w\<rparr>))"
proof (cases "clients y u")
  case None
  from no_client [OF this, of ICLIENTHANDLER_IFACE "''DeliverSm''" "[Str src, Str dst, Str msg]"] None show ?thesis
    by (auto simp: service_DeliverSm_def results_def caught_def call_DeliverSm_def)
next
  case (Some s)
  let ?o = "SmppSession_object (\<lambda>y. s) (\<lambda>t y. y\<lparr>clients := (clients y)(u \<mapsto> t)\<rparr>) :: system IClientHandler"
  let ?f = "\<lambda>y. answer u32_of (v_DeliverSm ?o src dst msg y)"
  have m: "method_of (client_vtable u s) ICLIENTHANDLER_IFACE ''DeliverSm'' [Str src, Str dst, Str msg] = Some ?f"
    by (simp add: client_vtable_def IClientHandler_methods)
  have args: "list_all marshallable [Str src, Str dst, Str msg]" using assms by simp
  have "reply_ok (fst (?f y))"
    by (auto simp: SmppSession_object_def answer_def DeliverSm_def deliver_check_def dbus_string_ascii split: prod.split)
  then have "bus (client_service u) ICLIENTHANDLER_PATH ICLIENTHANDLER_IFACE ''DeliverSm'' [Str src, Str dst, Str msg] y = ?f y"
    using client_effect [OF Some m args] client_reply [OF Some m args] by (simp add: prod_eq_iff)
  then show ?thesis
    by (cases rule: DeliverSm_cases [of s src dst msg])
      (simp_all add: service_DeliverSm_def results_def caught_def call_DeliverSm_def Some
        SmppSession_object_def answer_def)
qed

lemma Disconnect_on_bus:
  assumes "dbus_string reason"
  shows "service_Disconnect bus (client_service u) reason y =
    y\<lparr>clients := call_Disconnect (client_service u) reason (clients y)\<rparr>"
proof (cases "clients y u")
  case None
  from no_client [OF this, of ICLIENTHANDLER_IFACE "''Disconnect''" "[Str reason]"] None show ?thesis
    by (auto simp: service_Disconnect_def results_def caught_def call_Disconnect_def)
next
  case (Some s)
  have "method_of (client_vtable u s) ICLIENTHANDLER_IFACE ''Disconnect'' [Str reason] =
      Some (\<lambda>y. answer none_of (v_Disconnect (SmppSession_object (\<lambda>y. s) (\<lambda>t y. y\<lparr>clients := (clients y)(u \<mapsto> t)\<rparr>)) reason y))"
    by (simp add: client_vtable_def IClientHandler_methods)
  from client_effect [OF Some this] assms show ?thesis
    by (simp add: service_Disconnect_def call_Disconnect_def Some SmppSession_object_def)
qed

lemma RouteMessage_on_bus:
  assumes "list_all dbus_string [src, dst, msg]"
  shows "snd (RouteMessage (service_DeliverSm bus) src dst msg i v y) =
    y\<lparr>clients := snd (RouteMessage call_DeliverSm src dst msg i v (clients y))\<rparr>"
  by (simp add: RouteMessage_snd DeliverSm_on_bus [OF assms] split: prod.split)

lemma DisconnectAll_on_bus:
  assumes "dbus_string reason"
  shows "DisconnectAll (service_Disconnect bus) ip reason v y =
    y\<lparr>clients := DisconnectAll call_Disconnect ip reason v (clients y)\<rparr>"
proof -
  have "fold (\<lambda>u. service_Disconnect bus (client_service u) reason) us y =
      y\<lparr>clients := fold (\<lambda>u. call_Disconnect (client_service u) reason) us (clients y)\<rparr>" for us
    by (induction us arbitrary: y) (simp_all add: Disconnect_on_bus [OF assms])
  then show ?thesis by (simp add: DisconnectAll_def)
qed

lemma perform_on_bus:
  assumes "list_all dbus_string (call_strings a)"
  shows "bus_perform bus a y = perform a y"
  using assms
proof (cases a)
  case (CallUpdateSessionDetails u i st)
  with assms show ?thesis
    using dbus_object.effect [OF server, of ISERVER_IFACE "''UpdateSessionDetails''" "[Str u, Str i, Str st]" _ y]
    by (simp add: session_UpdateSessionDetails_def server_vtable_def IServer_methods SmppServerService_def)
next
  case (CallRouteMessage src dst msg i)
  with assms show ?thesis
    using dbus_object.effect [OF server, of ISERVER_IFACE "''RouteMessage''" "[Str src, Str dst, Str msg, Str i]" _ y]
      RouteMessage_on_bus [of src dst msg i "srv y" y]
    by (simp add: session_RouteMessage_def server_vtable_def IServer_methods SmppServerService_def split: prod.splits)
qed simp_all

lemma Authenticate_on_bus:
  assumes "list_all dbus_string [u, sid, pass, ip]"
  shows "session_Authenticate bus AUTH_SVC u sid pass ip y = (authenticate (client_env (creds y) e) u sid pass ip, y)"
  unfolding session_Authenticate_def
  by (subst dbus_object.stored [OF auth [unfolded auth_vtable_def] IAuth_methods(1)])
    (use assms in \<open>auto simp: AuthService_def result_ok_def remote_def caught_def client_env_def\<close>)

lemma GetSocket_on_bus:
  assumes "dbus_string u"
  shows "main_GetSocket bus SERVICE_NAME u y = (case call_GetSocket SERVICE_NAME u (srv y) of (f, v) \<Rightarrow> (f, y\<lparr>srv := v\<rparr>))"
proof -
  have obj: "server_object (bus SERVICE_NAME ISERVER_PATH) srv (\<lambda>v y. y\<lparr>srv := v\<rparr>)
      (service_DeliverSm bus) (service_Disconnect bus)"
    using server unfolding server_vtable_def by (rule server_object.intro)
  from server_object.GetSocket_call [OF obj assms, of y] show ?thesis
    by (simp add: main_GetSocket_def proxy_GetSocket_def call_GetSocket_def caught_def GetSocket_eq split: option.split)
qed

end

subsection \<open>The bus inside one process\<close>

lemma client_names: "client_service u \<noteq> SERVICE_NAME" "client_service u \<noteq> AUTH_SVC"
  by (simp_all add: client_service_def SERVICE_NAME_def AUTH_SVC_def)

lemma local_bus_client: "local_bus api parsed exn (client_service u) = client_bus (client_service u)"
  by (intro ext) (simp add: local_bus_def client_names)

lemma RouteMessage_cong:
  "(\<And>u. d (client_service u) = d' (client_service u)) \<Longrightarrow>
    RouteMessage d src dst msg i v w = RouteMessage d' src dst msg i v w"
  by (simp add: RouteMessage_def Let_def)

lemma DisconnectAll_cong:
  "(\<And>u. d (client_service u) = d' (client_service u)) \<Longrightarrow> DisconnectAll d ip reason v w = DisconnectAll d' ip reason v w"
  by (simp add: DisconnectAll_def)

lemma server_vtable_local: "server_vtable (local_bus api parsed exn) = server_vtable client_bus"
proof -
  let ?b = "local_bus api parsed exn"
  have "service_DeliverSm ?b (client_service u) = service_DeliverSm client_bus (client_service u)" for u
    by (intro ext) (simp add: service_DeliverSm_def local_bus_client)
  then have "RouteMessage (service_DeliverSm ?b) src dst msg i v w = RouteMessage (service_DeliverSm client_bus) src dst msg i v w"
    for src dst msg i v w
    by (rule RouteMessage_cong)
  moreover have "service_Disconnect ?b (client_service u) = service_Disconnect client_bus (client_service u)" for u
    by (intro ext) (simp add: service_Disconnect_def local_bus_client)
  then have "DisconnectAll (service_Disconnect ?b) ip reason v w = DisconnectAll (service_Disconnect client_bus) ip reason v w"
    for ip reason v w
    by (rule DisconnectAll_cong)
  ultimately show ?thesis by (simp add: server_vtable_def SmppServerService_def)
qed

interpretation in_process: system_bus "local_bus api parsed exn" api parsed exn for api parsed exn
proof (rule system_bus.intro)
  have "local_bus api parsed exn SERVICE_NAME ISERVER_PATH = direct_call (server_vtable client_bus)"
    by (intro ext) (simp add: local_bus_def)
  then show "dbus_object (local_bus api parsed exn SERVICE_NAME ISERVER_PATH) (server_vtable (local_bus api parsed exn))"
    using direct.dbus_object_axioms by (simp add: server_vtable_local)
  have "local_bus api parsed exn AUTH_SVC IAUTH_PATH = direct_call (auth_vtable api parsed exn)"
    by (intro ext) (simp add: local_bus_def AUTH_SVC_def SERVICE_NAME_def)
  then show "dbus_object (local_bus api parsed exn AUTH_SVC IAUTH_PATH) (auth_vtable api parsed exn)"
    using direct.dbus_object_axioms by simp
qed (simp_all add: local_bus_client client_bus_def direct.effect direct.reply)

section \<open>Properties\<close>

text \<open>
  C5: the composed model is what the programs do over the bus. For every bus that executes a call on
  the object and method it names, and every call whose strings are valid: the calls that a session logs
  have over the bus the effect that the composed system gives them, RouteMessage with its nested
  DeliverSm included; a login gets the verdict of the credentials of the authenticator; the
  GetSocket of a starting handler claims its socket from the server; and DisconnectAll posts a
  disconnect at the listed sessions of the address.
\<close>

theorem bus_executes_calls:
  assumes "system_bus bus api parsed exn"
    and "list_all dbus_string (call_strings a)" and "list_all dbus_string [u, sid, pass, ip, reason]"
  shows "bus_perform bus a y = perform a y
    \<and> session_Authenticate bus AUTH_SVC u sid pass ip y = (authenticate (client_env (creds y) e) u sid pass ip, y)
    \<and> main_GetSocket bus SERVICE_NAME u y = (case call_GetSocket SERVICE_NAME u (srv y) of (f, v) \<Rightarrow> (f, y\<lparr>srv := v\<rparr>))
    \<and> DisconnectAll (service_Disconnect bus) ip reason (srv y) y =
      y\<lparr>clients := DisconnectAll call_Disconnect ip reason (srv y) (clients y)\<rparr>"
  using assms(3) by (simp add: system_bus.perform_on_bus [OF assms(1,2)] system_bus.Authenticate_on_bus [OF assms(1)]
      system_bus.GetSocket_on_bus [OF assms(1)] system_bus.DisconnectAll_on_bus [OF assms(1)])

theorem bus_executes_calls_witness:
  "\<exists>t. clients (bus_perform (local_bus doc_toml (Inl []) []) (CallRouteMessage ''1'' ''2'' ''hi'' ''id'') example_system) ''rx'' = Some t
    \<and> sent_pdus (out t) = sent_pdus (out example_bound) @ [make_deliver_sm (deliver_seq example_bound) ''1'' ''2'' ''hi'' 0 0 0 0]"
proof -
  have "list_all dbus_string (call_strings (CallRouteMessage ''1'' ''2'' ''hi'' ''id''))"
    and "list_all dbus_string [[], [], [], [], []]"
    by (simp_all add: dbus_string_ascii)
  from bus_executes_calls [OF in_process.system_bus_axioms this, of doc_toml "Inl []" "[]" example_system]
  have "bus_perform (local_bus doc_toml (Inl []) []) (CallRouteMessage ''1'' ''2'' ''hi'' ''id'') example_system =
      perform (CallRouteMessage ''1'' ''2'' ''hi'' ''id'') example_system"
    by blast
  moreover have "route_target (srv example_system) = ''rx''" "clients example_system ''rx'' = Some example_bound"
    by (simp_all add: example_system_def route_target_def is_receiver_def)
  ultimately show ?thesis
    using route_live [of "srv example_system" "''rx''" "clients example_system" example_bound "''1''" "''2''" "''hi''" "''id''"]
    by (simp add: example_bound_fields)
qed

text \<open>
  A message text that is not UTF-8 is lost although its submit_sm was accepted. Over a bus that does not
  transmit such a string, the RouteMessage that follows the positive answer changes nothing: no
  receiver is written to, and the sender is not told.
\<close>

theorem binary_text_is_lost:
  assumes rejected: "\<And>svc path iface m args y s. Str s \<in> set args \<Longrightarrow> \<not> utf8_valid (map of_char s) \<Longrightarrow> CHR 0x00 \<notin> set s \<Longrightarrow>
      \<exists>n t. bus svc path iface m args y = (Error n t, y)"
    and "state s = BOUND_TX \<or> state s = BOUND_TRX" and "throttle_check (steady_now e) s = (True, s')"
    and "socket_open s" and "parse_submit_sm body = sm"
    and "CHR 0x00 \<notin> set (short_message sm)" and "\<not> utf8_valid (map of_char (short_message sm))"
  shows "\<exists>i. out (handle_submit_sm e hdr body s) = out s
      @ [AsyncWrite (make_response SUBMIT_SM_RESP ESME_ROK (sequence_number hdr) i),
         CallRouteMessage (src_addr sm) (dst_addr sm) (short_message sm) i]
    \<and> bus_perform bus (CallRouteMessage (src_addr sm) (dst_addr sm) (short_message sm) i) y = y"
proof -
  let ?i = "message_id (msg_id_prefix s) (msg_seq s + 1)"
  obtain t k where "s' = s\<lparr>tb_last_refill := t, tb_tokens := k\<rparr>"
    using throttle_check_sessionD [OF assms(3)] by blast
  then have "out (handle_submit_sm e hdr body s) = out s
      @ [AsyncWrite (make_response SUBMIT_SM_RESP ESME_ROK (sequence_number hdr) ?i),
         CallRouteMessage (src_addr sm) (dst_addr sm) (short_message sm) ?i]"
    using submit_accepted [OF assms(2,3), of hdr body] assms(4,5) by (simp add: send_pdu_def emit_def)
  moreover have "bus_perform bus (CallRouteMessage (src_addr sm) (dst_addr sm) (short_message sm) ?i) y = y"
    using rejected [of "short_message sm" "[Str (src_addr sm), Str (dst_addr sm), Str (short_message sm), Str ?i]"
        SERVICE_NAME ISERVER_PATH ISERVER_IFACE "''RouteMessage''" y] assms(6,7)
    by (auto simp: session_RouteMessage_def)
  ultimately show ?thesis by blast
qed

end
