(* ===== verification/Handler_Process.thy ===== *)
theory Handler_Process
  imports Handler_Startup
begin

text \<open>
  The rest of the main function of a client handler (SmppClientHandler/src/main.cpp): the io context
  runs the session until it is stopped or has no work left, then the D-Bus loop is left and the process
  exits. The wait of the signal set is work of the io context like the reads, writes and timers of the
  session. Whether a buffer can be allocated is a parameter; an exception that leaves the io context
  destroys the joinable D-Bus thread and ends the process by \<open>std::terminate\<close>.
\<close>

section \<open>Definitions\<close>

datatype main_phase = In_run | Leaving | Exited | Aborted

record handler_process =
  sess :: session
  sig_wait :: bool
  io_stopped :: bool
  main_at :: main_phase

definition handler_run :: "session \<Rightarrow> handler_process" where
  "handler_run s = \<lparr>sess = s, sig_wait = True, io_stopped = False, main_at = In_run\<rparr>"

text \<open>What keeps \<open>io_context::run\<close> from returning.\<close>

definition outstanding_work :: "handler_process \<Rightarrow> bool" where
  "outstanding_work p \<longleftrightarrow>
     sig_wait p \<or> ready (sess p) \<noteq> [] \<or> pending_read (sess p) \<noteq> None \<or> 0 < writes (sess p)
     \<or> el_timer_wait (sess p) \<or> el_timeout_wait (sess p)"

text \<open>The size of the buffer that the handler of a completion allocates for a body.\<close>

fun body_request :: "completion \<Rightarrow> nat" where
  "body_request (On_header (Inr header_buf)) =
     (let hdr = decode_header header_buf
      in if command_length hdr < 16 then 0 else unat (command_length hdr - 16))"
| "body_request _ = 0"

definition allocates :: "(nat \<Rightarrow> bool) \<Rightarrow> session \<Rightarrow> bool" where
  "allocates can_alloc s \<longleftrightarrow> (case ready s of [] \<Rightarrow> True | c # cs \<Rightarrow> can_alloc (body_request c))"

definition stop_on_signal :: "handler_process \<Rightarrow> handler_process" where
  "stop_on_signal p = p\<lparr>sig_wait := False, io_stopped := True\<rparr>"

text \<open>The steps of the D-Bus thread on the session.\<close>

inductive dbus_step :: "session \<Rightarrow> session \<Rightarrow> bool" where
  disconnect: "dbus_step s (Disconnect reason s)"
| deliver: "delivering s = None \<Longrightarrow> length src + length dst + length msg \<le> 2 ^ 27 \<Longrightarrow>
    deliver_check src dst msg s = Inr s' \<Longrightarrow> dbus_step s s'"
| deliver_send: "delivering s = Some (src, dst, msg) \<Longrightarrow> dbus_step s (snd (deliver_send src dst msg s))"

inductive handler_step :: "(nat \<Rightarrow> bool) \<Rightarrow> handler_process \<Rightarrow> handler_process \<Rightarrow> bool" for can_alloc where
  session_runs: "main_at p = In_run \<Longrightarrow> \<not> io_stopped p \<Longrightarrow> allocates can_alloc (sess p) \<Longrightarrow>
    session_step (sess p) t \<Longrightarrow> handler_step can_alloc p (p\<lparr>sess := t\<rparr>)"
| bad_alloc: "main_at p = In_run \<Longrightarrow> \<not> io_stopped p \<Longrightarrow> \<not> allocates can_alloc (sess p) \<Longrightarrow>
    handler_step can_alloc p (p\<lparr>main_at := Aborted\<rparr>)"
| bus_call: "main_at p = In_run \<or> main_at p = Leaving \<Longrightarrow> dbus_step (sess p) t \<Longrightarrow>
    handler_step can_alloc p (p\<lparr>sess := t\<rparr>)"
| signal: "main_at p = In_run \<Longrightarrow> sig_wait p \<Longrightarrow> handler_step can_alloc p (stop_on_signal p)"
| run_returns: "main_at p = In_run \<Longrightarrow> io_stopped p \<or> \<not> outstanding_work p \<Longrightarrow>
    handler_step can_alloc p (p\<lparr>main_at := Leaving\<rparr>)"
| joined: "main_at p = Leaving \<Longrightarrow> handler_step can_alloc p (p\<lparr>main_at := Exited\<rparr>)"

definition handler_launched :: "handler_process \<Rightarrow> bool" where
  "handler_launched p \<longleftrightarrow>
     (\<exists>request_name now argv v f s v'. client_main request_name now argv v = (Running f s, v') \<and> p = handler_run s)"

subsection \<open>Vocabulary of the properties\<close>

text \<open>The steps of the main thread that need no peer, no caller and no signal.\<close>

inductive own_step :: "(nat \<Rightarrow> bool) \<Rightarrow> handler_process \<Rightarrow> handler_process \<Rightarrow> bool" for can_alloc where
  own_session: "main_at p = In_run \<Longrightarrow> \<not> io_stopped p \<Longrightarrow> allocates can_alloc (sess p) \<Longrightarrow>
    silent_step (sess p) t \<Longrightarrow> own_step can_alloc p (p\<lparr>sess := t\<rparr>)"
| own_bad_alloc: "main_at p = In_run \<Longrightarrow> \<not> io_stopped p \<Longrightarrow> \<not> allocates can_alloc (sess p) \<Longrightarrow>
    own_step can_alloc p (p\<lparr>main_at := Aborted\<rparr>)"
| own_return: "main_at p = In_run \<Longrightarrow> io_stopped p \<or> \<not> outstanding_work p \<Longrightarrow>
    own_step can_alloc p (p\<lparr>main_at := Leaving\<rparr>)"
| own_join: "main_at p = Leaving \<Longrightarrow> own_step can_alloc p (p\<lparr>main_at := Exited\<rparr>)"

definition phase_rank :: "main_phase \<Rightarrow> nat" where
  "phase_rank m = (case m of In_run \<Rightarrow> 2 | Leaving \<Rightarrow> 1 | Exited \<Rightarrow> 0 | Aborted \<Rightarrow> 0)"

definition handler_inv :: "handler_process \<Rightarrow> bool" where
  "handler_inv p \<longleftrightarrow>
     reachable session_start session_step (sess p)
     \<and> (main_at p = In_run \<longrightarrow> sig_wait p \<longleftrightarrow> \<not> io_stopped p)
     \<and> (main_at p = Leaving \<or> main_at p = Exited \<longrightarrow> io_stopped p)"

section \<open>Lemmas\<close>

inductive_cases own_stepE: "own_step can_alloc p q"

lemma dbus_step_session: "dbus_step s t \<Longrightarrow> session_step s t"
  by (induction rule: dbus_step.induct) (auto intro: session_step.intros)

lemma own_step_handler: "own_step can_alloc p q \<Longrightarrow> handler_step can_alloc p q"
  by (induction rule: own_step.induct) (auto intro: handler_step.intros silent_step_session)

lemma client_main_session:
  assumes "client_main request_name now argv v = (Running f s, v')"
  shows "session_start s"
  using assms
  by (auto simp: client_main_def session_start_def Let_def split: option.splits prod.splits if_splits) blast

interpretation handler: inductive_invariant handler_launched "handler_step can_alloc" handler_inv for can_alloc
proof
  fix p
  assume "handler_launched p"
  then show "handler_inv p"
    by (auto simp: handler_launched_def handler_inv_def handler_run_def
        intro!: reach_start dest: client_main_session)
next
  fix p q
  assume p: "handler_inv p" and "handler_step can_alloc p q"
  from this(2) show "handler_inv q"
  proof cases
    case (session_runs t)
    with p show ?thesis by (auto simp: handler_inv_def intro: reachable.intros)
  next
    case (bus_call t)
    with p show ?thesis by (auto simp: handler_inv_def intro: reachable.intros dbus_step_session)
  qed (use p in \<open>auto simp: handler_inv_def stop_on_signal_def outstanding_work_def\<close>)
qed

lemma own_step_wf: "wfp (\<lambda>q p. own_step can_alloc p q)"
proof -
  let ?r = "inv_image (less_than <*lex*> {(t, s). silent_step s t}) (\<lambda>p. (phase_rank (main_at p), sess p))"
  have "wf ?r" using silent_step_wf by (intro wf_inv_image wf_lex_prod wf_less_than)
  moreover have "{(q, p). own_step can_alloc p q} \<subseteq> ?r"
    by (auto elim!: own_stepE simp: phase_rank_def)
  ultimately show ?thesis unfolding wfp_def by (rule wf_subset)
qed

text \<open>Where the main thread waits: for a signal, or it is done.\<close>

lemma own_stuck:
  assumes "\<not> (\<exists>q. own_step can_alloc p q)"
  shows "main_at p = Exited \<or> main_at p = Aborted
    \<or> main_at p = In_run \<and> \<not> io_stopped p \<and> outstanding_work p \<and> ready (sess p) = []
       \<and> \<not> el_timer_wait (sess p) \<and> \<not> el_timeout_wait (sess p)"
proof (cases "main_at p")
  case In_run
  then have r: "\<not> io_stopped p" "outstanding_work p" using assms by (auto intro: own_return)
  with In_run assms have "allocates can_alloc (sess p)" by (auto intro: own_bad_alloc)
  with In_run r assms have "\<not> (\<exists>t. silent_step (sess p) t)" by (auto intro: own_session)
  from silent_stuck [OF this] In_run r show ?thesis by blast
next
  case Leaving
  then show ?thesis using assms by (auto intro: own_join)
qed simp_all

lemma own_steps_reachable:
  "(own_step can_alloc)\<^sup>*\<^sup>* p q \<Longrightarrow> reachable handler_launched (handler_step can_alloc) p \<Longrightarrow>
    reachable handler_launched (handler_step can_alloc) q"
  by (induction rule: rtranclp.induct) (auto intro: reachable.intros own_step_handler)

lemma own_steps_stopped: "(own_step can_alloc)\<^sup>*\<^sup>* p q \<Longrightarrow> io_stopped q = io_stopped p"
  by (induction rule: rtranclp.induct) (auto elim!: own_stepE)

lemma own_steps_unbound:
  assumes "(own_step can_alloc)\<^sup>*\<^sup>* p q" and "state (sess p) = UNBOUND" and "\<not> socket_open (sess p)"
  shows "state (sess q) = UNBOUND \<and> \<not> socket_open (sess q)"
  using assms
proof (induction rule: rtranclp.induct)
  case (rtrancl_into_rtrancl p q r)
  then show ?case
    by (auto elim!: own_stepE dest!: silent_step_session ended_steps [OF r_into_rtranclp])
qed simp

lemma never_aborted: "(own_step (\<lambda>n. True))\<^sup>*\<^sup>* p q \<Longrightarrow> main_at p \<noteq> Aborted \<Longrightarrow> main_at q \<noteq> Aborted"
  by (induction rule: rtranclp.induct) (auto elim!: own_stepE simp: allocates_def split: list.splits)

section \<open>Properties\<close>

text \<open>
  C10: the main thread of a client handler cannot run on forever by itself. From every reachable
  state its own steps are finite in number, and where they end the process has exited, or was
  aborted, or waits in the io context. After a signal it has exited or was aborted. Without one it
  never exits: a session that has ended leaves the process waiting for a signal, with nothing queued
  and no operation in progress.
\<close>

theorem handler_terminates:
  assumes "reachable handler_launched (handler_step can_alloc) p"
  shows "wfp (\<lambda>q p. own_step can_alloc p q)
    \<and> (\<forall>q. (own_step can_alloc)\<^sup>*\<^sup>* p q \<and> \<not> (\<exists>r. own_step can_alloc q r) \<longrightarrow>
        main_at q = Aborted
        \<or> (if io_stopped p then main_at q = Exited else main_at q = In_run)
          \<and> (\<not> io_stopped p \<and> state (sess p) = UNBOUND \<longrightarrow> sig_wait q \<and> ready (sess q) = [] \<and> pending_read (sess q) = None
              \<and> writes (sess q) = 0 \<and> \<not> el_timer_wait (sess q) \<and> \<not> el_timeout_wait (sess q)))"
proof (intro conjI allI impI)
  show "wfp (\<lambda>q p. own_step can_alloc p q)" by (rule own_step_wf)
next
  fix q
  assume q: "(own_step can_alloc)\<^sup>*\<^sup>* p q \<and> \<not> (\<exists>r. own_step can_alloc q r)"
  then have run: "(own_step can_alloc)\<^sup>*\<^sup>* p q" and stuck: "\<not> (\<exists>r. own_step can_alloc q r)" by auto
  have inv: "handler_inv q" "handler_inv p"
    using handler.holds own_steps_reachable [OF run assms] assms by blast+
  have stopped: "io_stopped q = io_stopped p" using run by (rule own_steps_stopped)
  have "lifecycle_inv (sess q)" "lifecycle_inv (sess p)"
    using inv lifecycle.runs.holds by (auto simp: handler_inv_def)
  then show "main_at q = Aborted
        \<or> (if io_stopped p then main_at q = Exited else main_at q = In_run)
          \<and> (\<not> io_stopped p \<and> state (sess p) = UNBOUND \<longrightarrow> sig_wait q \<and> ready (sess q) = [] \<and> pending_read (sess q) = None
              \<and> writes (sess q) = 0 \<and> \<not> el_timer_wait (sess q) \<and> \<not> el_timeout_wait (sess q))"
    using own_stuck [OF stuck] inv(1) stopped own_steps_unbound [OF run]
    by (auto simp: handler_inv_def lifecycle_inv_def)
qed

theorem handler_terminates_witness:
  "\<exists>p q. handler_launched p \<and> (own_step (\<lambda>n. True))\<^sup>*\<^sup>* (stop_on_signal p) q \<and> main_at q = Exited"
proof -
  let ?u = "''u''"
  have v: "call_GetSocket SERVICE_NAME ?u (register_session ?u 7 ''10.0.0.1'' (new_server 5)) =
      (Some 7, snd (GetSocket ?u (register_session ?u 7 ''10.0.0.1'' (new_server 5))))"
    by (simp add: call_GetSocket_def GetSocket_eq register_session_eq reg.lookup_add new_server_def new_registry_def
        add_eq count_def pending_fd_def)
  have "client_args [''--uuid=u'', ''--client-ip=10.0.0.1''] = Some (?u, ''10.0.0.1'', SERVICE_NAME)"
    by (simp add: client_args_def starts_with_def SERVICE_NAME_def)
  with v have "client_main (\<lambda>n. True) 0 [''--uuid=u'', ''--client-ip=10.0.0.1'']
      (register_session ?u 7 ''10.0.0.1'' (new_server 5)) = (Running 7 (start (new_session ?u ''10.0.0.1'' 60 10 0 0)),
        snd (GetSocket ?u (register_session ?u 7 ''10.0.0.1'' (new_server 5))))"
    by (simp add: client_main_def)
  then obtain p where p: "handler_launched p" "main_at p = In_run" "sig_wait p"
    unfolding handler_launched_def by (metis handler_run_def handler_process.select_convs(2,4))
  let ?p = "stop_on_signal p"
  have r: "reachable handler_launched (handler_step (\<lambda>n. True)) ?p"
    using p by (blast intro: reachable.intros handler_step.signal)
  note t = handler_terminates [OF r]
  obtain q where q: "(own_step (\<lambda>n. True))\<^sup>*\<^sup>* ?p q" "\<And>r. own_step (\<lambda>n. True) q r \<Longrightarrow> \<not> (own_step (\<lambda>n. True))\<^sup>*\<^sup>* ?p r"
    using wfE_min [OF conjunct1 [OF t, unfolded wfp_def], of ?p "{q. (own_step (\<lambda>n. True))\<^sup>*\<^sup>* ?p q}"] by auto
  then have "\<not> (\<exists>r. own_step (\<lambda>n. True) q r)" by (meson rtranclp.rtrancl_into_rtrancl)
  moreover have "main_at q \<noteq> Aborted" using never_aborted [OF q(1)] p(2) by (simp add: stop_on_signal_def)
  ultimately have "main_at q = Exited" using t q(1) by (auto simp: stop_on_signal_def)
  with p(1) q(1) show ?thesis by blast
qed

text \<open>
  A peer that has sent sixteen bytes decides how much memory is allocated: a header that announces a
  long body makes the handler ask for it before any bind. When the allocation fails the exception
  ends the process without the logged exit of main.
\<close>

theorem announced_length_aborts:
  assumes "handler_launched p" and "\<not> can_alloc n" and "0 < n" and "n + 16 < 2 ^ 32"
  shows "\<exists>q. (handler_step can_alloc)\<^sup>*\<^sup>* p q \<and> main_at q = Aborted"
proof -
  let ?h = "\<lparr>command_length = of_nat (n + 16), command_id = 0, command_status = 0, sequence_number = 0\<rparr>"
  let ?c = "On_header (Inr (header_layout ?h))"
  from assms(1) obtain s where s: "session_start s" "p = handler_run s"
    by (auto simp: handler_launched_def dest: client_main_session)
  let ?s = "post ?c (s\<lparr>pending_read := None\<rparr>)"
  have f: "pending_read s = Some Read_header" "ready s = []" using session_start_fields [OF s(1)] by auto
  have "unat (of_nat (n + 16) :: u32) = n + 16" using assms(4) by (rule unat_small)
  then have "\<not> (of_nat (n + 16) :: u32) < 16" by (simp add: word_less_nat_alt)
  moreover have "unat ((of_nat (n + 16) :: u32) - 16) = n" using unat_small [of n] assms(4) by simp
  ultimately have "body_request ?c = n" using decode_header_layout [of ?h "[]"] by simp
  then have "\<not> allocates can_alloc ?s" using f assms(2) by (simp add: allocates_def post_def)
  then have "handler_step can_alloc (p\<lparr>sess := ?s\<rparr>) (p\<lparr>sess := ?s, main_at := Aborted\<rparr>)"
    using bad_alloc [of "p\<lparr>sess := ?s\<rparr>"] by (simp add: s(2) handler_run_def)
  moreover have "handler_step can_alloc p (p\<lparr>sess := ?s\<rparr>)"
    using header_read [OF f(1), of "header_layout ?h"] f(2)
    by (intro session_runs) (simp_all add: s(2) handler_run_def allocates_def)
  ultimately have "(handler_step can_alloc)\<^sup>*\<^sup>* p (p\<lparr>sess := ?s, main_at := Aborted\<rparr>)"
    by (meson converse_rtranclp_into_rtranclp r_into_rtranclp)
  then show ?thesis by (intro exI [of _ "p\<lparr>sess := ?s, main_at := Aborted\<rparr>"]) simp
qed

end
