(* ===== verification/Logging.thy ===== *)
theory Logging
  imports Config_Load
begin

text \<open>
  The two loggers and the build information. smpp::Logger (Common/src/logger.cpp) keeps one static
  logger, which exists from init on; the server's logger (SMPPServer/include/logger.hpp) installs the
  default logger of spdlog with a level. What spdlog prints is a list of entries, one per sink that
  takes the message; whether a sink can be constructed is a parameter. AppInfo
  (SMPPServer/src/app_info.cpp) formats the constants of config.h, which config.h.in computes from
  the variables of CMake, a parameter.
\<close>

section \<open>Definitions\<close>

datatype sink = Systemd_sink | Stdout_sink | File_sink string

record spd_logger =
  logger_name :: string
  sinks :: "(sink \<times> log_level) list"
  logger_level :: log_level

type_synonym log_entry = "sink \<times> string \<times> log_level \<times> string"

text \<open>A logger passes a message of its level on to the sinks whose level admits it.\<close>

definition spd_log :: "spd_logger \<Rightarrow> log_level \<Rightarrow> string \<Rightarrow> log_entry list" where
  "spd_log l lvl msg =
     (if passes (logger_level l) lvl
      then map (\<lambda>(snk, slvl). (snk, logger_name l, lvl, msg)) (filter (\<lambda>(snk, slvl). passes slvl lvl) (sinks l))
      else [])"

subsection \<open>The logger of the common library\<close>

record log_context =
  ctx_session_id :: string
  ctx_client_ip :: string
  ctx_system_id :: string

record log_state =
  s_logger :: "spd_logger option"
  printed :: "log_entry list"

definition Logger_init :: "bool \<Rightarrow> string \<Rightarrow> log_state \<Rightarrow> log_state" where
  "Logger_init systemd_available service_name st =
     (let snks = (if systemd_available then [(Systemd_sink, Trace)] else [(Stdout_sink, Trace)])
      in st\<lparr>s_logger := Some \<lparr>logger_name = service_name, sinks = snks, logger_level = Trace\<rparr>\<rparr>)"

definition Logger_get :: "log_state \<Rightarrow> spd_logger option" where
  "Logger_get st = s_logger st"

definition Logger_format :: "log_context \<Rightarrow> string \<Rightarrow> string" where
  "Logger_format ctx msg =
     ''[sid='' @ ctx_session_id ctx @
     '' ip='' @ ctx_client_ip ctx @
     '' sys='' @ ctx_system_id ctx @
     ''] '' @ msg"

text \<open>The four functions for each level, without and with a context.\<close>

definition Logger_log :: "log_level \<Rightarrow> string \<Rightarrow> log_state \<Rightarrow> log_state" where
  "Logger_log lvl msg st =
     (case s_logger st of None \<Rightarrow> st | Some l \<Rightarrow> st\<lparr>printed := printed st @ spd_log l lvl msg\<rparr>)"

definition Logger_info :: "string \<Rightarrow> log_state \<Rightarrow> log_state" where "Logger_info = Logger_log Info"
definition Logger_warn :: "string \<Rightarrow> log_state \<Rightarrow> log_state" where "Logger_warn = Logger_log Warn"
definition Logger_error :: "string \<Rightarrow> log_state \<Rightarrow> log_state" where "Logger_error = Logger_log Err"
definition Logger_debug :: "string \<Rightarrow> log_state \<Rightarrow> log_state" where "Logger_debug = Logger_log Debug"

definition Logger_info_ctx :: "log_context \<Rightarrow> string \<Rightarrow> log_state \<Rightarrow> log_state" where
  "Logger_info_ctx ctx msg = Logger_log Info (Logger_format ctx msg)"
definition Logger_warn_ctx :: "log_context \<Rightarrow> string \<Rightarrow> log_state \<Rightarrow> log_state" where
  "Logger_warn_ctx ctx msg = Logger_log Warn (Logger_format ctx msg)"
definition Logger_error_ctx :: "log_context \<Rightarrow> string \<Rightarrow> log_state \<Rightarrow> log_state" where
  "Logger_error_ctx ctx msg = Logger_log Err (Logger_format ctx msg)"
definition Logger_debug_ctx :: "log_context \<Rightarrow> string \<Rightarrow> log_state \<Rightarrow> log_state" where
  "Logger_debug_ctx ctx msg = Logger_log Debug (Logger_format ctx msg)"

subsection \<open>The logger of the server\<close>

definition logger_init :: "(string \<Rightarrow> bool) \<Rightarrow> string \<Rightarrow> log_level \<Rightarrow> spd_logger" where
  "logger_init can_open log_file_path lvl =
     \<lparr>logger_name = ''smpp'',
      sinks = (if can_open log_file_path then [(Stdout_sink, lvl), (File_sink log_file_path, lvl)]
               else [(Stdout_sink, lvl)]),
      logger_level = lvl\<rparr>"

definition DEFAULT_LOG_FILE :: string where
  "DEFAULT_LOG_FILE = ''/var/log/simple_smpp_server/server.log''"

definition main_logger :: "(string \<Rightarrow> bool) \<Rightarrow> string \<Rightarrow> spd_logger" where
  "main_logger can_open log_level_str = logger_init can_open DEFAULT_LOG_FILE (level_from_string log_level_str)"

text \<open>The macros put the module name, padded to twenty characters, in front of the message.\<close>

definition log_line :: "string \<Rightarrow> string \<Rightarrow> string" where
  "log_line md msg = ''['' @ md @ replicate (20 - length md) CHR '' '' @ ''] '' @ msg"

definition LOG_INFO :: "spd_logger \<Rightarrow> string \<Rightarrow> string \<Rightarrow> log_entry list" where
  "LOG_INFO l md msg = spd_log l Info (log_line md msg)"
definition LOG_WARN :: "spd_logger \<Rightarrow> string \<Rightarrow> string \<Rightarrow> log_entry list" where
  "LOG_WARN l md msg = spd_log l Warn (log_line md msg)"
definition LOG_ERROR :: "spd_logger \<Rightarrow> string \<Rightarrow> string \<Rightarrow> log_entry list" where
  "LOG_ERROR l md msg = spd_log l Err (log_line md msg)"
definition LOG_FATAL :: "spd_logger \<Rightarrow> string \<Rightarrow> string \<Rightarrow> log_entry list" where
  "LOG_FATAL l md msg = spd_log l Critical (log_line md msg)"

subsection \<open>Build information\<close>

text \<open>
  The variables of CMake that config.h.in puts into config.h, with the version components as numbers;
  the macro \<open>TOSTRING\<close> gives their decimal text.
\<close>

record cmake_vars =
  PROJECT_NAME :: string
  PROJECT_DESCRIPTION :: string
  PROJECT_HOMEPAGE_URL :: string
  VERSION_MAJOR :: nat
  VERSION_MINOR :: nat
  VERSION_PATCH :: nat
  BUILD_TYPE :: string
  COMPILER_ID :: string
  COMPILER_VERSION :: string
  CXX_STANDARD :: string

fun TOSTRING :: "nat \<Rightarrow> string" where
  "TOSTRING n = (if n < 10 then [char_of (48 + n)] else TOSTRING (n div 10) @ [char_of (48 + n mod 10)])"

definition VERSION_STATUS :: string where
  "VERSION_STATUS = ''pre-release (architecture design)''"

definition COMPILER :: "cmake_vars \<Rightarrow> string" where
  "COMPILER c = COMPILER_ID c @ '' '' @ COMPILER_VERSION c"

definition VERSION_STRING :: "cmake_vars \<Rightarrow> string" where
  "VERSION_STRING c = TOSTRING (VERSION_MAJOR c) @ ''.'' @ TOSTRING (VERSION_MINOR c) @ ''.'' @ TOSTRING (VERSION_PATCH c)"

definition FULL_VERSION_STRING :: "cmake_vars \<Rightarrow> string" where
  "FULL_VERSION_STRING c = VERSION_STRING c @ '' - '' @ VERSION_STATUS"

definition is_prerelease :: "cmake_vars \<Rightarrow> bool" where
  "is_prerelease c \<longleftrightarrow> VERSION_MAJOR c = 0"

definition is_stable :: "cmake_vars \<Rightarrow> bool" where
  "is_stable c \<longleftrightarrow> 1 \<le> VERSION_MAJOR c"

text \<open>What the constant functions of the class return.\<close>

record app_info =
  app_name :: string
  version :: string
  full_version :: string
  version_major :: nat
  version_minor :: nat
  version_patch :: nat
  description :: string
  homepage :: string
  compiler :: string
  cxx_standard :: string
  build_type :: string

definition AppInfo :: "cmake_vars \<Rightarrow> app_info" where
  "AppInfo c =
     \<lparr>app_name = PROJECT_NAME c, version = VERSION_STRING c, full_version = FULL_VERSION_STRING c,
      version_major = VERSION_MAJOR c, version_minor = VERSION_MINOR c, version_patch = VERSION_PATCH c,
      description = PROJECT_DESCRIPTION c, homepage = PROJECT_HOMEPAGE_URL c,
      compiler = COMPILER c, cxx_standard = CXX_STANDARD c, build_type = BUILD_TYPE c\<rparr>"

definition info_string :: "cmake_vars \<Rightarrow> string" where
  "info_string c =
     PROJECT_NAME c @ '' '' @ FULL_VERSION_STRING c @ [CHR 0x0A]
     @ ''Description: '' @ PROJECT_DESCRIPTION c @ [CHR 0x0A]
     @ ''Homepage: '' @ PROJECT_HOMEPAGE_URL c @ [CHR 0x0A]
     @ ''Compiler: '' @ COMPILER c @ '' (C++'' @ CXX_STANDARD c @ '')'' @ [CHR 0x0A]
     @ ''Build Type: '' @ BUILD_TYPE c"

definition print_info :: "cmake_vars \<Rightarrow> string" where
  "print_info c = info_string c @ [CHR 0x0A]"

subsection \<open>Vocabulary of the properties\<close>

text \<open>The lines of a text.\<close>

fun text_lines :: "string \<Rightarrow> string list" where
  "text_lines [] = [[]]"
| "text_lines (c # cs) =
     (if c = CHR 0x0A then [] # text_lines cs
      else case text_lines cs of [] \<Rightarrow> [[c]] | l # ls \<Rightarrow> (c # l) # ls)"

definition clean_context :: "log_context \<Rightarrow> bool" where
  "clean_context ctx \<longleftrightarrow>
     CHR '' '' \<notin> set (ctx_session_id ctx) \<and> CHR '' '' \<notin> set (ctx_client_ip ctx) \<and> CHR '']'' \<notin> set (ctx_system_id ctx)"

section \<open>Lemmas\<close>

lemma split_at_unique:
  assumes "x \<notin> set as" and "x \<notin> set bs"
  shows "as @ x # cs = bs @ x # ds \<longleftrightarrow> as = bs \<and> cs = ds"
  using assms
proof (induction as arbitrary: bs)
  case Nil
  then show ?case by (cases bs) auto
next
  case (Cons a as)
  then show ?case by (cases bs) auto
qed

lemma text_lines_append:
  "CHR 0x0A \<notin> set s \<Longrightarrow> text_lines (s @ CHR 0x0A # t) = s # text_lines t"
  "CHR 0x0A \<notin> set s \<Longrightarrow> text_lines s = [s]"
  by (induction s) auto

lemma text_lines_five:
  assumes "CHR 0x0A \<notin> set a" and "CHR 0x0A \<notin> set b" and "CHR 0x0A \<notin> set c" and "CHR 0x0A \<notin> set d"
    and "CHR 0x0A \<notin> set e"
  shows "text_lines (a @ CHR 0x0A # b @ CHR 0x0A # c @ CHR 0x0A # d @ CHR 0x0A # e) = [a, b, c, d, e]"
  using assms by (simp add: text_lines_append)

declare TOSTRING.simps [simp del]

lemma TOSTRING_digits: "ch \<in> set (TOSTRING n) \<Longrightarrow> (48::nat) \<le> of_char ch"
proof (induction n rule: TOSTRING.induct)
  case (1 n)
  have "(48::nat) \<le> of_char (char_of (48 + d) :: char)" if "d < 10" for d :: nat
    using that by simp
  from this [of n] this [of "n mod 10"] 1 show ?case by (subst (asm) TOSTRING.simps) (auto split: if_splits)
qed

lemma not_in_TOSTRING [simp]: "CHR ''.'' \<notin> set (TOSTRING n)" "CHR 0x0A \<notin> set (TOSTRING n)"
  by (auto dest: TOSTRING_digits)

lemma TOSTRING_value: "foldl (\<lambda>v ch. 10 * v + (of_char ch - 48)) 0 (TOSTRING n) = n"
proof (induction n rule: TOSTRING.induct)
  case (1 n)
  have "(of_char (char_of (48 + d)) :: nat) = 48 + d" if "d < 10" for d :: nat
    using that by simp
  with 1 show ?case by (subst TOSTRING.simps) (auto simp: mult.commute [of 10])
qed

lemma TOSTRING_eq: "TOSTRING m = TOSTRING n \<longleftrightarrow> m = n"
  using TOSTRING_value by metis

section \<open>Properties\<close>

text \<open>
  A message is printed once when its logger admits it and not at all before init: the functions of
  smpp::Logger never lose a message of an initialised logger and never touch a missing one.
\<close>

theorem logged_once:
  "s_logger st = None \<Longrightarrow> Logger_log lvl msg st = st"
  "printed (Logger_log lvl msg (Logger_init sd svc st)) =
     printed st @ [(if sd then Systemd_sink else Stdout_sink, svc, lvl, msg)]"
  by (simp_all add: Logger_log_def Logger_init_def spd_log_def passes_def less_eq_log_level_def)

text \<open>
  The server prints a message on standard output, and in the log file when it could be opened,
  exactly when its level reaches the configured one. An error is printed under every level that a
  name can select but critical.
\<close>

theorem server_log_entries:
  "map fst (spd_log (logger_init can_open path lvl) m msg) =
     (if lvl \<le> m then Stdout_sink # (if can_open path then [File_sink path] else []) else [])"
  "LOG_ERROR (main_logger can_open name) md msg = [] \<longleftrightarrow> name = ''critical'' \<or> name = ''fatal''"
proof -
  show "map fst (spd_log (logger_init can_open path lvl) m msg) =
     (if lvl \<le> m then Stdout_sink # (if can_open path then [File_sink path] else []) else [])"
    by (simp add: spd_log_def logger_init_def passes_def)
next
  have "LOG_ERROR (main_logger can_open name) md msg = [] \<longleftrightarrow> \<not> level_from_string name \<le> Err"
    by (simp add: LOG_ERROR_def main_logger_def logger_init_def spd_log_def passes_def)
  also have "\<dots> \<longleftrightarrow> name = ''critical'' \<or> name = ''fatal''"
    by (auto simp: level_from_string_def less_eq_log_level_def)
  finally show "LOG_ERROR (main_logger can_open name) md msg = [] \<longleftrightarrow> name = ''critical'' \<or> name = ''fatal''" .
qed

text \<open>
  The prefix of a log line identifies its session. Two lines with contexts whose session id and
  address have no blank and whose system id has no closing bracket are equal only if their contexts
  and messages are.
\<close>

theorem log_prefix_unique:
  assumes "clean_context c" and "clean_context d"
  shows "Logger_format c m = Logger_format d n \<longleftrightarrow> c = d \<and> m = n"
proof -
  note c = assms(1) [unfolded clean_context_def] and d = assms(2) [unfolded clean_context_def]
  have "Logger_format c m = Logger_format d n \<longleftrightarrow>
      ctx_session_id c = ctx_session_id d \<and> ctx_client_ip c = ctx_client_ip d \<and> ctx_system_id c = ctx_system_id d \<and> m = n"
    using c d by (simp add: Logger_format_def split_at_unique)
  then show ?thesis by (cases c; cases d) auto
qed

text \<open>
  The system id is what a client sent and is not checked. One log call of a session can print what two
  calls of two sessions would have: the line of another session with any content can be forged.
\<close>

theorem log_line_forged:
  "\<exists>c. ctx_session_id c = ctx_session_id c1 \<and> ctx_client_ip c = ctx_client_ip c1
    \<and> Logger_format c m2 = Logger_format c1 m1 @ [CHR 0x0A] @ Logger_format c2 m2"
  by (rule exI [of _ "c1\<lparr>ctx_system_id := ctx_system_id c1 @ ''] '' @ m1 @ [CHR 0x0A] @ ''[sid='' @ ctx_session_id c2 @
      '' ip='' @ ctx_client_ip c2 @ '' sys='' @ ctx_system_id c2\<rparr>"]) (simp add: Logger_format_def)

text \<open>
  The version text determines the version, and a version is either a pre-release or stable. The status
  in the text is a constant: a stable version still calls itself a pre-release.
\<close>

theorem version_text:
  "VERSION_STRING c = VERSION_STRING d \<longleftrightarrow>
     (VERSION_MAJOR c, VERSION_MINOR c, VERSION_PATCH c) = (VERSION_MAJOR d, VERSION_MINOR d, VERSION_PATCH d)"
  "is_stable c \<longleftrightarrow> \<not> is_prerelease c"
  "take 11 (drop (length (VERSION_STRING c) + 3) (FULL_VERSION_STRING c)) = ''pre-release''"
proof -
  show "VERSION_STRING c = VERSION_STRING d \<longleftrightarrow>
     (VERSION_MAJOR c, VERSION_MINOR c, VERSION_PATCH c) = (VERSION_MAJOR d, VERSION_MINOR d, VERSION_PATCH d)"
    by (simp add: VERSION_STRING_def split_at_unique TOSTRING_eq)
qed (auto simp: is_stable_def is_prerelease_def FULL_VERSION_STRING_def VERSION_STATUS_def)

text \<open>
  When no variable of CMake holds a line break, the information of a build is five lines and they show
  what the functions of the class return.
\<close>

theorem build_info_lines:
  assumes "\<And>s. s \<in> {PROJECT_NAME c, PROJECT_DESCRIPTION c, PROJECT_HOMEPAGE_URL c, BUILD_TYPE c, COMPILER_ID c,
      COMPILER_VERSION c, CXX_STANDARD c} \<Longrightarrow> CHR 0x0A \<notin> set s"
  shows "text_lines (info_string c) =
     (let i = AppInfo c
      in [app_name i @ '' '' @ full_version i, ''Description: '' @ description i, ''Homepage: '' @ homepage i,
          ''Compiler: '' @ compiler i @ '' (C++'' @ cxx_standard i @ '')'', ''Build Type: '' @ build_type i])"
proof -
  let ?n = "PROJECT_NAME c @ '' '' @ FULL_VERSION_STRING c" and ?d = "''Description: '' @ PROJECT_DESCRIPTION c"
    and ?h = "''Homepage: '' @ PROJECT_HOMEPAGE_URL c"
    and ?p = "''Compiler: '' @ COMPILER c @ '' (C++'' @ CXX_STANDARD c @ '')''"
    and ?b = "''Build Type: '' @ BUILD_TYPE c"
  have "CHR 0x0A \<notin> set ?n" and "CHR 0x0A \<notin> set ?d" and "CHR 0x0A \<notin> set ?h" and "CHR 0x0A \<notin> set ?p"
      and "CHR 0x0A \<notin> set ?b"
    using assms by (simp_all add: FULL_VERSION_STRING_def VERSION_STRING_def VERSION_STATUS_def COMPILER_def)
  then have "text_lines (?n @ CHR 0x0A # ?d @ CHR 0x0A # ?h @ CHR 0x0A # ?p @ CHR 0x0A # ?b) = [?n, ?d, ?h, ?p, ?b]"
    by (rule text_lines_five)
  moreover have "info_string c = ?n @ CHR 0x0A # ?d @ CHR 0x0A # ?h @ CHR 0x0A # ?p @ CHR 0x0A # ?b"
    by (simp add: info_string_def)
  ultimately show ?thesis by (simp add: AppInfo_def)
qed

end
