(* ===== verification/Raw_Client.thy ===== *)
theory Raw_Client
  imports System_Composition
begin

text \<open>
  The client of tests/raw_test.py, which builds its PDUs by hand, against the session of a client
  handler: what the bytes of its bind mean there, and what its verdict says about the answers.
\<close>

section \<open>Definitions\<close>

text \<open>\<open>str.encode('ascii')\<close> raises on other characters, \<open>struct.pack\<close> on a number of more than 32 bits.\<close>

definition encode_ascii :: "string \<Rightarrow> byte list option" where
  "encode_ascii s = (if list_all (\<lambda>c. (of_char c :: nat) < 128) s then Some (bytes_of s) else None)"

definition struct_pack :: "nat \<Rightarrow> nat \<Rightarrow> nat \<Rightarrow> nat \<Rightarrow> byte list option" where
  "struct_pack a b c d =
     (if list_all (\<lambda>n. n < 2 ^ 32) [a, b, c, d]
      then Some (be_split (of_nat a) @ be_split (of_nat b) @ be_split (of_nat c) @ be_split (of_nat d)) else None)"

definition create_bind_transmitter_pdu :: "string \<Rightarrow> string \<Rightarrow> nat \<Rightarrow> byte list option" where
  "create_bind_transmitter_pdu sid pass seq =
     (case (encode_ascii sid, encode_ascii pass) of
        (Some i, Some p) \<Rightarrow>
          let body = i @ [0] @ p @ [0] @ bytes_of ''SMPP'' @ [0] @ [0x34] @ [0x01] @ [0x01] @ [0x00]
          in (case struct_pack (16 + length body) 0x00000002 0 seq of
                Some hdr \<Rightarrow> Some (hdr @ body) | None \<Rightarrow> None)
      | _ \<Rightarrow> None)"

definition eq_pdu :: "byte list option" where
  "eq_pdu = struct_pack 16 0x0000000F 0 2"

text \<open>
  The exit code from the two answers: the bytes that the first receive returns and those of the
  second one, None if it times out.
\<close>

definition raw_test_result :: "byte list \<Rightarrow> byte list option \<Rightarrow> int" where
  "raw_test_result resp eq_resp =
     (if 16 \<le> length resp then
        if command_status (decode_header resp) = 0 then (case eq_resp of Some r \<Rightarrow> 0 | None \<Rightarrow> 1) else 1
      else 1)"

subsection \<open>Vocabulary of the properties\<close>

text \<open>The completions by which a session takes one PDU from its socket.\<close>

definition receive_bytes :: "env \<Rightarrow> byte list \<Rightarrow> session \<Rightarrow> session" where
  "receive_bytes e pdu s =
     (let hdr = decode_header (take 16 pdu); s = on_header e (Inr (take 16 pdu)) (s\<lparr>pending_read := None\<rparr>)
      in if command_length hdr = 16 then s else on_body e hdr (Inr (drop 16 pdu)) (s\<lparr>pending_read := None\<rparr>))"

section \<open>Lemmas\<close>

lemma decode_header_only [simp]: "decode_header (header_layout h) = h"
  using decode_header_layout [of h "[]"] by simp

lemma bind_response_fields:
  assumes "x = [] \<or> x = ''smpp-server''"
  shows "command_status (decode_header (make_response cmd code seq x)) = code"
    and "sequence_number (decode_header (make_response cmd code seq x)) = seq"
    and "16 \<le> length (make_response cmd code seq x)"
  using assms by (auto simp: make_response_eq response_body_def cstr_layout_def)

lemma struct_pack_layout:
  "struct_pack a b c d = Some hdr \<Longrightarrow>
    hdr = header_layout \<lparr>command_length = of_nat a, command_id = of_nat b, command_status = of_nat c, sequence_number = of_nat d\<rparr>
    \<and> a < 2 ^ 32"
  by (auto simp: struct_pack_def header_layout_def split: if_splits)

lemma bind_credentials_layout:
  assumes "wf_cstr sid" and "wf_cstr pass"
  shows "bind_credentials (cstr_layout sid @ cstr_layout pass @ rest) = (sid, pass)"
proof -
  let ?b = "cstr_layout sid @ cstr_layout pass @ rest"
  have 1: "read_cstr ?b 0 = (sid, length ?b - length (cstr_layout pass @ rest))"
    using read_cstr_stream [of ?b ?b] assms(1) by (simp add: cstr_stream_layout wf_cstr_def)
  have "suffix (cstr_layout pass @ rest) ?b" by (simp add: suffix_def)
  from read_cstr_stream [OF this] have
    2: "fst (read_cstr ?b (length ?b - length (cstr_layout pass @ rest))) = pass"
    using assms(2) by (simp add: cstr_stream_layout wf_cstr_def)
  show ?thesis unfolding bind_credentials_def by (subst 1) (use 2 in \<open>simp add: split_beta\<close>)
qed

lemma bind_pdu_layout:
  assumes "create_bind_transmitter_pdu sid pass seq = Some pdu"
  shows "\<exists>rest n. pdu = header_layout \<lparr>command_length = of_nat n, command_id = BIND_TRANSMITTER, command_status = 0,
      sequence_number = of_nat seq\<rparr> @ cstr_layout sid @ cstr_layout pass @ rest
    \<and> n = length pdu \<and> 16 < n \<and> n < 2 ^ 32"
proof -
  let ?rest = "bytes_of ''SMPP'' @ [0, 0x34, 1, 1, 0]"
  let ?body = "cstr_layout sid @ cstr_layout pass @ ?rest"
  from assms obtain hdr where hdr: "struct_pack (16 + length ?body) 2 0 seq = Some hdr" and pdu: "pdu = hdr @ ?body"
    by (auto simp: create_bind_transmitter_pdu_def encode_ascii_def cstr_layout_def Let_def
        split: option.splits if_splits)
  from struct_pack_layout [OF hdr] pdu show ?thesis
    by (intro exI [of _ ?rest] exI [of _ "16 + length ?body"]) simp
qed

lemma receive_bytes_body:
  assumes "pdu = header_layout h @ body" and "16 < command_length h" and "socket_open s"
  shows "receive_bytes e pdu s = on_body e h (Inr body) (s\<lparr>pending_read := None\<rparr>)"
proof -
  have "command_length h - 16 \<noteq> 0" "\<not> command_length h < 16" "command_length h \<noteq> 16"
    using assms(2) by (auto simp: not_less)
  with assms(1,3) show ?thesis
    by (simp add: receive_bytes_def on_header_def read_body_def Let_def)
qed

section \<open>Properties\<close>

text \<open>
  The hand-built bind reaches the session as meant. A bind that the client can build, with a
  system id and a password the session can read, makes an open session ask for exactly these
  credentials, and answers once. The client sees status 0 exactly when the credentials of the
  authenticator hold the password; the session is then bound as a transmitter, and has ended otherwise.
\<close>

theorem raw_client_login:
  assumes "create_bind_transmitter_pdu sid pass seq = Some pdu" and "wf_cstr sid" and "wf_cstr pass"
    and "state s = OPEN" and "socket_open s"
  shows "\<exists>resp t. t = receive_bytes (client_env c e) pdu s \<and> sent_pdus (out t) = sent_pdus (out s) @ [resp]
    \<and> (raw_test_result resp (Some eq) = 0 \<longleftrightarrow> c sid = Some pass)
    \<and> sequence_number (decode_header resp) = of_nat seq
    \<and> state t = (if c sid = Some pass then BOUND_TX else UNBOUND)"
proof -
  from bind_pdu_layout [OF assms(1)] obtain rest n where
    pdu: "pdu = header_layout \<lparr>command_length = of_nat n, command_id = BIND_TRANSMITTER, command_status = 0,
      sequence_number = of_nat seq\<rparr> @ cstr_layout sid @ cstr_layout pass @ rest" and n: "16 < n" "n < 2 ^ 32"
    by blast
  let ?h = "\<lparr>command_length = of_nat n, command_id = BIND_TRANSMITTER, command_status = 0, sequence_number = of_nat seq\<rparr>"
  let ?b = "cstr_layout sid @ cstr_layout pass @ rest" and ?s = "s\<lparr>pending_read := None\<rparr>" and ?e = "client_env c e"
  have "16 < (of_nat n :: u32)" using n unat_small [OF n(2)] by (simp add: word_less_nat_alt)
  then have t: "receive_bytes ?e pdu s = read_header (handle_bind ?e ?h ?b ?s)"
    using receive_bytes_body [OF pdu] assms(5) by (simp add: on_body_def dispatch_def)
  have cr: "bind_credentials ?b = (sid, pass)" using assms(2,3) by (rule bind_credentials_layout)
  have auth: "authenticate ?e (uuid ?s) sid pass (client_ip ?s) = Some (Authenticate c (uuid s) sid pass (client_ip s))"
    by (simp add: client_env_def)
  show ?thesis
  proof (cases rule: bind_cases [of ?s ?e ?h ?b])
    case refused
    with assms(4) show ?thesis by simp
  next
    case (failed sid' pass' err)
    then have r: "Authenticate c (uuid s) sid pass (client_ip s) = (False, err)" using cr auth by (simp add: auth_verdict_def)
    then have "err \<noteq> 0" "c sid \<noteq> Some pass"
      using service.refused_code Authenticate_iff [of c "uuid s" sid pass "client_ip s"] by auto
    with failed assms(4,5) show ?thesis
      by (intro exI [of _ "make_response (bind_resp_id BIND_TRANSMITTER) err (of_nat seq) []"] exI [of _ "receive_bytes ?e pdu s"])
        (simp add: t bind_response_fields raw_test_result_def do_disconnect_def socket_close_def send_pdu_def emit_def Let_def)
  next
    case (bound sid' pass' code)
    then have "Authenticate c (uuid s) sid pass (client_ip s) = (True, code)" using cr auth by simp
    then have "c sid = Some pass" using Authenticate_iff [of c "uuid s" sid pass "client_ip s"] by simp
    with bound assms(4,5) show ?thesis
      by (intro exI [of _ "make_response (bind_resp_id BIND_TRANSMITTER) 0 (of_nat seq) ''smpp-server''"]
          exI [of _ "receive_bytes ?e pdu s"])
        (simp add: t bind_response_fields raw_test_result_def update_session_details_def send_pdu_def emit_def bind_state_def)
  qed
qed

theorem raw_client_login_witness:
  "\<exists>pdu. create_bind_transmitter_pdu ''test'' ''test'' 1 = Some pdu \<and>
    state (receive_bytes (client_env [''test'' \<mapsto> ''test''] example_env) pdu (new_session ''a'' ''10.0.0.1'' 60 10 0 0)) = BOUND_TX"
proof -
  obtain pdu where pdu: "create_bind_transmitter_pdu ''test'' ''test'' 1 = Some pdu"
    by (simp add: create_bind_transmitter_pdu_def encode_ascii_def struct_pack_def)
  have "wf_cstr ''test''" "state (new_session ''a'' ''10.0.0.1'' 60 10 0 0) = OPEN"
      "socket_open (new_session ''a'' ''10.0.0.1'' 60 10 0 0)"
    by (simp_all add: wf_cstr_def byte_of_char_def new_session_def)
  from raw_client_login [OF pdu this(1,1,2,3), where c = "[''test'' \<mapsto> ''test'']" and e = example_env] pdu
  show ?thesis by auto
qed

text \<open>
  The last step of the script sends the id 0x0000000F for enquire_link. A session answers it with
  generic_nack, and the script takes any answer for the expected one.
\<close>

theorem enquire_link_check_is_void:
  assumes "eq_pdu = Some pdu" and "socket_open s" and "raw_test_result resp (Some []) = 0"
  shows "sent_pdus (out (receive_bytes e pdu s)) = sent_pdus (out s) @ [make_response GENERIC_NACK ESME_RINVCMDID 2 []]
    \<and> raw_test_result resp (Some (make_response GENERIC_NACK ESME_RINVCMDID 2 [])) = 0"
proof -
  let ?h = "\<lparr>command_length = 16, command_id = 0xF, command_status = 0, sequence_number = 2\<rparr>"
  have "pdu = header_layout ?h" using assms(1) struct_pack_layout by (fastforce simp: eq_pdu_def)
  then have "receive_bytes e pdu s = read_header (dispatch e ?h [] (s\<lparr>pending_read := None\<rparr>))"
    by (simp add: receive_bytes_def on_header_def read_body_def Let_def)
  with assms(2,3) show ?thesis
    by (simp add: dispatch_def send_pdu_def emit_def raw_test_result_def split: if_splits)
qed

end
