(* ===== verification/Spec2Isabelle.thy ===== *)
theory Spec2Isabelle
  imports Session_Runs Server_Service Session_Launch Auth_Service State_Machine_V1 State_Machine_V2
    Server_Handler Server_Main Auth_Main System_Composition Bus_Composition Handler_Process Logging
    Raw_Client
begin

text \<open>
  Verification of the OpenSMSC short message centre: a development beside the C++ sources of
  SMPPServer, SmppClientHandler, Authenticator and Common (paths below are under src/).

  \<^bold>\<open>The program.\<close> Three programs talk over D-Bus. The server (SMPPServer) accepts TCP
  connections, checks the peer against a whitelist, registers the descriptor under a new session id
  and launches one client handler process per connection with systemd-run. The client handler
  (SmppClientHandler) claims its descriptor with GetSocket and speaks SMPP on it: binds, which it
  has judged by the authenticator (Authenticator), submit_sm, which it passes to RouteMessage of the
  server, keepalive and unbind. The server routes a message to the first bound receiver by calling
  DeliverSm of the handler process. Three further components are in the repository but in no CMake
  target: two state machines of an SMPP client with their wrapper (SmppClientHandler) and an
  in-process session handler with its stream framer (SMPPServer). They are modelled as well.

  \<^bold>\<open>How the code is translated.\<close> A class is a record, a member function a function on it with
  the source's name; an enumeration is a datatype; bytes and integers are words of their width, so
  sums wrap as in C++; offsets that never pass a buffer length are natural numbers. A std::map is the
  list of its entries in key order, an unordered map a HOL map. An exception is a value of an
  \<open>option\<close> or sum type. An asynchronous operation is an entry in the record (an outstanding read,
  write, timer or accept) and its completion handler a step; threads interleave at the granularity of
  the mutexes. Calls to other processes are logged in the order of the code and given a meaning in
  System_Composition. Nothing needs fuel: every loop of the code is structural recursion on its
  input, except hexadecimal and decimal output, the read of a C-octet string, the check of a UTF-8
  string and the loop of the in-process handler over the completed PDUs, whose termination is proved. The
  event loops are step relations; that the steps without a peer end is proved for the session and for
  the handler process. Log lines are left out of the components; Logging has their formats.

  \<^bold>\<open>Theories.\<close>

  \<^item> Smpp_Prelude: word and buffer types, big-endian access, hexadecimal stream output, reachability
    and the locale \<open>inductive_invariant\<close>, the contract of every invariant below.

  \<^item> Smpp_Pdu (SmppClientHandler/include/smpp_pdu.hpp): header codec, read_cstr, parse_submit_sm,
    make_response, make_deliver_sm. Shows that the index-based parser is equal to a stream parser on
    every input and never reads past the buffer, and the round trips of the three formats.

  \<^item> Double_Rounding, Token_Bucket (throttle_check of SmppClientHandler/src/smpp_session.cpp): a
    double is a rational, every operation is rounded to 53 bits to nearest even; subnormal numbers
    and overflow are outside the range of the bucket. The locale \<open>rounding\<close> has the laws the
    bucket needs. Shows the bound on accepted submissions over any run, with the accumulated rounding
    error explicit, the exact burst, and that the bucket stays between zero and the rate.

  \<^item> Client_Session (SmppSession of SmppClientHandler/src/smpp_session.cpp): the record \<open>session\<close>, the
    read loop, dispatch, all PDU handlers, the keepalive timers, DeliverSm, Disconnect. Shows that each
    request gets exactly one response, with its sequence number.

  \<^item> Session_Runs: every run of a session as the step relation \<open>session_step\<close>; the locales
    \<open>session_closed\<close> and \<open>session_invariant\<close> reduce an invariant to the primitive effects of the
    handlers and are interpreted for nine predicates. Shows that the socket is closed and
    SessionExited emitted once, that a bound session was authenticated, that an ended session stays
    ended, that exactly one read is outstanding, that message ids are distinct (up to \<open>2^32\<close>), that
    every written PDU has a correct length, and that a silent peer is disconnected: the steps that
    need no peer are well-founded and end in UNBOUND. D-Bus messages are at most 128 MiB, hence the
    bound \<open>2^27\<close> on the texts of DeliverSm.

  \<^item> Connection_Registry, Std_Map, Server_Service (connection_registry.cpp, smpp_server_service.cpp of
    SMPPServer/src): the sockets not yet claimed with the count per address, and the IServer object.
    The locales \<open>fd_registry\<close> and \<open>ordered_map\<close> are what the service relies on. Shows that the counts
    are exact, the refinement to a finite map with a capacity, the one-time claim and the choice of
    the receiver.

  \<^item> Ip_Validator, Session_Launch (ip_validator.cpp, tcp_server.cpp, session_launcher.cpp and
    include/session_id.hpp of SMPPServer): whitelist, session ids, handle_connection. Shows that an
    address is allowed exactly when a line of the file allows it, that ids lose no information and
    that no address reaches the shell unescaped.

  \<^item> Auth_Service, Auth_Main (Authenticator/src): the credentials store and the process with its SIGHUP
    handler, \<open>auth_step\<close>. Shows the verdict of a document and that every answer is that of one
    completely loaded document.

  \<^item> Config_Load (Common/src/config.cpp, level_from_string of SMPPServer/include/logger.hpp, the three
    mains): precedence of environment, command line and file; a handler reads back the arguments it was
    launched with.

  \<^item> Logging (Common/src/logger.cpp, SMPPServer/include/logger.hpp, app_info.hpp, config.h.in and
    app_info.cpp of SMPPServer): the two loggers with their sinks, levels and message formats, and the
    build information. Shows which sinks print a message, that a line with well-behaved context fields
    determines them, that a version text determines the version and what the information text holds.

  \<^item> Server_Main (SMPPServer/src/main.cpp and the accept loop): the start of the server and its runs,
    \<open>process_step\<close>. Shows that only whitelisted addresses are ever served and that every accepted
    descriptor is closed or handed over.

  \<^item> Handler_Startup (SmppClientHandler/src/main.cpp): shows that an accepted connection is claimed by
    the handler launched for it, which starts the session of the right id and address.

  \<^item> Handler_Process (the rest of SmppClientHandler/src/main.cpp): the event loop of a handler process
    with its outstanding work, the D-Bus thread, the signal wait and the ways out of main,
    \<open>handler_step\<close>. Shows that the steps a process makes by itself always end, and where: in the exit
    after a stop signal, otherwise in the event loop with only the signal wait left once the session has
    ended. Whether a buffer can be allocated is a parameter.

  \<^item> Dbus_Interfaces, Dbus_Services (include/generated of the three programs and the calls that
    smpp_session.cpp, smpp_server_service.cpp and main.cpp of SmppClientHandler make by hand): D-Bus
    values with their valid strings (UTF-8 without NUL), adaptors as tables of methods, proxies as calls.
    The locale \<open>dbus_object\<close> is what is assumed of sdbus-c++: a call with valid arguments executes the
    method registered under its interface, name and argument types, and a valid reply arrives. Shows
    that each proxy method does what the method of the service does, exceptions included.

  \<^item> System_Composition: server table, sessions and credentials together, with the logged calls executed
    on each other. Shows that a submitted message is written to the receiver, that the table is right
    about every session that has not ended, and that a login is granted exactly with the password.

  \<^item> Bus_Composition: the same calls over a bus with the service names, object paths, interfaces and
    packed arguments of the source. The locale \<open>system_bus\<close> has the objects that the three programs
    export; it is interpreted for a bus inside one process. Shows that every call with valid strings has
    the effect that System_Composition gives it.

  \<^item> Raw_Client (tests/raw_test.py): the client that builds its PDUs by hand, against the session. Shows
    that its bind is read as meant and that it sees success exactly with the right password.

  \<^item> State_Machine_V1, State_Machine_V2 (smpp_state_machine.cpp, smpp_state_machine_v2.cpp, smpp_states.cpp
    and smpp_client_handler.cpp of SmppClientHandler/src): the second machine with an explicit store of
    its state objects. Shows that the first follows the documented life cycle, that the second refines
    a transition table while one connection lasts, and that its destructor frees a state twice, also
    through the wrapper.

  \<^item> Pdu_Framer, Server_Handler (smpp_pdu_framer.cpp, smpp_handler.cpp, smpp_session.cpp,
    smpp_service_manager.cpp and smpp_client_handler.cpp of SMPPServer/src): reassembly of PDUs and the
    in-process handler, \<open>srv_step\<close>. Shows when a PDU is reassembled, that the framer never asks for
    bytes beyond the PDU, that writes are serialised in order, and that only the built-in account binds.

  \<^bold>\<open>Parameters.\<close> Code outside the repository is an argument: the TOML accessors (record \<open>toml\<close>),
  inet_pton, std::system, the clock and random numbers, whether the bus grants a name and a port can
  be listened on, whether a log sink can be opened and memory allocated, the D-Bus library and its bus,
  the variables of CMake, the bind request classes of smppcxx, and the services that a session calls
  (record \<open>env\<close>), which System_Composition instantiates with the models of the other processes.

  \<^bold>\<open>Divergences.\<close> Theorems without a claim number record behaviour that differs from the
  intention of the code or its documents, for example \<open>ended_receiver_blocks_routing\<close>,
  \<open>refused_connection_leaks_descriptor\<close>, \<open>no_handler_starts_on_a_strict_bus\<close>, \<open>framer_drops_body\<close>,
  \<open>replies_are_empty\<close>, \<open>sighup_ends_service\<close>, \<open>v2_reconnect_dangles\<close>, \<open>announced_length_aborts\<close>,
  \<open>binary_text_is_lost\<close> and \<open>log_line_forged\<close>.

  \<^bold>\<open>Not modelled.\<close> The format of D-Bus messages, the formatting of spdlog patterns and the
  rotation of log files belong to the libraries. The set-up of the D-Bus and asio event loops is
  represented by the step relations only. AdminService has a README only. The unit tests and
  the clients built on smpplib drive the programs and hold no logic of them. A descriptor that crosses the bus keeps its
  number in the model, so duplicates of one open file are not told apart. Bytes on the wire below one
  async_read or async_write, and the memory of the C++ objects other than the state objects of
  State_Machine_V2, are below the level of the model.
\<close>

end
